(* ===== verification/Prelude.thy ===== *)
theory Prelude
  imports Main "HOL-Library.AList" "HOL-Library.Multiset"
begin

text \<open>
  Shared vocabulary of the development: Go strings and errors, Go maps, and the
  iteration order of \<open>for k, v := range m\<close>.

  A Go map that the code only looks up is a partial function (\<open>smap\<close>). A Go map the code
  also ranges over is an association list with distinct keys (\<open>amap\<close>). Go leaves the order of
  such a loop unspecified, so every definition that ranges over a map takes the order
  as a parameter \<open>\<rho>\<close>, a rearrangement of the list of keys, and the theorems hold for
  every \<open>\<rho>\<close> that is a permutation (\<open>range_order\<close>).

  Both kinds of map meet one interface, the locale \<open>go_map\<close>; \<open>ranged_map\<close> adds the keys.
  The loops that fill a map are proved correct once, inside the locales.
\<close>

named_theorems label_defs \<open>unfolding rules of the label builders\<close>
named_theorems derive_defs \<open>unfolding rules of the functions that derive samples\<close>

subsection \<open>Errors\<close>

text \<open>
  Error values: \<open>APIError\<close> is the error of the PowerStore SDK with its HTTP status,
  \<open>Msg\<close> any other error (transport, timeout, decoding), \<open>Wrap\<close> what
  \<open>fmt.Errorf("...: %w", err)\<close> builds.
\<close>

datatype err = Msg string | APIError int | Wrap string err

subsection \<open>Partial functions as Go maps\<close>

type_synonym smap = "string \<rightharpoonup> string"

text \<open>\<open>m[k]\<close> of a Go map from strings to strings: the zero value \<open>""\<close> when the key is absent.\<close>

definition idx :: "smap \<Rightarrow> string \<Rightarrow> string" where
  "idx m k = (case m k of None \<Rightarrow> [] | Some v \<Rightarrow> v)"

lemma idx_None [simp]: "m k = None \<Longrightarrow> idx m k = []"
  and idx_Some [simp]: "m k = Some v \<Longrightarrow> idx m k = v"
  by (simp_all add: idx_def)

text \<open>The environment of the process: \<open>os.LookupEnv\<close>.\<close>

type_synonym environ = "string \<rightharpoonup> string"

subsection \<open>Association lists as Go maps, and ranging over them\<close>

type_synonym ('k, 'v) amap = "('k \<times> 'v) list"

definition amap_put :: "'k \<Rightarrow> 'v \<Rightarrow> ('k, 'v) amap \<Rightarrow> ('k, 'v) amap" where
  "amap_put k v m = AList.update k v m"

definition amap_get :: "('k, 'v) amap \<Rightarrow> 'k \<Rightarrow> 'v option" where
  "amap_get m k = map_of m k"

definition amap_keys :: "('k, 'v) amap \<Rightarrow> 'k list" where
  "amap_keys m = map fst m"

definition amap_ok :: "('k, 'v) amap \<Rightarrow> bool" where
  "amap_ok m \<longleftrightarrow> distinct (map fst m)"

text \<open>The entries in the order a \<open>range\<close> loop visits them.\<close>

definition amap_range :: "('k list \<Rightarrow> 'k list) \<Rightarrow> ('k, 'v) amap \<Rightarrow> ('k \<times> 'v) list" where
  "amap_range \<rho> m = List.map_filter (\<lambda>k. map_option (Pair k) (amap_get m k)) (\<rho> (amap_keys m))"

definition range_order :: "('k list \<Rightarrow> 'k list) \<Rightarrow> bool" where
  "range_order \<rho> \<longleftrightarrow> (\<forall>ks. mset (\<rho> ks) = mset ks)"

lemma range_order_id: "range_order (\<lambda>ks. ks)"
  by (simp add: range_order_def)

lemma range_order_rev: "range_order rev"
  by (simp add: range_order_def)

lemma range_order_set: "range_order \<rho> \<Longrightarrow> set (\<rho> ks) = set ks"
  unfolding range_order_def by (metis set_mset_mset)

lemma range_order_distinct: "range_order \<rho> \<Longrightarrow> distinct (\<rho> ks) = distinct ks"
  unfolding range_order_def by (metis mset_eq_imp_distinct_iff)

lemma map_filter_in_set: "set (List.map_filter f xs) = {y. \<exists>x \<in> set xs. f x = Some y}"
  by (force simp: List.map_filter_def)

lemma map_filter_all: "(\<And>x. x \<in> set xs \<Longrightarrow> f x = Some (g x)) \<Longrightarrow> List.map_filter f xs = map g xs"
  by (induction xs) simp_all

lemma amap_range_set:
  assumes "range_order \<rho>" and "amap_ok m"
  shows "set (amap_range \<rho> m) = set m"
proof -
  have "set (amap_range \<rho> m) = {(k, v). map_of m k = Some v}"
    using range_order_set [OF assms(1), of "map fst m"]
    by (auto simp: amap_range_def map_filter_in_set amap_keys_def amap_get_def)
      (metis fst_conv map_of_SomeD)
  then show ?thesis
    using assms(2) by (auto simp: amap_ok_def)
qed

lemma amap_range_keys:
  assumes "range_order \<rho>"
  shows "map fst (amap_range \<rho> m) = \<rho> (amap_keys m)"
proof -
  have "List.map_filter (\<lambda>k. map_option (Pair k) (map_of m k)) ks = map (\<lambda>k. (k, the (map_of m k))) ks"
    if "set ks \<subseteq> set (map fst m)" for ks
  proof (rule map_filter_all)
    fix k assume "k \<in> set ks"
    with that have "map_of m k \<noteq> None" by (auto simp: map_of_eq_None_iff)
    then show "map_option (Pair k) (map_of m k) = Some (k, the (map_of m k))" by auto
  qed
  then show ?thesis
    using range_order_set [OF assms, of "map fst m"]
    by (simp add: amap_range_def amap_keys_def amap_get_def comp_def)
qed

lemma amap_range_distinct:
  "range_order \<rho> \<Longrightarrow> amap_ok m \<Longrightarrow> distinct (map fst (amap_range \<rho> m))"
  by (simp add: amap_range_keys amap_keys_def amap_ok_def range_order_distinct)

lemma amap_range_mset:
  assumes "range_order \<rho>" and "amap_ok m"
  shows "mset (amap_range \<rho> m) = mset m"
proof -
  have "distinct (amap_range \<rho> m)" and "distinct m"
    using amap_range_distinct [OF assms] assms(2) by (auto simp: amap_ok_def distinct_map)
  then show ?thesis
    using amap_range_set [OF assms] by (simp add: set_eq_iff_mset_eq_distinct)
qed

subsection \<open>The interface of a Go map\<close>

locale go_map =
  fixes emp :: 'm and put :: "'k \<Rightarrow> 'v \<Rightarrow> 'm \<Rightarrow> 'm" and look :: "'m \<Rightarrow> 'k \<Rightarrow> 'v option"
  assumes look_emp: "look emp k = None"
    and look_put: "look (put k v m) k' = (if k' = k then Some v else look m k')"
begin

lemma look_put_same: "look (put k v m) k = Some v"
  by (simp add: look_put)

lemma look_put_other: "k' \<noteq> k \<Longrightarrow> look (put k v m) k' = look m k'"
  by (simp add: look_put)

text \<open>A loop \<open>for _, x := range xs { m[key(x)] = val(x) }\<close>: the last entry of each key wins.\<close>

lemma look_fill:
  "look (foldl (\<lambda>m x. put (key x) (val x) m) m0 xs) k =
    (case map_of (rev (map (\<lambda>x. (key x, val x)) xs)) k of None \<Rightarrow> look m0 k | Some v \<Rightarrow> Some v)"
  by (induction xs rule: rev_induct) (simp_all add: look_put)

lemma look_fill_emp:
  "look (foldl (\<lambda>m x. put (key x) (val x) m) emp xs) k = map_of (rev (map (\<lambda>x. (key x, val x)) xs)) k"
  by (simp add: look_fill look_emp split: option.split)

lemma look_fill_last:
  assumes "xs = ys @ x # zs" and "key x = k" and "\<And>z. z \<in> set zs \<Longrightarrow> key z \<noteq> k"
  shows "look (foldl (\<lambda>m x. put (key x) (val x) m) m0 xs) k = Some (val x)"
proof -
  have "map_of (rev (map (\<lambda>x. (key x, val x)) zs)) k = None"
    using assms(3) by (force simp: map_of_eq_None_iff)
  with assms(1,2) show ?thesis by (simp add: look_fill look_put map_add_def)
qed

lemma look_fill_None:
  "look (foldl (\<lambda>m x. put (key x) (val x) m) emp xs) k = None \<longleftrightarrow> k \<notin> key ` set xs"
  by (simp add: look_fill_emp map_of_eq_None_iff image_image)

end

locale ranged_map = go_map emp put look
  for emp :: 'm and put :: "'k \<Rightarrow> 'v \<Rightarrow> 'm \<Rightarrow> 'm" and look :: "'m \<Rightarrow> 'k \<Rightarrow> 'v option" +
  fixes keys :: "'m \<Rightarrow> 'k list" and invar :: "'m \<Rightarrow> bool"
  assumes invar_emp: "invar emp"
    and invar_put: "invar m \<Longrightarrow> invar (put k v m)"
    and keys_distinct: "invar m \<Longrightarrow> distinct (keys m)"
    and keys_look: "invar m \<Longrightarrow> set (keys m) = {k. look m k \<noteq> None}"
begin

lemma invar_fill: "invar m0 \<Longrightarrow> invar (foldl (\<lambda>m x. put (key x) (val x) m) m0 xs)"
  by (induction xs rule: rev_induct) (simp_all add: invar_put)

lemma keys_fill: "set (keys (foldl (\<lambda>m x. put (key x) (val x) m) emp xs)) = key ` set xs"
  by (simp add: keys_look [OF invar_fill [OF invar_emp]] look_fill_None)

lemma keys_put: "invar m \<Longrightarrow> set (keys (put k v m)) = insert k (set (keys m))"
  by (auto simp: keys_look invar_put look_put)

end

interpretation fm: go_map "Map.empty" "\<lambda>k v m. m(k \<mapsto> v)" "\<lambda>m. m"
  by unfold_locales simp_all

interpretation al: ranged_map "[]" amap_put amap_get amap_keys amap_ok
  by unfold_locales
    (auto simp: amap_put_def amap_get_def amap_keys_def amap_ok_def update_conv'
      distinct_update map_of_eq_None_iff simp flip: dom_map_of_conv_image_fst)

lemma amap_get_mem: "amap_ok m \<Longrightarrow> (k, v) \<in> set m \<longleftrightarrow> amap_get m k = Some v"
  by (simp add: amap_ok_def amap_get_def)

subsection \<open>Lists of samples put together\<close>

lemma concat_map_mset: "mset xs = mset ys \<Longrightarrow> mset (concat (map f xs)) = mset (concat (map f ys))"
proof -
  assume "mset xs = mset ys"
  then have "mset (map f xs) = mset (map f ys)" by (simp only: mset_map)
  then have "mset (map mset (map f xs)) = mset (map mset (map f ys))" by (simp only: mset_map)
  then show ?thesis by (simp only: mset_concat flip: sum_mset_sum_list)
qed

lemma length_concat_const: "(\<And>x. length (f x) = n) \<Longrightarrow> length (concat (map f xs)) = n * length xs"
  by (induction xs) simp_all

subsection \<open>Runs of partial step functions\<close>

fun run_events :: "('e \<Rightarrow> 's \<Rightarrow> 's option) \<Rightarrow> 'e list \<Rightarrow> 's \<Rightarrow> 's option" where
  "run_events f [] s = Some s"
| "run_events f (e # es) s = (case f e s of None \<Rightarrow> None | Some t \<Rightarrow> run_events f es t)"

lemma run_events_steps:
  assumes "\<And>e s t. f e s = Some t \<Longrightarrow> R s t"
  shows "run_events f es s = Some t \<Longrightarrow> R\<^sup>*\<^sup>* s t"
  by (induction es arbitrary: s) (auto split: option.splits intro: converse_rtranclp_into_rtranclp assms)

end
