(* ===== verification/GoFloat.thy ===== *)
theory GoFloat
  imports Prelude
begin

text \<open>
  The floating-point values of the program. A \<open>float64\<close> is a datum of IEEE 754 binary64:
  \<open>NaN\<close>, an infinity with its sign, or \<open>Fin neg m e\<close>, the number
  \<open>(-1)^neg * m * 2^e\<close> with \<open>m\<close> odd, or \<open>m = 0\<close> and \<open>e = 0\<close> (the two zeros differ in
  \<open>neg\<close>). The same datum serves for Go's \<open>float32\<close>: every binary32 number is a binary64
  number, so the conversion \<open>float64(x)\<close> of a \<open>float32\<close> is exact.

  The operations the exporter uses are here: \<open>float64(n)\<close> of an integer, division, the
  comparisons, and the rounding of a fraction to the nearest binary64 number, ties to even,
  which \<open>strconv.ParseFloat\<close> and both conversions share. Mantissas and exponents are
  \<open>int\<close> so that the kernel evaluates them in binary.
\<close>

subsection \<open>Data\<close>

datatype float64 = NaN | Inf bool | Fin bool int int

type_synonym float32 = float64

definition zero64 :: float64 where
  "zero64 = Fin False 0 0"

definition one64 :: float64 where
  "one64 = Fin False 1 0"

text \<open>The conversion \<open>float64(x)\<close> of a \<open>float32\<close>.\<close>

definition of_float32 :: "float32 \<Rightarrow> float64" where
  "of_float32 x = x"

subsection \<open>Rounding a fraction to the nearest, ties to even\<close>

fun blen :: "int \<Rightarrow> int" where
  "blen m = (if m \<le> 0 then 0 else 1 + blen (m div 2))"

declare blen.simps [simp del]

function strip :: "int \<Rightarrow> int \<Rightarrow> int \<times> int" where
  "strip m e = (if m \<le> 0 then (0, 0) else if m mod 2 = 0 then strip (m div 2) (e + 1) else (m, e))"
  by pat_completeness auto
termination
  by (relation "measure (\<lambda>(m, e). nat m)") auto

declare strip.simps [simp del]

text \<open>\<open>n / d\<close> as a fraction in units of \<open>2^e\<close>.\<close>

definition scale :: "int \<Rightarrow> int \<Rightarrow> int \<Rightarrow> int \<times> int" where
  "scale n d e = (if e \<ge> 0 then (n, d * 2 ^ nat e) else (n * 2 ^ nat (- e), d))"

definition round_div :: "int \<Rightarrow> int \<Rightarrow> int" where
  "round_div n d =
    (let q = n div d; r = n mod d
     in if 2 * r > d \<or> 2 * r = d \<and> q mod 2 = 1 then q + 1 else q)"

text \<open>
  The exponent of the last mantissa bit: 53 significant bits, at least \<open>-1074\<close>
  (subnormal numbers).
\<close>

definition ulp_exp :: "int \<Rightarrow> int \<Rightarrow> int" where
  "ulp_exp n d =
    (let e0 = blen n - blen d - 53; (n', d') = scale n d e0
     in max (if n' div d' \<ge> 2 ^ 53 then e0 + 1 else e0) (- 1074))"

definition round64 :: "bool \<Rightarrow> int \<Rightarrow> int \<Rightarrow> float64" where
  "round64 neg n d =
    (if n \<le> 0 then Fin neg 0 0
     else let e = ulp_exp n d; (n', d') = scale n d e; q = round_div n' d'
       in if blen q + e > 1024 then Inf neg
          else let (m, k) = strip q e in Fin neg m k)"

subsection \<open>Conversions, division, comparison\<close>

text \<open>\<open>float64(n)\<close> of an integer.\<close>

definition of_int64 :: "int \<Rightarrow> float64" where
  "of_int64 n = round64 (n < 0) \<bar>n\<bar> 1"

definition pow2 :: "int \<Rightarrow> int \<times> int" where
  "pow2 e = (if e \<ge> 0 then (2 ^ nat e, 1) else (1, 2 ^ nat (- e)))"

text \<open>Division by a finite positive constant; the exporter divides by \<open>100\<close>.\<close>

fun div_const :: "float64 \<Rightarrow> int \<Rightarrow> float64" where
  "div_const NaN c = NaN"
| "div_const (Inf s) c = Inf s"
| "div_const (Fin s m e) c = (let (n, d) = pow2 e in round64 s (m * n) (d * c))"

text \<open>The sign and size of a finite number as a fraction, for the ordered comparisons.\<close>

fun frac :: "float64 \<Rightarrow> (int \<times> int) option" where
  "frac (Fin s m e) = (let (n, d) = pow2 e in Some (if s then - (m * n) else m * n, d))"
| "frac _ = None"

text \<open>\<open>x < c\<close> and \<open>x > c\<close> against an integer constant: false for NaN.\<close>

definition lt_const :: "float64 \<Rightarrow> int \<Rightarrow> bool" where
  "lt_const x c = (case x of NaN \<Rightarrow> False | Inf s \<Rightarrow> s
    | Fin s m e \<Rightarrow> (case frac x of Some (n, d) \<Rightarrow> n < c * d | None \<Rightarrow> False))"

definition gt_const :: "float64 \<Rightarrow> int \<Rightarrow> bool" where
  "gt_const x c = (case x of NaN \<Rightarrow> False | Inf s \<Rightarrow> \<not> s
    | Fin s m e \<Rightarrow> (case frac x of Some (n, d) \<Rightarrow> n > c * d | None \<Rightarrow> False))"

definition ge_const :: "float64 \<Rightarrow> int \<Rightarrow> bool" where
  "ge_const x c \<longleftrightarrow> x \<noteq> NaN \<and> \<not> lt_const x c"

text \<open>\<open>x != 0\<close>: true for NaN, false for both zeros.\<close>

fun nonzero :: "float64 \<Rightarrow> bool" where
  "nonzero (Fin s m e) = (m \<noteq> 0)"
| "nonzero _ = True"

text \<open>
  Numeric fields of the SDK's structs, which the code converts with \<open>float64(...)\<close>: the
  field's own type is the SDK's, an integer or a \<open>float32\<close>.
\<close>

datatype num = Int64 int | Float32 float32

fun to_float64 :: "num \<Rightarrow> float64" where
  "to_float64 (Int64 n) = of_int64 n"
| "to_float64 (Float32 x) = of_float32 x"

text \<open>The integer a datum denotes, if it denotes one.\<close>

fun to_int :: "float64 \<Rightarrow> int option" where
  "to_int (Fin s m e) = (if e \<ge> 0 then Some (if s then - (m * 2 ^ nat e) else m * 2 ^ nat e) else None)"
| "to_int _ = None"

subsection \<open>Rounding lemmas\<close>

lemma blen_nonpos [simp]: "m \<le> 0 \<Longrightarrow> blen m = 0"
  by (simp add: blen.simps)

lemma blen_ge0: "blen m \<ge> 0"
proof (induction m rule: blen.induct)
  case (1 m)
  then show ?case by (cases "m \<le> 0") (auto simp: blen.simps [of m])
qed

lemma blen_bounds: "m > 0 \<Longrightarrow> blen m \<ge> 1 \<and> 2 ^ nat (blen m - 1) \<le> m \<and> m < 2 ^ nat (blen m)"
proof (induction m rule: blen.induct)
  case (1 m)
  show ?case
  proof (cases "m = 1")
    case True
    then show ?thesis by (simp add: blen.simps)
  next
    case False
    define h where "h = m div 2"
    from False "1.prems" have pos: "\<not> m \<le> 0" and h0: "h > 0" by (auto simp: h_def)
    from "1.IH" [OF pos] h0 have IH: "blen h \<ge> 1" "2 ^ nat (blen h - 1) \<le> h" "h < 2 ^ nat (blen h)"
      by (auto simp: h_def)
    have b: "blen m = 1 + blen h" using pos by (simp add: blen.simps [of m] h_def)
    have p: "(2::int) ^ nat (blen h) = 2 * 2 ^ nat (blen h - 1)" "(2::int) ^ nat (1 + blen h) = 2 * 2 ^ nat (blen h)"
      using IH(1) by (simp_all flip: power_Suc add: Suc_nat_eq_nat_zadd1)
    have "m \<ge> 2 * h" "m < 2 * h + 2" by (auto simp: h_def)
    with IH p b show ?thesis by auto
  qed
qed

lemma blen_le: "0 \<le> k \<Longrightarrow> m < 2 ^ nat k \<Longrightarrow> blen m \<le> k"
proof (rule ccontr)
  assume k: "0 \<le> k" "m < 2 ^ nat k" and "\<not> blen m \<le> k"
  then have b: "blen m - 1 \<ge> k" by simp
  with k have "m > 0" by (cases "m > 0") auto
  then have "2 ^ nat (blen m - 1) \<le> m" by (simp add: blen_bounds)
  moreover have "(2::int) ^ nat k \<le> 2 ^ nat (blen m - 1)"
    using b by (intro power_increasing) auto
  ultimately show False using k(2) by simp
qed

lemma strip_double: "x > 0 \<Longrightarrow> strip (2 * x) (e - 1) = strip x e"
  by (subst strip.simps) simp

lemma strip_shift: "n > 0 \<Longrightarrow> strip (n * 2 ^ k) (e - int k) = strip n e"
proof (induction k arbitrary: e)
  case (Suc k)
  have "strip (n * 2 ^ Suc k) (e - int (Suc k)) = strip (2 * (n * 2 ^ k)) ((e - int k) - 1)"
    by (simp add: algebra_simps)
  also have "\<dots> = strip (n * 2 ^ k) (e - int k)"
    using Suc.prems by (intro strip_double) simp
  finally show ?case using Suc by simp
qed simp

lemma strip_value:
  "m > 0 \<Longrightarrow> strip m e = (m', e') \<Longrightarrow> e \<le> e' \<and> m' > 0 \<and> m' mod 2 = 1 \<and> m = m' * 2 ^ nat (e' - e)"
proof (induction m e arbitrary: m' e' rule: strip.induct)
  case (1 m e)
  show ?case
  proof (cases "m mod 2 = 0")
    case True
    with "1.prems"(1) have "m div 2 > 0" by presburger
    with True 1 have IH: "e + 1 \<le> e' \<and> m' > 0 \<and> m' mod 2 = 1 \<and> m div 2 = m' * 2 ^ nat (e' - (e + 1))"
      by (simp add: strip.simps [of m e])
    moreover have "nat (e' - e) = Suc (nat (e' - (e + 1)))" using IH by linarith
    moreover have "m = 2 * (m div 2)" using True by presburger
    ultimately show ?thesis by simp
  next
    case False
    with 1 show ?thesis by (auto simp: strip.simps [of m e])
  qed
qed

lemma round_div_exact: "d > 0 \<Longrightarrow> round_div (q * d) d = q"
  by (simp add: round_div_def Let_def)

lemma round_div_half: "d > 0 \<Longrightarrow> 2 * \<bar>round_div n d * d - n\<bar> \<le> d"
proof -
  assume d: "d > 0"
  have n: "n = (n div d) * d + n mod d" and r: "0 \<le> n mod d" "n mod d < d"
    using d by simp_all
  show ?thesis
  proof (cases "2 * (n mod d) > d \<or> 2 * (n mod d) = d \<and> n div d mod 2 = 1")
    case True
    then have "round_div n d * d - n = d - n mod d"
      using n by (simp add: round_div_def Let_def algebra_simps)
    with True r show ?thesis by auto
  next
    case False
    then have "round_div n d = n div d" by (auto simp: round_div_def Let_def)
    then have "round_div n d * d = n div d * d" by simp
    with n have "round_div n d * d - n = - (n mod d)" by linarith
    with False r show ?thesis by auto
  qed
qed

text \<open>The unit of the last place of an integer below \<open>2^54\<close>.\<close>

lemma ulp_exp_int: "0 < n \<Longrightarrow> n < 2 ^ 54 \<Longrightarrow> ulp_exp n 1 = blen n - 53"
proof -
  assume n: "0 < n" "n < 2 ^ 54"
  then have b: "blen n \<ge> 1" "blen n \<le> 54" and lo: "2 ^ nat (blen n - 1) \<le> n"
    using blen_bounds [OF n(1)] blen_le [of 54 n] by auto
  have "(2::int) ^ 53 = 2 ^ nat (blen n - 1) * 2 ^ nat (54 - blen n)"
    using b by (simp flip: power_add nat_add_distrib)
  also have "\<dots> \<le> n * 2 ^ nat (54 - blen n)" using lo by simp
  finally have "2 ^ 53 \<le> n * 2 ^ nat (54 - blen n)" .
  with b show ?thesis
    by (cases "blen n = 54") (auto simp: ulp_exp_def scale_def blen.simps [of 1] Let_def)
qed

lemma round64_int:
  assumes "0 < n" and "n \<le> 2 ^ 53"
  shows "round64 s n 1 = (case strip n 0 of (m, k) \<Rightarrow> Fin s m k)"
proof (cases "n = 2 ^ 53")
  case True
  have "blen (2 ^ 53) = 54" by code_simp
  moreover have "strip 4503599627370496 1 = strip (2 ^ 53) 0" by code_simp
  moreover have "blen 4503599627370496 = 53" by code_simp
  ultimately show ?thesis
    using ulp_exp_int [of n] True by (simp add: round64_def scale_def round_div_def Let_def)
next
  case False
  define b where "b = blen n"
  from assms False have n: "n < 2 ^ 53" by simp
  then have b: "1 \<le> b" "b \<le> 53" and hi: "n < 2 ^ nat b"
    using blen_bounds [OF assms(1)] blen_le [of 53 n] by (auto simp: b_def)
  have u: "ulp_exp n 1 = b - 53" using ulp_exp_int [of n] assms n by (simp add: b_def)
  have sc: "scale n 1 (b - 53) = (n * 2 ^ nat (53 - b), 1)" using b by (auto simp: scale_def)
  have "n * 2 ^ nat (53 - b) < 2 ^ nat b * 2 ^ nat (53 - b)" using hi by simp
  also have "\<dots> = 2 ^ nat 53" using b by (simp flip: power_add nat_add_distrib)
  finally have "blen (n * 2 ^ nat (53 - b)) \<le> 53" by (intro blen_le) simp_all
  moreover have "strip (n * 2 ^ nat (53 - b)) (b - 53) = strip n 0"
    using strip_shift [OF assms(1), of "nat (53 - b)" 0] b by simp
  moreover have "round_div x 1 = x" for x using round_div_exact [of 1 x] by simp
  ultimately show ?thesis using assms(1) b
    by (simp add: round64_def u sc)
qed

text \<open>Integers up to \<open>2^53\<close> in absolute value convert exactly.\<close>

lemma to_int_of_int64:
  assumes "\<bar>n\<bar> \<le> 2 ^ 53"
  shows "to_int (of_int64 n) = Some n"
proof (cases "n = 0")
  case True
  then show ?thesis by (simp add: of_int64_def round64_def)
next
  case False
  obtain m k where mk: "strip \<bar>n\<bar> 0 = (m, k)" by force
  with False have "k \<ge> 0 \<and> \<bar>n\<bar> = m * 2 ^ nat k" using strip_value [of "\<bar>n\<bar>" 0 m k] by simp
  with False assms mk show ?thesis by (auto simp: of_int64_def round64_int)
qed

lemma of_int64_0 [simp]: "of_int64 0 = zero64"
  by (simp add: of_int64_def round64_def zero64_def)

lemma of_int64_1 [simp]: "of_int64 1 = one64"
  by code_simp

end
