(* ===== verification/GoText.thy ===== *)
theory GoText
  imports GoFloat
begin

text \<open>
  The operations of Go's \<open>strings\<close>, \<open>strconv\<close> and \<open>time\<close> packages that the exporter
  calls, as executable functions on byte strings: \<open>Split\<close>, \<open>Join\<close>, \<open>TrimSpace\<close>,
  \<open>EqualFold\<close>, \<open>Atoi\<close>, \<open>ParseBool\<close>, \<open>ParseFloat\<close>, \<open>ParseDuration\<close> and the decimal
  printer. \<open>None\<close> is the error result of a parser. A Go \<open>int\<close> is 64 bits wide; the
  \<open>uint64\<close> sums of \<open>ParseDuration\<close> wrap.
\<close>

subsection \<open>Characters\<close>

definition code :: "char \<Rightarrow> int" where
  "code c = of_char c"

definition is_digit :: "char \<Rightarrow> bool" where
  "is_digit c \<longleftrightarrow> 48 \<le> code c \<and> code c \<le> 57"

definition digit_val :: "char \<Rightarrow> int" where
  "digit_val c = code c - 48"

text \<open>ASCII lower case, as a character code.\<close>

definition lower :: "char \<Rightarrow> int" where
  "lower c = (if 65 \<le> code c \<and> code c \<le> 90 then code c + 32 else code c)"

text \<open>
  \<open>strings.EqualFold(s, t)\<close> for an ASCII \<open>t\<close> without the letters K and S, whose simple
  case folding reaches beyond ASCII: the comparison is of ASCII lower cases.
\<close>

definition EqualFold :: "string \<Rightarrow> string \<Rightarrow> bool" where
  "EqualFold s t \<longleftrightarrow> map lower s = map lower t"

subsection \<open>Split and Join\<close>

fun split_on :: "char \<Rightarrow> string \<Rightarrow> string list" where
  "split_on c [] = [[]]"
| "split_on c (x # xs) =
    (if x = c then [] # split_on c xs
     else (case split_on c xs of [] \<Rightarrow> [[x]] | p # ps \<Rightarrow> (x # p) # ps))"

fun join :: "string \<Rightarrow> string list \<Rightarrow> string" where
  "join sep [] = []"
| "join sep [x] = x"
| "join sep (x # y # ys) = x @ sep @ join sep (y # ys)"

lemma split_on_Nil: "split_on c xs \<noteq> []"
  by (cases xs) (auto split: list.split)

lemma split_on_single: "c \<notin> set xs \<Longrightarrow> split_on c xs = [xs]"
  by (induction xs) auto

lemma split_on_append: "c \<notin> set xs \<Longrightarrow> split_on c (xs @ c # ys) = xs # split_on c ys"
  by (induction xs) auto

lemma join_inject:
  assumes "length xs = length ys"
    and "\<And>x. x \<in> set xs \<union> set ys \<Longrightarrow> c \<notin> set x"
    and "join [c] xs = join [c] ys"
  shows "xs = ys"
  using assms
proof (induction xs ys rule: list_induct2)
  case (Cons x xs y ys)
  show ?case
  proof (cases xs)
    case Nil
    with Cons show ?thesis by simp
  next
    case (Cons x' xs')
    with Cons.hyps obtain y' ys' where ys: "ys = y' # ys'" by (cases ys) auto
    have c: "c \<notin> set x" "c \<notin> set y" using Cons.prems(1) by auto
    from Cons.prems(2) Cons ys have e: "x @ c # join [c] xs = y @ c # join [c] ys" by simp
    then have "split_on c (x @ c # join [c] xs) = split_on c (y @ c # join [c] ys)" by simp
    with c have "x = y" by (simp add: split_on_append)
    with e Cons.IH Cons.prems(1) show ?thesis by auto
  qed
qed simp

subsection \<open>TrimSpace\<close>

text \<open>White space of \<open>unicode.IsSpace\<close>, as UTF-8 byte strings.\<close>

definition spaces :: "string list" where
  "spaces = map (map char_of)
    ([[9], [10], [11], [12], [13], [32], [0xC2, 0x85], [0xC2, 0xA0], [0xE1, 0x9A, 0x80],
      [0xE2, 0x80, 0xA8], [0xE2, 0x80, 0xA9], [0xE2, 0x80, 0xAF], [0xE2, 0x81, 0x9F],
      [0xE3, 0x80, 0x80]] @ map (\<lambda>k. [0xE2, 0x80, 0x80 + k]) [0, 1, 2, 3, 4, 5, 6, 7, 8, 9, 10 :: int])"

definition strip_prefix :: "string \<Rightarrow> string \<Rightarrow> string option" where
  "strip_prefix p s = (if take (length p) s = p then Some (drop (length p) s) else None)"

definition drop_space :: "string list \<Rightarrow> string \<Rightarrow> string option" where
  "drop_space ps s = (case List.map_filter (\<lambda>p. strip_prefix p s) ps of [] \<Rightarrow> None | r # _ \<Rightarrow> Some r)"

fun trim_left :: "nat \<Rightarrow> string list \<Rightarrow> string \<Rightarrow> string" where
  "trim_left 0 ps s = s"
| "trim_left (Suc n) ps s = (case drop_space ps s of None \<Rightarrow> s | Some r \<Rightarrow> trim_left n ps r)"

text \<open>
  Each round drops at least one byte, so as many rounds as bytes are enough. The right
  end is trimmed by the same function on the reversed string.
\<close>

definition TrimSpace :: "string \<Rightarrow> string" where
  "TrimSpace s =
    (let l = trim_left (length s) spaces s
     in rev (trim_left (length l) (map rev spaces) (rev l)))"

lemma spaces_nonempty: "p \<in> set spaces \<Longrightarrow> p \<noteq> []"
  by (auto simp: spaces_def)

lemma drop_space_length:
  assumes "drop_space ps s = Some r" and "\<And>p. p \<in> set ps \<Longrightarrow> p \<noteq> []"
  shows "length r < length s"
proof -
  from assms(1) have "r \<in> set (List.map_filter (\<lambda>p. strip_prefix p s) ps)"
    by (auto simp: drop_space_def split: list.splits)
  then obtain p where "p \<in> set ps" and "take (length p) s = p" and "r = drop (length p) s"
    by (auto simp: map_filter_in_set strip_prefix_def split: if_splits)
  with assms(2) [of p] show ?thesis by (cases s) auto
qed

text \<open>Enough rounds: what is left starts with no white space.\<close>

lemma trim_left_done:
  "length s \<le> n \<Longrightarrow> (\<And>p. p \<in> set ps \<Longrightarrow> p \<noteq> []) \<Longrightarrow> drop_space ps (trim_left n ps s) = None"
proof (induction n arbitrary: s)
  case 0
  then have "s = []" by simp
  moreover have "filter ((=) []) ps = []" using "0.prems"(2) by (auto simp: filter_empty_conv)
  ultimately show ?case
    by (simp add: drop_space_def strip_prefix_def List.map_filter_def)
next
  case (Suc n)
  show ?case
  proof (cases "drop_space ps s")
    case (Some r)
    with Suc.prems drop_space_length [OF Some] have "length r \<le> n" by fastforce
    with Some Suc.IH Suc.prems(2) show ?thesis by simp
  qed simp
qed

subsection \<open>Decimal integers\<close>

definition digits_val :: "string \<Rightarrow> int" where
  "digits_val ds = foldl (\<lambda>a c. 10 * a + digit_val c) 0 ds"

text \<open>An optional sign; the flag says \<open>-\<close>.\<close>

definition sign :: "string \<Rightarrow> bool \<times> string" where
  "sign s = (case s of [] \<Rightarrow> (False, []) | c # r \<Rightarrow>
    if c = CHR ''-'' then (True, r) else if c = CHR ''+'' then (False, r) else (False, s))"

definition Atoi :: "string \<Rightarrow> int option" where
  "Atoi s =
    (let (neg, ds) = sign s
     in if ds = [] \<or> \<not> list_all is_digit ds then None
        else let n = digits_val ds; v = (if neg then - n else n)
          in if v < - (2 ^ 63) \<or> v > 2 ^ 63 - 1 then None else Some v)"

definition ParseBool :: "string \<Rightarrow> bool option" where
  "ParseBool s =
    (if s \<in> {''1'', ''t'', ''T'', ''TRUE'', ''true'', ''True''} then Some True
     else if s \<in> {''0'', ''f'', ''F'', ''FALSE'', ''false'', ''False''} then Some False
     else None)"

definition digit_char :: "int \<Rightarrow> char" where
  "digit_char k = ''0123456789'' ! nat k"

text \<open>The decimal numeral of a non-negative integer.\<close>

fun dec :: "int \<Rightarrow> string" where
  "dec n = (if n < 10 then [digit_char n] else dec (n div 10) @ [digit_char (n mod 10)])"

declare dec.simps [simp del]

lemma digit_char_ok:
  assumes "0 \<le> k" and "k < 10"
  shows "is_digit (digit_char k)" and "digit_val (digit_char k) = k"
proof -
  from assms have "k = 0 \<or> k = 1 \<or> k = 2 \<or> k = 3 \<or> k = 4 \<or> k = 5 \<or> k = 6 \<or> k = 7 \<or> k = 8 \<or> k = 9"
    by arith
  then show "is_digit (digit_char k)" and "digit_val (digit_char k) = k"
    by (auto simp: digit_char_def is_digit_def digit_val_def code_def numeral_nat)
qed

lemma dec_digits: "0 \<le> n \<Longrightarrow> list_all is_digit (dec n)"
proof (induction n rule: dec.induct)
  case (1 n)
  then show ?case by (subst dec.simps) (auto simp: digit_char_ok)
qed

lemma dec_nonempty: "dec n \<noteq> []"
  by (subst dec.simps) simp

lemma digits_val_dec: "0 \<le> n \<Longrightarrow> digits_val (dec n) = n"
proof (induction n rule: dec.induct)
  case (1 n)
  then show ?case
    by (cases "n < 10") (simp_all add: dec.simps [of n] digits_val_def digit_char_ok)
qed

lemma digit_not_special: "is_digit c \<Longrightarrow> c \<noteq> CHR ''-'' \<and> c \<noteq> CHR ''+'' \<and> c \<noteq> CHR ''.''"
  by (auto simp: is_digit_def code_def)

lemma dec_no_dot: "0 \<le> n \<Longrightarrow> CHR ''.'' \<notin> set (dec n)"
  using dec_digits [of n] digit_not_special by (auto simp: list_all_iff)

lemma sign_digits: "ds \<noteq> [] \<Longrightarrow> list_all is_digit ds \<Longrightarrow> sign ds = (False, ds)"
  by (cases ds) (auto simp: sign_def dest: digit_not_special)

text \<open>Printing and parsing a Go \<open>int\<close>.\<close>

lemma Atoi_dec: "0 \<le> n \<Longrightarrow> n < 2 ^ 63 \<Longrightarrow> Atoi (dec n) = Some n"
  by (simp add: Atoi_def sign_digits dec_nonempty dec_digits digits_val_dec)

lemma Atoi_range: "Atoi s = Some v \<Longrightarrow> - (2 ^ 63) \<le> v \<and> v < 2 ^ 63"
  by (auto simp: Atoi_def Let_def split: prod.splits if_splits)

end
