(* ===== verification/Metrics.thy ===== *)
theory Metrics
  imports GoFloat
begin

text \<open>
  \<open>internal/powerstore/metrics.go\<close>: labels, samples and the builders of the canonical label
  sets. A sample is one exported data point; every label set starts with \<open>array\<close> and
  \<open>cluster_id\<close> (\<open>baseLabels\<close>). The keys of each label set are named here too
  (\<open>volume_keys\<close> and so on), for the metric schema.
\<close>

record label =
  LName :: string
  LValue :: string

abbreviation Label :: "string \<Rightarrow> string \<Rightarrow> label" where
  "Label n v \<equiv> \<lparr>LName = n, LValue = v\<rparr>"

record sample =
  Name :: string
  Labels :: "label list"
  Value :: float64

abbreviation Sample :: "string \<Rightarrow> label list \<Rightarrow> float64 \<Rightarrow> sample" where
  "Sample n ls v \<equiv> \<lparr>Name = n, Labels = ls, Value = v\<rparr>"

definition b2f :: "bool \<Rightarrow> float64" where
  "b2f b = (if b then one64 else zero64)"

subsection \<open>Label sets\<close>

definition baseLabels :: "string \<Rightarrow> string \<Rightarrow> label list" where
  "baseLabels arrayName clusterID = [Label ''array'' arrayName, Label ''cluster_id'' clusterID]"

definition volumeLabels where
  "volumeLabels arrayName clusterID volName volID applID applName vgName vgID =
    baseLabels arrayName clusterID @
     [Label ''volume_name'' volName,
      Label ''volume_id'' volID,
      Label ''appliance_id'' applID,
      Label ''appliance_name'' applName,
      Label ''volume_group_name'' vgName,
      Label ''volume_group_id'' vgID]"

definition applianceLabels :: "string \<Rightarrow> string \<Rightarrow> string \<Rightarrow> string \<Rightarrow> string \<Rightarrow> label list" where
  "applianceLabels arrayName clusterID applName applID serviceTag =
    baseLabels arrayName clusterID @
     [Label ''appliance_name'' applName,
      Label ''appliance_id'' applID,
      Label ''service_tag'' serviceTag]"

definition fileSystemLabels :: "string \<Rightarrow> string \<Rightarrow> string \<Rightarrow> string \<Rightarrow> string \<Rightarrow> string \<Rightarrow> label list" where
  "fileSystemLabels arrayName clusterID fsName fsID nasName nasID =
    baseLabels arrayName clusterID @
     [Label ''file_system_name'' fsName,
      Label ''file_system_id'' fsID,
      Label ''nas_server_name'' nasName,
      Label ''nas_server_id'' nasID]"

definition portLabels :: "string \<Rightarrow> string \<Rightarrow> string \<Rightarrow> string \<Rightarrow> string \<Rightarrow> string \<Rightarrow> label list" where
  "portLabels arrayName clusterID portName portID kind applID =
    baseLabels arrayName clusterID @
     [Label ''port_name'' portName,
      Label ''port_id'' portID,
      Label ''port_type'' kind,
      Label ''appliance_id'' applID]"

definition alertLabels :: "string \<Rightarrow> string \<Rightarrow> string \<Rightarrow> label list" where
  "alertLabels arrayName clusterID severity =
    baseLabels arrayName clusterID @
     [Label ''severity'' severity]"

definition driveLabels :: "string \<Rightarrow> string \<Rightarrow> string \<Rightarrow> string \<Rightarrow> string \<Rightarrow> label list" where
  "driveLabels arrayName clusterID driveID driveName applianceID =
    baseLabels arrayName clusterID @
     [Label ''drive_id'' driveID,
      Label ''drive_name'' driveName,
      Label ''appliance_id'' applianceID]"

definition driveStateLabels :: "string \<Rightarrow> string \<Rightarrow> string \<Rightarrow> string \<Rightarrow> string \<Rightarrow> string \<Rightarrow> label list" where
  "driveStateLabels arrayName clusterID driveID driveName applianceID state =
    driveLabels arrayName clusterID driveID driveName applianceID @ [Label ''state'' state]"

definition witnessStateLabels :: "string \<Rightarrow> string \<Rightarrow> string \<Rightarrow> string \<Rightarrow> string \<Rightarrow> label list" where
  "witnessStateLabels arrayName clusterID witnessID witnessName state =
    baseLabels arrayName clusterID @
     [Label ''witness_id'' witnessID,
      Label ''witness_name'' witnessName,
      Label ''state'' state]"

definition witnessConnectionLabels :: "string \<Rightarrow> string \<Rightarrow> string \<Rightarrow> string \<Rightarrow> string \<Rightarrow> string \<Rightarrow> label list" where
  "witnessConnectionLabels arrayName clusterID witnessID applianceID nodeID state =
    baseLabels arrayName clusterID @
     [Label ''witness_id'' witnessID,
      Label ''appliance_id'' applianceID,
      Label ''node_id'' nodeID,
      Label ''state'' state]"

definition volumeGroupLabels :: "string \<Rightarrow> string \<Rightarrow> string \<Rightarrow> string \<Rightarrow> label list" where
  "volumeGroupLabels arrayName clusterID vgName vgID =
    baseLabels arrayName clusterID @
     [Label ''volume_group_name'' vgName,
      Label ''volume_group_id'' vgID]"

definition replicationSessionLabels where
  "replicationSessionLabels arrayName clusterID sessionID localResourceID localResourceName resourceType role sessionType remoteSystemID state =
    baseLabels arrayName clusterID @
     [Label ''session_id'' sessionID,
      Label ''local_resource_id'' localResourceID,
      Label ''local_resource_name'' localResourceName,
      Label ''resource_type'' resourceType,
      Label ''role'' role,
      Label ''type'' sessionType,
      Label ''remote_system_id'' remoteSystemID,
      Label ''state'' state]"

definition replicationResourceLabels :: "string \<Rightarrow> string \<Rightarrow> string \<Rightarrow> string \<Rightarrow> string \<Rightarrow> label list" where
  "replicationResourceLabels arrayName clusterID resourceID resourceName resourceType =
    baseLabels arrayName clusterID @
     [Label ''resource_id'' resourceID,
      Label ''resource_name'' resourceName,
      Label ''resource_type'' resourceType]"

definition replicationRuleLabels :: "string \<Rightarrow> string \<Rightarrow> string \<Rightarrow> string \<Rightarrow> label list" where
  "replicationRuleLabels arrayName clusterID ruleID remoteSystemID =
    baseLabels arrayName clusterID @
     [Label ''rule_id'' ruleID,
      Label ''remote_system_id'' remoteSystemID]"

lemmas [label_defs] = baseLabels_def volumeLabels_def applianceLabels_def fileSystemLabels_def portLabels_def alertLabels_def driveLabels_def driveStateLabels_def witnessStateLabels_def witnessConnectionLabels_def volumeGroupLabels_def replicationSessionLabels_def replicationResourceLabels_def replicationRuleLabels_def

subsection \<open>The keys of the label sets\<close>

definition base_keys :: "string list" where
  "base_keys = [''array'', ''cluster_id'']"

definition volume_keys :: "string list" where
  "volume_keys = base_keys @ [''volume_name'', ''volume_id'', ''appliance_id'', ''appliance_name'', ''volume_group_name'', ''volume_group_id'']"

definition appliance_keys :: "string list" where
  "appliance_keys = base_keys @ [''appliance_name'', ''appliance_id'', ''service_tag'']"

definition fileSystem_keys :: "string list" where
  "fileSystem_keys = base_keys @ [''file_system_name'', ''file_system_id'', ''nas_server_name'', ''nas_server_id'']"

definition port_keys :: "string list" where
  "port_keys = base_keys @ [''port_name'', ''port_id'', ''port_type'', ''appliance_id'']"

definition alert_keys :: "string list" where
  "alert_keys = base_keys @ [''severity'']"

definition drive_keys :: "string list" where
  "drive_keys = base_keys @ [''drive_id'', ''drive_name'', ''appliance_id'']"

definition driveState_keys :: "string list" where
  "driveState_keys = drive_keys @ [''state'']"

definition witnessState_keys :: "string list" where
  "witnessState_keys = base_keys @ [''witness_id'', ''witness_name'', ''state'']"

definition witnessConnection_keys :: "string list" where
  "witnessConnection_keys = base_keys @ [''witness_id'', ''appliance_id'', ''node_id'', ''state'']"

definition volumeGroup_keys :: "string list" where
  "volumeGroup_keys = base_keys @ [''volume_group_name'', ''volume_group_id'']"

definition replicationSession_keys :: "string list" where
  "replicationSession_keys = base_keys @ [''session_id'', ''local_resource_id'', ''local_resource_name'', ''resource_type'', ''role'', ''type'', ''remote_system_id'', ''state'']"

definition replicationResource_keys :: "string list" where
  "replicationResource_keys = base_keys @ [''resource_id'', ''resource_name'', ''resource_type'']"

definition replicationRule_keys :: "string list" where
  "replicationRule_keys = base_keys @ [''rule_id'', ''remote_system_id'']"

lemmas [label_defs] = base_keys_def volume_keys_def appliance_keys_def fileSystem_keys_def port_keys_def alert_keys_def drive_keys_def driveState_keys_def witnessState_keys_def witnessConnection_keys_def volumeGroup_keys_def replicationSession_keys_def replicationResource_keys_def replicationRule_keys_def

definition label_keys :: "label list \<Rightarrow> string list" where
  "label_keys ls = map LName ls"

definition label_values :: "label list \<Rightarrow> string list" where
  "label_values ls = map LValue ls"

lemma keys_baseLabels [simp]: "label_keys (baseLabels a c) = base_keys"
  by (simp add: label_keys_def label_defs)

lemma keys_volumeLabels [simp]: "label_keys (volumeLabels x0 x1 x2 x3 x4 x5 x6 x7) = volume_keys"
  by (simp add: label_keys_def label_defs)

lemma keys_applianceLabels [simp]: "label_keys (applianceLabels x0 x1 x2 x3 x4) = appliance_keys"
  by (simp add: label_keys_def label_defs)

lemma keys_fileSystemLabels [simp]: "label_keys (fileSystemLabels x0 x1 x2 x3 x4 x5) = fileSystem_keys"
  by (simp add: label_keys_def label_defs)

lemma keys_portLabels [simp]: "label_keys (portLabels x0 x1 x2 x3 x4 x5) = port_keys"
  by (simp add: label_keys_def label_defs)

lemma keys_alertLabels [simp]: "label_keys (alertLabels x0 x1 x2) = alert_keys"
  by (simp add: label_keys_def label_defs)

lemma keys_driveLabels [simp]: "label_keys (driveLabels x0 x1 x2 x3 x4) = drive_keys"
  by (simp add: label_keys_def label_defs)

lemma keys_driveStateLabels [simp]: "label_keys (driveStateLabels x0 x1 x2 x3 x4 x5) = driveState_keys"
  by (simp add: label_keys_def label_defs)

lemma keys_witnessStateLabels [simp]: "label_keys (witnessStateLabels x0 x1 x2 x3 x4) = witnessState_keys"
  by (simp add: label_keys_def label_defs)

lemma keys_witnessConnectionLabels [simp]: "label_keys (witnessConnectionLabels x0 x1 x2 x3 x4 x5) = witnessConnection_keys"
  by (simp add: label_keys_def label_defs)

lemma keys_volumeGroupLabels [simp]: "label_keys (volumeGroupLabels x0 x1 x2 x3) = volumeGroup_keys"
  by (simp add: label_keys_def label_defs)

lemma keys_replicationSessionLabels [simp]: "label_keys (replicationSessionLabels x0 x1 x2 x3 x4 x5 x6 x7 x8 x9) = replicationSession_keys"
  by (simp add: label_keys_def label_defs)

lemma keys_replicationResourceLabels [simp]: "label_keys (replicationResourceLabels x0 x1 x2 x3 x4) = replicationResource_keys"
  by (simp add: label_keys_def label_defs)

lemma keys_replicationRuleLabels [simp]: "label_keys (replicationRuleLabels x0 x1 x2 x3) = replicationRule_keys"
  by (simp add: label_keys_def label_defs)

subsection \<open>Samples of one array\<close>

text \<open>
  The contract stated at \<open>Sample\<close>: the first label is the array's name; the builders also
  put the cluster id second.
\<close>

definition labelled :: "string \<Rightarrow> string \<Rightarrow> sample \<Rightarrow> bool" where
  "labelled a c s \<longleftrightarrow> take 2 (Labels s) = baseLabels a c"

lemma labelled_array: "labelled a c s \<Longrightarrow> \<exists>rest. Labels s = Label ''array'' a # rest"
  by (cases "Labels s") (auto simp: labelled_def label_defs)

lemma take_volumeLabels [simp]: "take 2 (volumeLabels a c x2 x3 x4 x5 x6 x7) = baseLabels a c"
  by (simp add: label_defs)

lemma take_applianceLabels [simp]: "take 2 (applianceLabels a c x2 x3 x4) = baseLabels a c"
  by (simp add: label_defs)

lemma take_fileSystemLabels [simp]: "take 2 (fileSystemLabels a c x2 x3 x4 x5) = baseLabels a c"
  by (simp add: label_defs)

lemma take_portLabels [simp]: "take 2 (portLabels a c x2 x3 x4 x5) = baseLabels a c"
  by (simp add: label_defs)

lemma take_alertLabels [simp]: "take 2 (alertLabels a c x2) = baseLabels a c"
  by (simp add: label_defs)

lemma take_driveLabels [simp]: "take 2 (driveLabels a c x2 x3 x4) = baseLabels a c"
  by (simp add: label_defs)

lemma take_driveStateLabels [simp]: "take 2 (driveStateLabels a c x2 x3 x4 x5) = baseLabels a c"
  by (simp add: label_defs)

lemma take_witnessStateLabels [simp]: "take 2 (witnessStateLabels a c x2 x3 x4) = baseLabels a c"
  by (simp add: label_defs)

lemma take_witnessConnectionLabels [simp]: "take 2 (witnessConnectionLabels a c x2 x3 x4 x5) = baseLabels a c"
  by (simp add: label_defs)

lemma take_volumeGroupLabels [simp]: "take 2 (volumeGroupLabels a c x2 x3) = baseLabels a c"
  by (simp add: label_defs)

lemma take_replicationSessionLabels [simp]: "take 2 (replicationSessionLabels a c x2 x3 x4 x5 x6 x7 x8 x9) = baseLabels a c"
  by (simp add: label_defs)

lemma take_replicationResourceLabels [simp]: "take 2 (replicationResourceLabels a c x2 x3 x4) = baseLabels a c"
  by (simp add: label_defs)

lemma take_replicationRuleLabels [simp]: "take 2 (replicationRuleLabels a c x2 x3) = baseLabels a c"
  by (simp add: label_defs)

lemma take_baseLabels [simp]: "take 2 (baseLabels a c) = baseLabels a c"
  by (simp add: label_defs)

end
