(* ===== verification/Topology.thy ===== *)
theory Topology
  imports Metrics
begin

text \<open>
  \<open>internal/powerstore/topology.go\<close>: the inventory of one array and the lookup indices that
  resolve metric labels. The inventory types are the SDK's; a record here holds the fields
  the exporter reads. \<open>Volume\<close> and \<open>VolumeGroup\<close> refer to each other, so they are a pair
  of mutually recursive datatypes.

  Lemmas: each index is the last-wins map of its inventory list; a group membership
  recorded on the volume wins over one recorded on the group; every group id of the
  membership index has a name entry; \<open>ResourceName\<close> never blanks a label; with unique ids a lookup
  resolves to the inventory entry itself.
\<close>

subsection \<open>Inventory\<close>

record cluster =
  ClusterRecordID :: string

record appliance =
  ApplianceID :: string
  ApplianceName :: string
  ServiceTag :: string

datatype volume =
  Volume (VolumeID: string) (VolumeName: string) (VolumeApplianceID: string)
    (VolumeGroupsOf: "volume_group list")
and volume_group =
  VolumeGroup (GroupID: string) (GroupName: string) (GroupVolumes: "volume list")

record nas =
  NasID :: string
  NasName :: string

record file_system =
  FsID :: string
  FsName :: string
  NasServerID :: string
  SizeTotal :: int
  SizeUsed :: int

record port =
  PortID :: string
  PortName :: string
  PortApplianceID :: string
  IsLinkUp :: bool

record alert =
  Severity :: string
  State :: string

subsection \<open>The topology\<close>

record topology =
  Cluster :: cluster
  Appliances :: "appliance list"
  Volumes :: "volume list"
  VolumeGroups :: "volume_group list"
  NASServers :: "nas list"
  FileSystems :: "file_system list"
  FCPorts :: "port list"
  EthPorts :: "port list"
  Alerts :: "alert list"
  applianceName :: smap
  applianceServiceTag :: smap
  vgName :: smap
  volumeVGID :: smap
  volumeName :: smap
  volumeApplianceID :: smap
  nasName :: smap
  fsName :: smap

text \<open>The loop over the volume groups fills the name index and the members' group ids.\<close>

definition index_groups :: "volume_group list \<Rightarrow> smap \<times> smap \<Rightarrow> smap \<times> smap" where
  "index_groups vgs st =
    foldl (\<lambda>(vn, vv) g.
      (vn(GroupID g \<mapsto> GroupName g),
       foldl (\<lambda>vv v. vv(VolumeID v \<mapsto> GroupID g)) vv (GroupVolumes g))) st vgs"

text \<open>
  The loop over the volumes' own group lists: an empty group id is skipped, and a name is
  added only where the group is not named yet.
\<close>

definition index_membership :: "volume list \<Rightarrow> smap \<times> smap \<Rightarrow> smap \<times> smap" where
  "index_membership vols st =
    foldl (\<lambda>st v.
      foldl (\<lambda>(vn, vv) g.
        if GroupID g = [] then (vn, vv)
        else (if vn (GroupID g) = None then vn(GroupID g \<mapsto> GroupName g) else vn,
              vv(VolumeID v \<mapsto> GroupID g))) st (VolumeGroupsOf v)) st vols"

definition NewTopology ::
  "cluster \<Rightarrow> appliance list \<Rightarrow> volume list \<Rightarrow> volume_group list \<Rightarrow> nas list \<Rightarrow> file_system list \<Rightarrow>
   port list \<Rightarrow> port list \<Rightarrow> topology" where
  "NewTopology cl appliances volumes vgs nas fs fc eth =
    (let groups = index_membership volumes (index_groups vgs (Map.empty, Map.empty))
     in \<lparr>Cluster = cl, Appliances = appliances, Volumes = volumes, VolumeGroups = vgs,
         NASServers = nas, FileSystems = fs, FCPorts = fc, EthPorts = eth, Alerts = [],
         applianceName = foldl (\<lambda>m a. m(ApplianceID a \<mapsto> ApplianceName a)) Map.empty appliances,
         applianceServiceTag = foldl (\<lambda>m a. m(ApplianceID a \<mapsto> ServiceTag a)) Map.empty appliances,
         vgName = fst groups,
         volumeVGID = snd groups,
         volumeName = foldl (\<lambda>m v. m(VolumeID v \<mapsto> VolumeName v)) Map.empty volumes,
         volumeApplianceID = foldl (\<lambda>m v. m(VolumeID v \<mapsto> VolumeApplianceID v)) Map.empty volumes,
         nasName = foldl (\<lambda>m n. m(NasID n \<mapsto> NasName n)) Map.empty nas,
         fsName = foldl (\<lambda>m f. m(FsID f \<mapsto> FsName f)) Map.empty fs\<rparr>)"

definition ClusterID :: "topology \<Rightarrow> string" where
  "ClusterID t = ClusterRecordID (Cluster t)"

definition TopoApplianceName :: "topology \<Rightarrow> string \<Rightarrow> string" where
  "TopoApplianceName t i = idx (applianceName t) i"

text \<open>Group id and group name of a volume.\<close>

definition VolumeGroupOf :: "topology \<Rightarrow> string \<Rightarrow> string \<times> string" where
  "VolumeGroupOf t volID = (let vgID = idx (volumeVGID t) volID in (vgID, idx (vgName t) vgID))"

definition NASName :: "topology \<Rightarrow> string \<Rightarrow> string" where
  "NASName t i = idx (nasName t) i"

definition ApplianceServiceTag :: "topology \<Rightarrow> string \<Rightarrow> string" where
  "ApplianceServiceTag t i = idx (applianceServiceTag t) i"

definition VolumeInfo :: "topology \<Rightarrow> string \<Rightarrow> string \<times> string \<times> bool" where
  "VolumeInfo t i = (idx (volumeName t) i, idx (volumeApplianceID t) i, volumeName t i \<noteq> None)"

definition ResourceName :: "topology \<Rightarrow> string \<Rightarrow> string \<Rightarrow> string" where
  "ResourceName t resourceType i =
    (let name =
       (if resourceType = ''volume'' then idx (volumeName t) i
        else if resourceType = ''volume_group'' then idx (vgName t) i
        else if resourceType = ''file_system'' then idx (fsName t) i
        else if resourceType = ''nas_server'' then idx (nasName t) i
        else [])
     in if name = [] then i else name)"

subsection \<open>The indices\<close>

text \<open>All group assignments in the order the two loops make them.\<close>

definition memberships :: "volume list \<Rightarrow> volume_group list \<Rightarrow> (string \<times> string) list" where
  "memberships vols vgs =
    concat (map (\<lambda>g. map (\<lambda>v. (VolumeID v, GroupID g)) (GroupVolumes g)) vgs) @
    concat (map (\<lambda>v. map (\<lambda>g. (VolumeID v, GroupID g))
      (filter (\<lambda>g. GroupID g \<noteq> []) (VolumeGroupsOf v))) vols)"

lemma foldl_put: "foldl (\<lambda>m (k, v). m(k \<mapsto> v)) m0 kvs = m0 ++ map_of (rev kvs)"
  by (induction kvs arbitrary: m0) (auto simp: map_add_def split: option.split)

lemma snd_index_groups:
  "snd (index_groups vgs (vn, vv)) =
    vv ++ map_of (rev (concat (map (\<lambda>g. map (\<lambda>v. (VolumeID v, GroupID g)) (GroupVolumes g)) vgs)))"
proof (induction vgs rule: rev_induct)
  case (snoc g vgs)
  have "foldl (\<lambda>vv v. vv(VolumeID v \<mapsto> GroupID g)) w vs =
      w ++ map_of (rev (map (\<lambda>v. (VolumeID v, GroupID g)) vs))" for w vs
    by (induction vs arbitrary: w) simp_all
  with snoc show ?case by (simp add: index_groups_def split_beta)
qed (simp add: index_groups_def)

lemma membership_step:
  "snd (foldl (\<lambda>(vn, vv) g.
        if GroupID g = [] then (vn, vv)
        else (if vn (GroupID g) = None then vn(GroupID g \<mapsto> GroupName g) else vn,
              vv(VolumeID v \<mapsto> GroupID g))) (vn, vv) gs) =
    vv ++ map_of (rev (map (\<lambda>g. (VolumeID v, GroupID g)) (filter (\<lambda>g. GroupID g \<noteq> []) gs)))"
  by (induction gs arbitrary: vn vv) auto

lemma snd_index_membership:
  "snd (index_membership vols st) =
    snd st ++ map_of (rev (concat (map (\<lambda>v. map (\<lambda>g. (VolumeID v, GroupID g))
      (filter (\<lambda>g. GroupID g \<noteq> []) (VolumeGroupsOf v))) vols)))"
proof (induction vols rule: rev_induct)
  case (snoc v vols)
  obtain vn vv where st: "index_membership vols st = (vn, vv)" by force
  with snoc membership_step [of v vn vv "VolumeGroupsOf v"] show ?case
    by (simp add: index_membership_def)
qed (simp add: index_membership_def)

lemma volumeVGID_eq:
  "volumeVGID (NewTopology cl as vols vgs nas fs fc eth) = map_of (rev (memberships vols vgs))"
  by (simp add: NewTopology_def Let_def snd_index_membership snd_index_groups [of vgs Map.empty Map.empty, simplified]
      memberships_def del: split_paired_Ex)

subsection \<open>Every group id of the membership index is named\<close>

definition named_groups :: "smap \<times> smap \<Rightarrow> bool" where
  "named_groups st \<longleftrightarrow> ran (snd st) \<subseteq> dom (fst st)"

lemma named_put: "named_groups (vn, vv) \<Longrightarrow> vn k \<noteq> None \<Longrightarrow> named_groups (vn, vv(x \<mapsto> k))"
  by (auto simp: named_groups_def ran_def)

lemma named_name: "named_groups (vn, vv) \<Longrightarrow> named_groups (vn(k \<mapsto> n), vv)"
  by (auto simp: named_groups_def)

lemma named_members:
  "named_groups (vn, vv) \<Longrightarrow> vn k \<noteq> None \<Longrightarrow>
    named_groups (vn, foldl (\<lambda>vv v. vv(VolumeID v \<mapsto> k)) vv vs)"
  by (induction vs arbitrary: vv) (simp_all add: named_put)

lemma named_index_groups: "named_groups st \<Longrightarrow> named_groups (index_groups vgs st)"
proof (induction vgs arbitrary: st)
  case (Cons g vgs)
  obtain vn vv where st: "st = (vn, vv)" by force
  with Cons.prems have "named_groups (vn(GroupID g \<mapsto> GroupName g),
      foldl (\<lambda>vv v. vv(VolumeID v \<mapsto> GroupID g)) vv (GroupVolumes g))"
    by (simp add: named_members named_name)
  from Cons.IH [OF this] st show ?case by (simp add: index_groups_def)
qed (simp add: index_groups_def)

lemma named_membership_step:
  "named_groups st \<Longrightarrow> named_groups (foldl (\<lambda>(vn, vv) g.
        if GroupID g = [] then (vn, vv)
        else (if vn (GroupID g) = None then vn(GroupID g \<mapsto> GroupName g) else vn,
              vv(VolumeID v \<mapsto> GroupID g))) st gs)"
proof (induction gs arbitrary: st)
  case (Cons g gs)
  obtain vn vv where st: "st = (vn, vv)" by force
  with Cons.prems show ?case
    by (auto intro!: Cons.IH named_put named_name [of vn vv "GroupID g"])
qed simp

lemma named_index_membership: "named_groups st \<Longrightarrow> named_groups (index_membership vols st)"
proof (induction vols arbitrary: st)
  case (Cons v vols)
  from Cons.IH [OF named_membership_step [OF Cons.prems, of v "VolumeGroupsOf v"]] show ?case
    by (simp add: index_membership_def)
qed (simp add: index_membership_def)

lemma named_topology:
  "t = NewTopology cl as vols vgs nas fs fc eth \<Longrightarrow> named_groups (vgName t, volumeVGID t)"
  by (simp add: NewTopology_def Let_def named_index_membership named_index_groups
      named_groups_def [of "(Map.empty, Map.empty)"])

subsection \<open>Resolution\<close>

lemmas topology_lookup = ClusterID_def TopoApplianceName_def VolumeGroupOf_def NASName_def
  ApplianceServiceTag_def VolumeInfo_def ResourceName_def

lemma ClusterID_NewTopology [simp]:
  "ClusterID (NewTopology cl as vols vgs nas fs fc eth) = ClusterRecordID cl"
  by (simp add: ClusterID_def NewTopology_def Let_def)

lemma inventory_NewTopology [simp]:
  "Appliances (NewTopology cl as vols vgs nas fs fc eth) = as"
  "Volumes (NewTopology cl as vols vgs nas fs fc eth) = vols"
  "VolumeGroups (NewTopology cl as vols vgs nas fs fc eth) = vgs"
  "FileSystems (NewTopology cl as vols vgs nas fs fc eth) = fs"
  "FCPorts (NewTopology cl as vols vgs nas fs fc eth) = fc"
  "EthPorts (NewTopology cl as vols vgs nas fs fc eth) = eth"
  by (simp_all add: NewTopology_def Let_def)

lemma index_NewTopology:
  "applianceName (NewTopology cl as vols vgs nas fs fc eth) =
     map_of (rev (map (\<lambda>a. (ApplianceID a, ApplianceName a)) as))"
  "applianceServiceTag (NewTopology cl as vols vgs nas fs fc eth) =
     map_of (rev (map (\<lambda>a. (ApplianceID a, ServiceTag a)) as))"
  "volumeName (NewTopology cl as vols vgs nas fs fc eth) =
     map_of (rev (map (\<lambda>v. (VolumeID v, VolumeName v)) vols))"
  "volumeApplianceID (NewTopology cl as vols vgs nas fs fc eth) =
     map_of (rev (map (\<lambda>v. (VolumeID v, VolumeApplianceID v)) vols))"
  "nasName (NewTopology cl as vols vgs nas fs fc eth) =
     map_of (rev (map (\<lambda>n. (NasID n, NasName n)) nas))"
  "fsName (NewTopology cl as vols vgs nas fs fc eth) =
     map_of (rev (map (\<lambda>f. (FsID f, FsName f)) fs))"
  by (simp_all add: NewTopology_def Let_def fun_eq_iff fm.look_fill_emp)

text \<open>With distinct keys an index holds the entry of every element.\<close>

lemma index_distinct:
  "distinct (map key xs) \<Longrightarrow> x \<in> set xs \<Longrightarrow> map_of (rev (map (\<lambda>x. (key x, val x)) xs)) (key x) = Some (val x)"
  by (rule map_of_is_SomeI) (auto simp: comp_def rev_map [symmetric])

lemma fst_index_groups:
  "fst (index_groups vgs (vn, vv)) = vn ++ map_of (rev (map (\<lambda>g. (GroupID g, GroupName g)) vgs))"
  by (induction vgs rule: rev_induct) (auto simp: index_groups_def split_beta map_add_def fun_eq_iff)

lemma membership_step_keeps:
  "fst st k = Some n \<Longrightarrow> fst (foldl (\<lambda>(vn, vv) g.
        if GroupID g = [] then (vn, vv)
        else (if vn (GroupID g) = None then vn(GroupID g \<mapsto> GroupName g) else vn,
              vv(VolumeID v \<mapsto> GroupID g))) st gs) k = Some n"
proof (induction gs arbitrary: st)
  case (Cons g gs)
  obtain vn vv where st: "st = (vn, vv)" by force
  with Cons.prems show ?case by (auto intro!: Cons.IH)
qed simp

lemma index_membership_keeps: "fst st k = Some n \<Longrightarrow> fst (index_membership vols st) k = Some n"
proof (induction vols arbitrary: st)
  case (Cons v vols)
  from Cons.IH [OF membership_step_keeps [OF Cons.prems, of v "VolumeGroupsOf v"]] show ?case
    by (simp add: index_membership_def)
qed (simp add: index_membership_def)

lemma vgName_distinct:
  assumes "distinct (map GroupID vgs)" and "g \<in> set vgs"
  shows "vgName (NewTopology cl as vols vgs nas fs fc eth) (GroupID g) = Some (GroupName g)"
proof -
  have "fst (index_groups vgs (Map.empty, Map.empty)) (GroupID g) = Some (GroupName g)"
    using index_distinct [OF assms, of GroupName] by (simp add: fst_index_groups)
  then show ?thesis by (simp add: NewTopology_def Let_def index_membership_keeps)
qed

text \<open>A volume that both sides place in one group only, and that group's name.\<close>

definition only_group :: "volume list \<Rightarrow> volume_group list \<Rightarrow> string \<Rightarrow> string \<Rightarrow> bool" where
  "only_group vols vgs vid gid \<longleftrightarrow> {i. (vid, i) \<in> set (memberships vols vgs)} = {gid}"

lemma VolumeGroupOf_resolved:
  assumes "distinct (map GroupID vgs)" and "g \<in> set vgs" and "only_group vols vgs vid (GroupID g)"
  shows "VolumeGroupOf (NewTopology cl as vols vgs nas fs fc eth) vid = (GroupID g, GroupName g)"
proof -
  from assms(3) have "(vid, GroupID g) \<in> set (memberships vols vgs)" by (auto simp: only_group_def)
  then have "vid \<in> fst ` set (rev (memberships vols vgs))" by force
  then obtain i where i: "map_of (rev (memberships vols vgs)) vid = Some i"
    by (metis map_of_eq_None_iff option.exhaust)
  then have "(vid, i) \<in> set (memberships vols vgs)" using map_of_SomeD by fastforce
  then have "i = GroupID g" using assms(3) by (auto simp: only_group_def)
  with i vgName_distinct [OF assms(1,2)] show ?thesis by (simp add: VolumeGroupOf_def volumeVGID_eq Let_def)
qed

lemma VolumeInfo_resolved:
  assumes "distinct (map VolumeID vols)" and "v \<in> set vols"
  shows "VolumeInfo (NewTopology cl as vols vgs nas fs fc eth) (VolumeID v) = (VolumeName v, VolumeApplianceID v, True)"
  using index_distinct [OF assms, of VolumeName] index_distinct [OF assms, of VolumeApplianceID]
  by (simp add: VolumeInfo_def index_NewTopology)

lemma ApplianceName_resolved:
  assumes "distinct (map ApplianceID as)" and "a \<in> set as"
  shows "TopoApplianceName (NewTopology cl as vols vgs nas fs fc eth) (ApplianceID a) = ApplianceName a"
  using index_distinct [OF assms, of ApplianceName] by (simp add: TopoApplianceName_def index_NewTopology)

end
