(* ===== verification/Schema.thy ===== *)
theory Schema
  imports Metrics
begin

text \<open>
  The metric reference (\<open>docs/metrics.md\<close>) as an abstract specification: for every metric
  name, the label keys its series carry, in order. A sample conforms when its name is in
  the reference and its label keys are the ones listed. Prometheus needs the keys of one
  metric name to agree, and the dashboards need the bulk and the per-entity path to agree;
  both follow from conformance.
\<close>

named_theorems schema_simps \<open>entries of the metric reference\<close>

definition volume_metrics :: "string list" where
  "volume_metrics =
    [''powerstore_volume_read_iops'',
     ''powerstore_volume_write_iops'',
     ''powerstore_volume_total_iops'',
     ''powerstore_volume_read_bandwidth_bytes_per_second'',
     ''powerstore_volume_write_bandwidth_bytes_per_second'',
     ''powerstore_volume_read_latency_microseconds'',
     ''powerstore_volume_write_latency_microseconds'',
     ''powerstore_volume_avg_io_size_bytes'']"

definition appliance_metrics :: "string list" where
  "appliance_metrics =
    [''powerstore_appliance_read_iops'',
     ''powerstore_appliance_write_iops'',
     ''powerstore_appliance_total_iops'',
     ''powerstore_appliance_read_bandwidth_bytes_per_second'',
     ''powerstore_appliance_write_bandwidth_bytes_per_second'',
     ''powerstore_appliance_read_latency_microseconds'',
     ''powerstore_appliance_write_latency_microseconds'',
     ''powerstore_appliance_io_workload_cpu_utilization'',
     ''powerstore_appliance_physical_total_bytes'',
     ''powerstore_appliance_physical_used_bytes'',
     ''powerstore_appliance_logical_provisioned_bytes'',
     ''powerstore_appliance_logical_used_bytes'',
     ''powerstore_appliance_data_reduction_ratio'',
     ''powerstore_appliance_efficiency_ratio'',
     ''powerstore_appliance_snapshot_savings_ratio'',
     ''powerstore_appliance_thin_savings_ratio'']"

definition cluster_metrics :: "string list" where
  "cluster_metrics =
    [''powerstore_cluster_physical_total_bytes'',
     ''powerstore_cluster_physical_used_bytes'',
     ''powerstore_cluster_logical_provisioned_bytes'',
     ''powerstore_cluster_logical_used_bytes'',
     ''powerstore_cluster_data_reduction_ratio'',
     ''powerstore_cluster_efficiency_ratio'']"

definition volume_group_metrics :: "string list" where
  "volume_group_metrics =
    [''powerstore_volume_group_read_iops'',
     ''powerstore_volume_group_write_iops'',
     ''powerstore_volume_group_total_iops'',
     ''powerstore_volume_group_read_bandwidth_bytes_per_second'',
     ''powerstore_volume_group_write_bandwidth_bytes_per_second'',
     ''powerstore_volume_group_read_latency_microseconds'',
     ''powerstore_volume_group_write_latency_microseconds'',
     ''powerstore_volume_group_avg_io_size_bytes'']"

definition file_system_metrics :: "string list" where
  "file_system_metrics =
    [''powerstore_file_system_size_total_bytes'',
     ''powerstore_file_system_size_used_bytes'',
     ''powerstore_file_system_read_iops'',
     ''powerstore_file_system_write_iops'',
     ''powerstore_file_system_total_iops'',
     ''powerstore_file_system_read_bandwidth_bytes_per_second'',
     ''powerstore_file_system_write_bandwidth_bytes_per_second'',
     ''powerstore_file_system_read_latency_microseconds'',
     ''powerstore_file_system_write_latency_microseconds'',
     ''powerstore_file_system_avg_io_size_bytes'']"

definition port_metrics :: "string list" where
  "port_metrics =
    [''powerstore_port_link_up'']"

definition drive_state_metrics :: "string list" where
  "drive_state_metrics =
    [''powerstore_drive_state'']"

definition drive_wear_metrics :: "string list" where
  "drive_wear_metrics =
    [''powerstore_drive_wear_level_ratio'']"

definition alert_metrics :: "string list" where
  "alert_metrics =
    [''powerstore_alert_active'']"

definition replication_session_metrics :: "string list" where
  "replication_session_metrics =
    [''powerstore_replication_session_state'']"

definition replication_rule_metrics :: "string list" where
  "replication_rule_metrics =
    [''powerstore_replication_rpo_seconds'']"

definition replication_resource_metrics :: "string list" where
  "replication_resource_metrics =
    [''powerstore_replication_transfer_rate_bytes_per_second'',
     ''powerstore_replication_data_remaining_bytes'']"

definition witness_metrics :: "string list" where
  "witness_metrics =
    [''powerstore_metro_witness_state'']"

definition witness_connection_metrics :: "string list" where
  "witness_connection_metrics =
    [''powerstore_metro_witness_connection_state'']"

definition metric_reference :: "(string list \<times> string list) list" where
  "metric_reference =
    [(volume_metrics, volume_keys),
     (appliance_metrics, appliance_keys),
     (cluster_metrics, base_keys),
     (volume_group_metrics, volumeGroup_keys),
     (file_system_metrics, fileSystem_keys),
     (port_metrics, port_keys),
     (drive_state_metrics, driveState_keys),
     (drive_wear_metrics, drive_keys),
     (alert_metrics, alert_keys),
     (replication_session_metrics, replicationSession_keys),
     (replication_rule_metrics, replicationRule_keys),
     (replication_resource_metrics, replicationResource_keys),
     (witness_metrics, witnessState_keys),
     (witness_connection_metrics, witnessConnection_keys)]"

definition metric_schema :: "string \<Rightarrow> string list option" where
  "metric_schema = map_of (concat (map (\<lambda>(names, keys). map (\<lambda>n. (n, keys)) names) metric_reference))"

definition conforms :: "sample \<Rightarrow> bool" where
  "conforms s \<longleftrightarrow> metric_schema (Name s) = Some (label_keys (Labels s))"

text \<open>The names are distinct; comparing fingerprints is cheaper than comparing strings.\<close>

definition fingerprint :: "string \<Rightarrow> int" where
  "fingerprint s = foldl (\<lambda>a c. (3 * a + of_char c) mod 65536) 0 s"

lemma reference_fingerprints: "distinct (map fingerprint (concat (map fst metric_reference)))"
  by code_simp

lemma map_of_families:
  "distinct (concat (map fst ref)) \<Longrightarrow> (ns, k) \<in> set ref \<Longrightarrow> n \<in> set ns \<Longrightarrow>
    map_of (concat (map (\<lambda>(ns, k). map (\<lambda>n. (n, k)) ns) ref)) n = Some k"
proof (induction ref)
  case (Cons r ref)
  obtain ns' k' where r: "r = (ns', k')" by force
  have d: "map_of (map (\<lambda>n. (n, k')) ns') n = (if n \<in> set ns' then Some k' else None)"
    by (induction ns') auto
  from Cons show ?case by (force simp: r d map_add_def split: option.split)
qed simp

lemma schema_entry: "(ns, k) \<in> set metric_reference \<Longrightarrow> n \<in> set ns \<Longrightarrow> metric_schema n = Some k"
  unfolding metric_schema_def
  by (rule map_of_families [OF conjunct1 [OF distinct_map [THEN iffD1, OF reference_fingerprints]]])

lemma ref_volume: "(volume_metrics, volume_keys) \<in> set metric_reference"
  by (simp add: metric_reference_def)

lemma schema_volume [schema_simps]:
  "metric_schema ''powerstore_volume_read_iops'' = Some volume_keys"
  "metric_schema ''powerstore_volume_write_iops'' = Some volume_keys"
  "metric_schema ''powerstore_volume_total_iops'' = Some volume_keys"
  "metric_schema ''powerstore_volume_read_bandwidth_bytes_per_second'' = Some volume_keys"
  "metric_schema ''powerstore_volume_write_bandwidth_bytes_per_second'' = Some volume_keys"
  "metric_schema ''powerstore_volume_read_latency_microseconds'' = Some volume_keys"
  "metric_schema ''powerstore_volume_write_latency_microseconds'' = Some volume_keys"
  "metric_schema ''powerstore_volume_avg_io_size_bytes'' = Some volume_keys"
  by (simp_all add: schema_entry [OF ref_volume] volume_metrics_def)

lemma ref_appliance: "(appliance_metrics, appliance_keys) \<in> set metric_reference"
  by (simp add: metric_reference_def)

lemma schema_appliance [schema_simps]:
  "metric_schema ''powerstore_appliance_read_iops'' = Some appliance_keys"
  "metric_schema ''powerstore_appliance_write_iops'' = Some appliance_keys"
  "metric_schema ''powerstore_appliance_total_iops'' = Some appliance_keys"
  "metric_schema ''powerstore_appliance_read_bandwidth_bytes_per_second'' = Some appliance_keys"
  "metric_schema ''powerstore_appliance_write_bandwidth_bytes_per_second'' = Some appliance_keys"
  "metric_schema ''powerstore_appliance_read_latency_microseconds'' = Some appliance_keys"
  "metric_schema ''powerstore_appliance_write_latency_microseconds'' = Some appliance_keys"
  "metric_schema ''powerstore_appliance_io_workload_cpu_utilization'' = Some appliance_keys"
  "metric_schema ''powerstore_appliance_physical_total_bytes'' = Some appliance_keys"
  "metric_schema ''powerstore_appliance_physical_used_bytes'' = Some appliance_keys"
  "metric_schema ''powerstore_appliance_logical_provisioned_bytes'' = Some appliance_keys"
  "metric_schema ''powerstore_appliance_logical_used_bytes'' = Some appliance_keys"
  "metric_schema ''powerstore_appliance_data_reduction_ratio'' = Some appliance_keys"
  "metric_schema ''powerstore_appliance_efficiency_ratio'' = Some appliance_keys"
  "metric_schema ''powerstore_appliance_snapshot_savings_ratio'' = Some appliance_keys"
  "metric_schema ''powerstore_appliance_thin_savings_ratio'' = Some appliance_keys"
  by (simp_all add: schema_entry [OF ref_appliance] appliance_metrics_def)

lemma ref_cluster: "(cluster_metrics, base_keys) \<in> set metric_reference"
  by (simp add: metric_reference_def)

lemma schema_cluster [schema_simps]:
  "metric_schema ''powerstore_cluster_physical_total_bytes'' = Some base_keys"
  "metric_schema ''powerstore_cluster_physical_used_bytes'' = Some base_keys"
  "metric_schema ''powerstore_cluster_logical_provisioned_bytes'' = Some base_keys"
  "metric_schema ''powerstore_cluster_logical_used_bytes'' = Some base_keys"
  "metric_schema ''powerstore_cluster_data_reduction_ratio'' = Some base_keys"
  "metric_schema ''powerstore_cluster_efficiency_ratio'' = Some base_keys"
  by (simp_all add: schema_entry [OF ref_cluster] cluster_metrics_def)

lemma ref_volume_group: "(volume_group_metrics, volumeGroup_keys) \<in> set metric_reference"
  by (simp add: metric_reference_def)

lemma schema_volume_group [schema_simps]:
  "metric_schema ''powerstore_volume_group_read_iops'' = Some volumeGroup_keys"
  "metric_schema ''powerstore_volume_group_write_iops'' = Some volumeGroup_keys"
  "metric_schema ''powerstore_volume_group_total_iops'' = Some volumeGroup_keys"
  "metric_schema ''powerstore_volume_group_read_bandwidth_bytes_per_second'' = Some volumeGroup_keys"
  "metric_schema ''powerstore_volume_group_write_bandwidth_bytes_per_second'' = Some volumeGroup_keys"
  "metric_schema ''powerstore_volume_group_read_latency_microseconds'' = Some volumeGroup_keys"
  "metric_schema ''powerstore_volume_group_write_latency_microseconds'' = Some volumeGroup_keys"
  "metric_schema ''powerstore_volume_group_avg_io_size_bytes'' = Some volumeGroup_keys"
  by (simp_all add: schema_entry [OF ref_volume_group] volume_group_metrics_def)

lemma ref_file_system: "(file_system_metrics, fileSystem_keys) \<in> set metric_reference"
  by (simp add: metric_reference_def)

lemma schema_file_system [schema_simps]:
  "metric_schema ''powerstore_file_system_size_total_bytes'' = Some fileSystem_keys"
  "metric_schema ''powerstore_file_system_size_used_bytes'' = Some fileSystem_keys"
  "metric_schema ''powerstore_file_system_read_iops'' = Some fileSystem_keys"
  "metric_schema ''powerstore_file_system_write_iops'' = Some fileSystem_keys"
  "metric_schema ''powerstore_file_system_total_iops'' = Some fileSystem_keys"
  "metric_schema ''powerstore_file_system_read_bandwidth_bytes_per_second'' = Some fileSystem_keys"
  "metric_schema ''powerstore_file_system_write_bandwidth_bytes_per_second'' = Some fileSystem_keys"
  "metric_schema ''powerstore_file_system_read_latency_microseconds'' = Some fileSystem_keys"
  "metric_schema ''powerstore_file_system_write_latency_microseconds'' = Some fileSystem_keys"
  "metric_schema ''powerstore_file_system_avg_io_size_bytes'' = Some fileSystem_keys"
  by (simp_all add: schema_entry [OF ref_file_system] file_system_metrics_def)

lemma ref_port: "(port_metrics, port_keys) \<in> set metric_reference"
  by (simp add: metric_reference_def)

lemma schema_port [schema_simps]:
  "metric_schema ''powerstore_port_link_up'' = Some port_keys"
  by (simp_all add: schema_entry [OF ref_port] port_metrics_def)

lemma ref_drive_state: "(drive_state_metrics, driveState_keys) \<in> set metric_reference"
  by (simp add: metric_reference_def)

lemma schema_drive_state [schema_simps]:
  "metric_schema ''powerstore_drive_state'' = Some driveState_keys"
  by (simp_all add: schema_entry [OF ref_drive_state] drive_state_metrics_def)

lemma ref_drive_wear: "(drive_wear_metrics, drive_keys) \<in> set metric_reference"
  by (simp add: metric_reference_def)

lemma schema_drive_wear [schema_simps]:
  "metric_schema ''powerstore_drive_wear_level_ratio'' = Some drive_keys"
  by (simp_all add: schema_entry [OF ref_drive_wear] drive_wear_metrics_def)

lemma ref_alert: "(alert_metrics, alert_keys) \<in> set metric_reference"
  by (simp add: metric_reference_def)

lemma schema_alert [schema_simps]:
  "metric_schema ''powerstore_alert_active'' = Some alert_keys"
  by (simp_all add: schema_entry [OF ref_alert] alert_metrics_def)

lemma ref_replication_session: "(replication_session_metrics, replicationSession_keys) \<in> set metric_reference"
  by (simp add: metric_reference_def)

lemma schema_replication_session [schema_simps]:
  "metric_schema ''powerstore_replication_session_state'' = Some replicationSession_keys"
  by (simp_all add: schema_entry [OF ref_replication_session] replication_session_metrics_def)

lemma ref_replication_rule: "(replication_rule_metrics, replicationRule_keys) \<in> set metric_reference"
  by (simp add: metric_reference_def)

lemma schema_replication_rule [schema_simps]:
  "metric_schema ''powerstore_replication_rpo_seconds'' = Some replicationRule_keys"
  by (simp_all add: schema_entry [OF ref_replication_rule] replication_rule_metrics_def)

lemma ref_replication_resource: "(replication_resource_metrics, replicationResource_keys) \<in> set metric_reference"
  by (simp add: metric_reference_def)

lemma schema_replication_resource [schema_simps]:
  "metric_schema ''powerstore_replication_transfer_rate_bytes_per_second'' = Some replicationResource_keys"
  "metric_schema ''powerstore_replication_data_remaining_bytes'' = Some replicationResource_keys"
  by (simp_all add: schema_entry [OF ref_replication_resource] replication_resource_metrics_def)

lemma ref_witness: "(witness_metrics, witnessState_keys) \<in> set metric_reference"
  by (simp add: metric_reference_def)

lemma schema_witness [schema_simps]:
  "metric_schema ''powerstore_metro_witness_state'' = Some witnessState_keys"
  by (simp_all add: schema_entry [OF ref_witness] witness_metrics_def)

lemma ref_witness_connection: "(witness_connection_metrics, witnessConnection_keys) \<in> set metric_reference"
  by (simp add: metric_reference_def)

lemma schema_witness_connection [schema_simps]:
  "metric_schema ''powerstore_metro_witness_connection_state'' = Some witnessConnection_keys"
  by (simp_all add: schema_entry [OF ref_witness_connection] witness_connection_metrics_def)

text \<open>Two samples of the reference with one name have the same label keys.\<close>

lemma conforms_keys: "conforms s \<Longrightarrow> conforms t \<Longrightarrow> Name s = Name t \<Longrightarrow> label_keys (Labels s) = label_keys (Labels t)"
  by (simp add: conforms_def)

end
