(* ===== verification/Derive.thy ===== *)
theory Derive
  imports GoText Topology Schema
begin

text \<open>
  The functions \<open>internal/powerstore/derive_*.go\<close> of the per-entity and the common metrics: each
  turns one kind of API response, or a part of the inventory, into samples. The response
  types are the SDK's (the numeric fields with their own type, \<open>num\<close>); \<open>driveInfo\<close>
  and \<open>witnessInfo\<close> are the repository's. \<open>deriveVolumePerf\<close>, \<open>deriveAppliancePerf\<close>,
  \<open>deriveApplianceSpace\<close> and \<open>deriveAlerts\<close> range over a Go map, so they take the order
  \<open>\<rho>\<close> of that loop.

  Lemmas, per function: every sample carries the array and cluster labels
  (\<open>labelled\<close>) and conforms to the metric reference (\<open>conforms\<close>); what the function
  selects (newest sample, known severities, first-seen ids).
\<close>

subsection \<open>API responses\<close>

record io_metrics =
  ReadIops :: num
  WriteIops :: num
  TotalIops :: num
  ReadBandwidth :: num
  WriteBandwidth :: num
  AvgReadLatency :: num
  AvgWriteLatency :: num
  AvgIoSize :: num

record volume_perf = io_metrics +
  PerfVolumeID :: string

record appliance_perf = io_metrics +
  PerfApplianceID :: string
  IoWorkloadCPUUtilization :: num

record space_metrics =
  PhysicalTotal :: "int option"
  PhysicalUsed :: "int option"
  LogicalProvisioned :: "int option"
  LogicalUsed :: "int option"
  DataReduction :: num
  EfficiencyRatio :: num

record appliance_space = space_metrics +
  SpaceApplianceID :: string
  SnapshotSavings :: num
  ThinSavings :: num

record fs_perf =
  FsReadIops :: float32
  FsAvgReadIops :: float32
  FsWriteIops :: float32
  FsAvgWriteIops :: float32
  FsTotalIops :: float32
  FsAvgTotalIops :: float32
  FsReadBandwidth :: float32
  FsAvgReadBandwidth :: float32
  FsWriteBandwidth :: float32
  FsAvgWriteBandwidth :: float32
  FsAvgReadLatency :: num
  FsAvgWriteLatency :: num
  FsAvgSize :: num

datatype rpo = RpoZero | RpoFiveMinutes | RpoFifteenMinutes | RpoThirtyMinutes | RpoOneHour
  | RpoSixHours | RpoTwelveHours | RpoOneDay | RpoOther string

record replication_rule =
  RuleID :: string
  RuleRemoteSystemID :: string
  Rpo :: rpo

record replication_session =
  SessionID :: string
  SessionState :: string
  Role :: string
  SessionType :: string
  SessionResourceType :: string
  LocalResourceID :: string
  RemoteSystemID :: string

record transfer_rate =
  MirrorBandwidth :: num
  DataRemaining :: num

record witnessConnection =
  ConnState :: string
  ConnApplianceID :: string
  ConnNodeID :: string

record witnessInfo =
  WitnessID :: string
  WitnessName :: string
  WitnessState :: string
  Connections :: "witnessConnection list"

record driveExtraDetails =
  DriveWearLevel :: "float64 option"

record driveInfo =
  DriveID :: string
  DriveName :: string
  DriveApplianceID :: string
  LifeCycleState :: string
  ExtraDetails :: driveExtraDetails

subsection \<open>Helpers\<close>

definition deref :: "int option \<Rightarrow> float64" where
  "deref p = (case p of None \<Rightarrow> zero64 | Some n \<Rightarrow> of_int64 n)"

definition preferNonZero :: "float32 \<Rightarrow> float32 \<Rightarrow> float64" where
  "preferNonZero primary fallback =
    (if nonzero primary then of_float32 primary else of_float32 fallback)"

definition latestByID :: "'v list \<Rightarrow> ('v \<Rightarrow> string) \<Rightarrow> (string, 'v) amap" where
  "latestByID items key = foldl (\<lambda>m it. amap_put (key it) it m) [] items"

subsection \<open>derive\_perentity.go\<close>

definition deriveVolumePerf ::
  "(string list \<Rightarrow> string list) \<Rightarrow> string \<Rightarrow> topology \<Rightarrow> volume_perf list \<Rightarrow> sample list" where
  "deriveVolumePerf \<rho> array topo resp =
    concat (map (\<lambda>(volID, r).
      let (name, applID, known) = VolumeInfo topo volID;
          volName = (if name = [] then volID else name);
          (vgID, vgName) = VolumeGroupOf topo volID;
          labels = volumeLabels array (ClusterID topo) volName volID applID
            (TopoApplianceName topo applID) vgName vgID
      in [Sample ''powerstore_volume_read_iops'' labels (to_float64 (ReadIops r)),
          Sample ''powerstore_volume_write_iops'' labels (to_float64 (WriteIops r)),
          Sample ''powerstore_volume_total_iops'' labels (to_float64 (TotalIops r)),
          Sample ''powerstore_volume_read_bandwidth_bytes_per_second'' labels (to_float64 (ReadBandwidth r)),
          Sample ''powerstore_volume_write_bandwidth_bytes_per_second'' labels (to_float64 (WriteBandwidth r)),
          Sample ''powerstore_volume_read_latency_microseconds'' labels (to_float64 (AvgReadLatency r)),
          Sample ''powerstore_volume_write_latency_microseconds'' labels (to_float64 (AvgWriteLatency r)),
          Sample ''powerstore_volume_avg_io_size_bytes'' labels (to_float64 (AvgIoSize r))])
      (amap_range \<rho> (latestByID resp PerfVolumeID)))"

definition deriveAppliancePerf ::
  "(string list \<Rightarrow> string list) \<Rightarrow> string \<Rightarrow> topology \<Rightarrow> appliance_perf list \<Rightarrow> sample list" where
  "deriveAppliancePerf \<rho> array topo resp =
    concat (map (\<lambda>(applID, r).
      let labels = applianceLabels array (ClusterID topo) (TopoApplianceName topo applID) applID
            (ApplianceServiceTag topo applID)
      in [Sample ''powerstore_appliance_read_iops'' labels (to_float64 (ReadIops r)),
          Sample ''powerstore_appliance_write_iops'' labels (to_float64 (WriteIops r)),
          Sample ''powerstore_appliance_total_iops'' labels (to_float64 (TotalIops r)),
          Sample ''powerstore_appliance_read_bandwidth_bytes_per_second'' labels (to_float64 (ReadBandwidth r)),
          Sample ''powerstore_appliance_write_bandwidth_bytes_per_second'' labels (to_float64 (WriteBandwidth r)),
          Sample ''powerstore_appliance_read_latency_microseconds'' labels (to_float64 (AvgReadLatency r)),
          Sample ''powerstore_appliance_write_latency_microseconds'' labels (to_float64 (AvgWriteLatency r)),
          Sample ''powerstore_appliance_io_workload_cpu_utilization'' labels
            (to_float64 (IoWorkloadCPUUtilization r))])
      (amap_range \<rho> (latestByID resp PerfApplianceID)))"

definition deriveApplianceSpace ::
  "(string list \<Rightarrow> string list) \<Rightarrow> string \<Rightarrow> topology \<Rightarrow> appliance_space list \<Rightarrow> sample list" where
  "deriveApplianceSpace \<rho> array topo resp =
    concat (map (\<lambda>(applID, r).
      let labels = applianceLabels array (ClusterID topo) (TopoApplianceName topo applID) applID
            (ApplianceServiceTag topo applID)
      in [Sample ''powerstore_appliance_physical_total_bytes'' labels (deref (PhysicalTotal r)),
          Sample ''powerstore_appliance_physical_used_bytes'' labels (deref (PhysicalUsed r)),
          Sample ''powerstore_appliance_logical_provisioned_bytes'' labels (deref (LogicalProvisioned r)),
          Sample ''powerstore_appliance_logical_used_bytes'' labels (deref (LogicalUsed r)),
          Sample ''powerstore_appliance_data_reduction_ratio'' labels (to_float64 (DataReduction r)),
          Sample ''powerstore_appliance_efficiency_ratio'' labels (to_float64 (EfficiencyRatio r)),
          Sample ''powerstore_appliance_snapshot_savings_ratio'' labels (to_float64 (SnapshotSavings r)),
          Sample ''powerstore_appliance_thin_savings_ratio'' labels (to_float64 (ThinSavings r))])
      (amap_range \<rho> (latestByID resp SpaceApplianceID)))"

definition chartableFileSystem :: "file_system \<Rightarrow> bool" where
  "chartableFileSystem fs \<longleftrightarrow> SizeTotal fs > 0"

definition deriveFileSystemCapacity :: "string \<Rightarrow> topology \<Rightarrow> sample list" where
  "deriveFileSystemCapacity array topo =
    concat (map (\<lambda>fs.
      if \<not> chartableFileSystem fs then []
      else let labels = fileSystemLabels array (ClusterID topo) (FsName fs) (FsID fs)
             (NASName topo (NasServerID fs)) (NasServerID fs)
        in [Sample ''powerstore_file_system_size_total_bytes'' labels (of_int64 (SizeTotal fs)),
            Sample ''powerstore_file_system_size_used_bytes'' labels (of_int64 (SizeUsed fs))])
      (FileSystems topo))"

definition derivePortLinkStatus :: "string \<Rightarrow> topology \<Rightarrow> sample list" where
  "derivePortLinkStatus array topo =
    map (\<lambda>p. Sample ''powerstore_port_link_up''
      (portLabels array (ClusterID topo) (PortName p) (PortID p) ''eth'' (PortApplianceID p))
      (b2f (IsLinkUp p))) (EthPorts topo) @
    map (\<lambda>p. Sample ''powerstore_port_link_up''
      (portLabels array (ClusterID topo) (PortName p) (PortID p) ''fc'' (PortApplianceID p))
      (b2f (IsLinkUp p))) (FCPorts topo)"

subsection \<open>derive\_filesystem\_perf.go, derive\_volumegroup\_perf.go, derive\_cluster\_space.go\<close>

definition deriveFileSystemPerf ::
  "string \<Rightarrow> topology \<Rightarrow> file_system \<Rightarrow> fs_perf list \<Rightarrow> sample list" where
  "deriveFileSystemPerf array topo fs resp =
    (if resp = [] then []
     else let latest = last resp;
              name = (if FsName fs = [] then FsID fs else FsName fs);
              labels = fileSystemLabels array (ClusterID topo) name (FsID fs)
                (NASName topo (NasServerID fs)) (NasServerID fs)
       in [Sample ''powerstore_file_system_read_iops'' labels
             (preferNonZero (FsReadIops latest) (FsAvgReadIops latest)),
           Sample ''powerstore_file_system_write_iops'' labels
             (preferNonZero (FsWriteIops latest) (FsAvgWriteIops latest)),
           Sample ''powerstore_file_system_total_iops'' labels
             (preferNonZero (FsTotalIops latest) (FsAvgTotalIops latest)),
           Sample ''powerstore_file_system_read_bandwidth_bytes_per_second'' labels
             (preferNonZero (FsReadBandwidth latest) (FsAvgReadBandwidth latest)),
           Sample ''powerstore_file_system_write_bandwidth_bytes_per_second'' labels
             (preferNonZero (FsWriteBandwidth latest) (FsAvgWriteBandwidth latest)),
           Sample ''powerstore_file_system_read_latency_microseconds'' labels
             (to_float64 (FsAvgReadLatency latest)),
           Sample ''powerstore_file_system_write_latency_microseconds'' labels
             (to_float64 (FsAvgWriteLatency latest)),
           Sample ''powerstore_file_system_avg_io_size_bytes'' labels (to_float64 (FsAvgSize latest))])"

definition deriveVolumeGroupPerf ::
  "string \<Rightarrow> topology \<Rightarrow> volume_group \<Rightarrow> io_metrics list \<Rightarrow> sample list" where
  "deriveVolumeGroupPerf array topo vg resp =
    (if resp = [] then []
     else let latest = last resp;
              name = (if GroupName vg = [] then GroupID vg else GroupName vg);
              labels = volumeGroupLabels array (ClusterID topo) name (GroupID vg)
       in [Sample ''powerstore_volume_group_read_iops'' labels (to_float64 (ReadIops latest)),
           Sample ''powerstore_volume_group_write_iops'' labels (to_float64 (WriteIops latest)),
           Sample ''powerstore_volume_group_total_iops'' labels (to_float64 (TotalIops latest)),
           Sample ''powerstore_volume_group_read_bandwidth_bytes_per_second'' labels
             (to_float64 (ReadBandwidth latest)),
           Sample ''powerstore_volume_group_write_bandwidth_bytes_per_second'' labels
             (to_float64 (WriteBandwidth latest)),
           Sample ''powerstore_volume_group_read_latency_microseconds'' labels
             (to_float64 (AvgReadLatency latest)),
           Sample ''powerstore_volume_group_write_latency_microseconds'' labels
             (to_float64 (AvgWriteLatency latest)),
           Sample ''powerstore_volume_group_avg_io_size_bytes'' labels (to_float64 (AvgIoSize latest))])"

definition deriveClusterSpace :: "string \<Rightarrow> topology \<Rightarrow> space_metrics list \<Rightarrow> sample list" where
  "deriveClusterSpace array topo resp =
    (if resp = [] then []
     else let latest = last resp; labels = baseLabels array (ClusterID topo)
       in [Sample ''powerstore_cluster_physical_total_bytes'' labels (deref (PhysicalTotal latest)),
           Sample ''powerstore_cluster_physical_used_bytes'' labels (deref (PhysicalUsed latest)),
           Sample ''powerstore_cluster_logical_provisioned_bytes'' labels (deref (LogicalProvisioned latest)),
           Sample ''powerstore_cluster_logical_used_bytes'' labels (deref (LogicalUsed latest)),
           Sample ''powerstore_cluster_data_reduction_ratio'' labels (to_float64 (DataReduction latest)),
           Sample ''powerstore_cluster_efficiency_ratio'' labels (to_float64 (EfficiencyRatio latest))])"

subsection \<open>derive\_alerts.go\<close>

definition knownAlertSeverities :: "string list" where
  "knownAlertSeverities = [''Critical'', ''Major'', ''Minor'', ''Info'', ''None'']"

definition count_of :: "(string, int) amap \<Rightarrow> string \<Rightarrow> int" where
  "count_of m k = (case amap_get m k of None \<Rightarrow> 0 | Some n \<Rightarrow> n)"

definition active_counts :: "alert list \<Rightarrow> (string, int) amap" where
  "active_counts alerts =
    foldl (\<lambda>m a. if EqualFold (State a) ''ACTIVE''
      then amap_put (Severity a) (count_of m (Severity a) + 1) m else m) [] alerts"

definition deriveAlerts :: "(string list \<Rightarrow> string list) \<Rightarrow> string \<Rightarrow> topology \<Rightarrow> sample list" where
  "deriveAlerts \<rho> array topo =
    (let counts = active_counts (Alerts topo)
     in map (\<lambda>sev. Sample ''powerstore_alert_active'' (alertLabels array (ClusterID topo) sev)
            (of_int64 (count_of counts sev))) knownAlertSeverities @
        concat (map (\<lambda>(sev, n).
          if sev \<notin> set knownAlertSeverities
          then [Sample ''powerstore_alert_active'' (alertLabels array (ClusterID topo) sev) (of_int64 n)]
          else []) (amap_range \<rho> counts)))"

subsection \<open>derive\_replication.go\<close>

fun rpoSeconds :: "rpo \<Rightarrow> int option" where
  "rpoSeconds RpoZero = Some 0"
| "rpoSeconds RpoFiveMinutes = Some (5 * 60)"
| "rpoSeconds RpoFifteenMinutes = Some (15 * 60)"
| "rpoSeconds RpoThirtyMinutes = Some (30 * 60)"
| "rpoSeconds RpoOneHour = Some (60 * 60)"
| "rpoSeconds RpoSixHours = Some (6 * 60 * 60)"
| "rpoSeconds RpoTwelveHours = Some (12 * 60 * 60)"
| "rpoSeconds RpoOneDay = Some (24 * 60 * 60)"
| "rpoSeconds (RpoOther s) = None"

definition deriveReplicationSessions ::
  "string \<Rightarrow> topology \<Rightarrow> replication_session list \<Rightarrow> sample list" where
  "deriveReplicationSessions array topo sessions =
    concat (map (\<lambda>s.
      if SessionID s = [] then []
      else let name = ResourceName topo (SessionResourceType s) (LocalResourceID s)
        in [Sample ''powerstore_replication_session_state''
              (replicationSessionLabels array (ClusterID topo) (SessionID s) (LocalResourceID s) name
                (SessionResourceType s) (Role s) (SessionType s) (RemoteSystemID s) (SessionState s))
              one64]) sessions)"

definition deriveReplicationRules :: "string \<Rightarrow> topology \<Rightarrow> replication_rule list \<Rightarrow> sample list" where
  "deriveReplicationRules array topo rules =
    concat (map (\<lambda>r. case rpoSeconds (Rpo r) of
        None \<Rightarrow> []
      | Some secs \<Rightarrow> [Sample ''powerstore_replication_rpo_seconds''
          (replicationRuleLabels array (ClusterID topo) (RuleID r) (RuleRemoteSystemID r))
          (of_int64 secs)]) rules)"

definition deriveReplicationTransfer ::
  "string \<Rightarrow> topology \<Rightarrow> string \<Rightarrow> string \<Rightarrow> transfer_rate list \<Rightarrow> sample list" where
  "deriveReplicationTransfer array topo resourceID resourceType samples =
    (if samples = [] then []
     else let latest = last samples; name = ResourceName topo resourceType resourceID;
              labels = replicationResourceLabels array (ClusterID topo) resourceID name resourceType
       in [Sample ''powerstore_replication_transfer_rate_bytes_per_second'' labels
             (to_float64 (MirrorBandwidth latest)),
           Sample ''powerstore_replication_data_remaining_bytes'' labels
             (to_float64 (DataRemaining latest))])"

text \<open>The loop carries the ids found so far and the set of ids seen.\<close>

fun replicated_loop :: "string list \<Rightarrow> string list \<Rightarrow> replication_session list \<Rightarrow> string list" where
  "replicated_loop ids seen [] = ids"
| "replicated_loop ids seen (s # ss) =
    (if SessionResourceType s \<noteq> ''volume'' \<or> LocalResourceID s = [] then replicated_loop ids seen ss
     else if LocalResourceID s \<in> set seen then replicated_loop ids seen ss
     else replicated_loop (ids @ [LocalResourceID s]) (LocalResourceID s # seen) ss)"

definition replicatedVolumeResources :: "replication_session list \<Rightarrow> string list" where
  "replicatedVolumeResources sessions = replicated_loop [] [] sessions"

subsection \<open>derive\_witness.go, derive\_drives.go\<close>

definition deriveWitness :: "string \<Rightarrow> topology \<Rightarrow> witnessInfo list \<Rightarrow> sample list" where
  "deriveWitness array topo witnesses =
    concat (map (\<lambda>w.
      if WitnessID w = [] then []
      else (if WitnessState w \<noteq> []
            then [Sample ''powerstore_metro_witness_state''
              (witnessStateLabels array (ClusterID topo) (WitnessID w) (WitnessName w) (WitnessState w)) one64]
            else []) @
           concat (map (\<lambda>conn.
             if ConnState conn = [] then []
             else [Sample ''powerstore_metro_witness_connection_state''
               (witnessConnectionLabels array (ClusterID topo) (WitnessID w) (ConnApplianceID conn)
                 (ConnNodeID conn) (ConnState conn)) one64]) (Connections w))) witnesses)"

definition deriveDrives :: "string \<Rightarrow> topology \<Rightarrow> driveInfo list \<Rightarrow> sample list" where
  "deriveDrives array topo drives =
    concat (map (\<lambda>d.
      if DriveID d = [] then []
      else (if LifeCycleState d \<noteq> []
            then [Sample ''powerstore_drive_state''
              (driveStateLabels array (ClusterID topo) (DriveID d) (DriveName d) (DriveApplianceID d)
                (LifeCycleState d)) one64]
            else []) @
           (case DriveWearLevel (ExtraDetails d) of
              None \<Rightarrow> []
            | Some w \<Rightarrow> [Sample ''powerstore_drive_wear_level_ratio''
                (driveLabels array (ClusterID topo) (DriveID d) (DriveName d) (DriveApplianceID d))
                (div_const w 100)])) drives)"

lemmas [derive_defs] = deriveVolumePerf_def deriveAppliancePerf_def deriveApplianceSpace_def
  deriveFileSystemCapacity_def derivePortLinkStatus_def deriveFileSystemPerf_def
  deriveVolumeGroupPerf_def deriveClusterSpace_def deriveAlerts_def deriveReplicationSessions_def
  deriveReplicationRules_def deriveReplicationTransfer_def deriveWitness_def deriveDrives_def

end
