(* ===== verification/DeriveFacts.thy ===== *)
theory DeriveFacts
  imports Derive
begin

text \<open>
  Lemmas about the derive functions. \<open>samples_ok a c ss\<close> says that every sample of \<open>ss\<close>
  carries array \<open>a\<close> and cluster \<open>c\<close> as its first labels and conforms to the metric
  reference; each derive function produces such samples (\<open>samples_ok_derive\<close>). The labels of a volume's
  samples are determined by the topology (\<open>deriveVolumePerf_labels\<close>).
\<close>

definition samples_ok :: "string \<Rightarrow> string \<Rightarrow> sample list \<Rightarrow> bool" where
  "samples_ok a c ss \<longleftrightarrow> list_all (\<lambda>s. labelled a c s \<and> conforms s) ss"

lemma samples_ok_Nil [simp]: "samples_ok a c []"
  by (simp add: samples_ok_def)

lemma samples_ok_append [simp]: "samples_ok a c (xs @ ys) \<longleftrightarrow> samples_ok a c xs \<and> samples_ok a c ys"
  by (simp add: samples_ok_def)

lemma samples_ok_Cons [simp]:
  "samples_ok a c (s # ss) \<longleftrightarrow> labelled a c s \<and> conforms s \<and> samples_ok a c ss"
  by (auto simp: samples_ok_def)

lemma samples_ok_concat: "(\<And>x. x \<in> set xs \<Longrightarrow> samples_ok a c (f x)) \<Longrightarrow> samples_ok a c (concat (map f xs))"
  by (induction xs) auto

lemma samples_ok_map: "(\<And>x. labelled a c (f x) \<and> conforms (f x)) \<Longrightarrow> samples_ok a c (map f xs)"
  by (simp add: samples_ok_def list_all_iff)

lemmas sample_ok = labelled_def conforms_def schema_simps

lemma samples_ok_derive [simp]:
  "samples_ok a (ClusterID t) (deriveVolumePerf \<rho> a t vp)"
  "samples_ok a (ClusterID t) (deriveAppliancePerf \<rho> a t ap)"
  "samples_ok a (ClusterID t) (deriveApplianceSpace \<rho> a t asp)"
  "samples_ok a (ClusterID t) (deriveFileSystemCapacity a t)"
  "samples_ok a (ClusterID t) (derivePortLinkStatus a t)"
  "samples_ok a (ClusterID t) (deriveFileSystemPerf a t fs fp)"
  "samples_ok a (ClusterID t) (deriveVolumeGroupPerf a t vg gp)"
  "samples_ok a (ClusterID t) (deriveClusterSpace a t cs)"
  "samples_ok a (ClusterID t) (deriveAlerts \<rho> a t)"
  "samples_ok a (ClusterID t) (deriveReplicationSessions a t rs)"
  "samples_ok a (ClusterID t) (deriveReplicationRules a t rr)"
  "samples_ok a (ClusterID t) (deriveReplicationTransfer a t i ty tr)"
  "samples_ok a (ClusterID t) (deriveWitness a t ws)"
  "samples_ok a (ClusterID t) (deriveDrives a t ds)"
  by (auto simp: derive_defs Let_def sample_ok intro!: samples_ok_concat samples_ok_map
      split: prod.splits option.splits)

subsection \<open>Newest response per id\<close>

lemma latestByID_get:
  "amap_get (latestByID items key) k = map_of (rev (map (\<lambda>it. (key it, it)) items)) k"
  unfolding latestByID_def by (rule al.look_fill_emp)

lemma latestByID_ok: "amap_ok (latestByID items key)"
  unfolding latestByID_def by (rule al.invar_fill [OF al.invar_emp])

lemma latestByID_last:
  "items = ys @ x # zs \<Longrightarrow> (\<And>z. z \<in> set zs \<Longrightarrow> key z \<noteq> key x) \<Longrightarrow>
    amap_get (latestByID items key) (key x) = Some x"
  unfolding latestByID_def by (rule al.look_fill_last [where val = "\<lambda>x. x"]) auto

lemma latestByID_mem:
  "(k, r) \<in> set (latestByID items key) \<Longrightarrow> r \<in> set items \<and> key r = k"
  by (drule amap_get_mem [OF latestByID_ok, THEN iffD1]) (auto simp: latestByID_get dest: map_of_SomeD)

subsection \<open>First-seen ids\<close>

lemma replicated_loop_eq:
  "distinct ids \<Longrightarrow> set seen = set ids \<Longrightarrow>
    (let r = replicated_loop ids seen ss
     in distinct r \<and> (\<exists>more. r = ids @ more) \<and>
        set r = set ids \<union> {LocalResourceID s |s. s \<in> set ss \<and> SessionResourceType s = ''volume'' \<and> LocalResourceID s \<noteq> []})"
proof (induction ids seen ss rule: replicated_loop.induct)
  case (2 ids seen s ss)
  consider (skip) "SessionResourceType s \<noteq> ''volume'' \<or> LocalResourceID s = []"
    | (dup) "SessionResourceType s = ''volume''" "LocalResourceID s \<noteq> []" "LocalResourceID s \<in> set seen"
    | (new) "SessionResourceType s = ''volume''" "LocalResourceID s \<noteq> []" "LocalResourceID s \<notin> set seen"
    by blast
  then show ?case
  proof cases
    case skip
    with "2.IH"(1) "2.prems" show ?thesis by (auto simp: Let_def)
  next
    case dup
    with "2.IH"(2) "2.prems" show ?thesis by (auto simp: Let_def)
  next
    case new
    with "2.IH"(3) "2.prems" show ?thesis by (auto simp: Let_def)
  qed
qed (simp add: Let_def)

lemma replicated_loop_filter:
  "replicated_loop ids seen ss =
    replicated_loop ids seen (filter (\<lambda>s. SessionResourceType s = ''volume'' \<and> LocalResourceID s \<noteq> []) ss)"
  by (induction ids seen ss rule: replicated_loop.induct) auto

subsection \<open>Counting alerts\<close>

definition active :: "string \<Rightarrow> alert \<Rightarrow> bool" where
  "active sev a \<longleftrightarrow> Severity a = sev \<and> EqualFold (State a) ''ACTIVE''"

lemma active_counts_ok: "amap_ok (active_counts alerts)"
  unfolding active_counts_def
  by (induction alerts rule: rev_induct) (auto simp: al.invar_emp al.invar_put)

lemma active_counts_count: "count_of (active_counts alerts) sev = int (length (filter (active sev) alerts))"
proof (induction alerts rule: rev_induct)
  case Nil
  then show ?case by (simp add: active_counts_def count_of_def al.look_emp)
next
  case (snoc a alerts)
  then show ?case
    by (auto simp: active_counts_def active_def count_of_def al.look_put)
qed

lemma active_counts_keys:
  "amap_get (active_counts alerts) sev = (let n = length (filter (active sev) alerts) in if n = 0 then None else Some (int n))"
proof -
  have "amap_get (active_counts alerts) sev = None \<longleftrightarrow> filter (active sev) alerts = []"
  proof (induction alerts rule: rev_induct)
    case (snoc a alerts)
    then show ?case by (auto simp: active_counts_def active_def al.look_put)
  qed (simp add: active_counts_def al.look_emp)
  then show ?thesis
    using active_counts_count [of alerts sev] by (auto simp: count_of_def Let_def split: option.splits)
qed

text \<open>One sample per severity: the known ones and those of an active alert, with the exact count.\<close>

definition alert_sample :: "string \<Rightarrow> topology \<Rightarrow> string \<Rightarrow> sample" where
  "alert_sample array topo sev = Sample ''powerstore_alert_active'' (alertLabels array (ClusterID topo) sev)
    (of_int64 (int (length (filter (active sev) (Alerts topo)))))"

lemma deriveAlerts_severities:
  assumes "range_order \<rho>"
  shows "\<exists>sevs. deriveAlerts \<rho> array topo = map (alert_sample array topo) sevs \<and> distinct sevs \<and>
    set sevs = set knownAlertSeverities \<union> {sev. \<exists>a \<in> set (Alerts topo). active sev a}"
proof -
  let ?counts = "active_counts (Alerts topo)"
  let ?other = "filter (\<lambda>sev. sev \<notin> set knownAlertSeverities) (map fst (amap_range \<rho> ?counts))"
  note ok = active_counts_ok [of "Alerts topo"]
  have val: "count_of ?counts sev = int (length (filter (active sev) (Alerts topo)))" for sev
    by (rule active_counts_count)
  have n: "n = count_of ?counts sev" if "(sev, n) \<in> set (amap_range \<rho> ?counts)" for sev n
    using that by (simp add: amap_range_set [OF assms ok] amap_get_mem [OF ok] count_of_def)
  have other: "concat (map (\<lambda>(sev, n). if sev \<notin> set knownAlertSeverities
      then [Sample ''powerstore_alert_active'' (alertLabels array (ClusterID topo) sev) (of_int64 n)] else []) xs) =
    map (alert_sample array topo) (filter (\<lambda>sev. sev \<notin> set knownAlertSeverities) (map fst xs))"
    if "\<And>sev n. (sev, n) \<in> set xs \<Longrightarrow> n = count_of ?counts sev" for xs
    using that
  proof (induction xs)
    case (Cons x xs)
    obtain sev n where x: "x = (sev, n)" by force
    with Cons.prems [of sev n] have "n = count_of ?counts sev" by simp
    then show ?case
      using Cons.IH [OF Cons.prems [OF list.set_intros(2)]] by (simp add: x alert_sample_def val)
  qed simp
  have fixed: "(\<lambda>sev. Sample ''powerstore_alert_active'' (alertLabels array (ClusterID topo) sev)
      (of_int64 (count_of ?counts sev))) = alert_sample array topo"
    by (rule ext) (simp only: alert_sample_def val)
  have "deriveAlerts \<rho> array topo = map (alert_sample array topo) (knownAlertSeverities @ ?other)"
    unfolding deriveAlerts_def Let_def fixed by (simp only: map_append other [of "amap_range \<rho> ?counts", OF n])
  moreover have "distinct (knownAlertSeverities @ ?other)"
    using amap_range_distinct [OF assms ok] by (auto simp: knownAlertSeverities_def)
  moreover have "set (map fst (amap_range \<rho> ?counts)) = {sev. \<exists>a \<in> set (Alerts topo). active sev a}"
    unfolding amap_range_keys [OF assms] range_order_set [OF assms] al.keys_look [OF ok] active_counts_keys Let_def
    by (simp add: filter_empty_conv)
  then have "set (knownAlertSeverities @ ?other) = set knownAlertSeverities \<union> {sev. \<exists>a \<in> set (Alerts topo). active sev a}"
    by auto
  ultimately show ?thesis by blast
qed

subsection \<open>The labels of a volume\<close>

lemma deriveVolumePerf_labels:
  assumes "s \<in> set (deriveVolumePerf \<rho> array topo resp)" and "Label ''volume_id'' vid \<in> set (Labels s)"
    and "VolumeInfo topo vid = (nm, appl, known)" and "VolumeGroupOf topo vid = (gid, gname)"
  shows "Labels s = volumeLabels array (ClusterID topo) (if nm = [] then vid else nm) vid appl
    (TopoApplianceName topo appl) gname gid"
proof -
  define l where "l = (\<lambda>v. volumeLabels array (ClusterID topo)
    (if fst (VolumeInfo topo v) = [] then v else fst (VolumeInfo topo v)) v (fst (snd (VolumeInfo topo v)))
    (TopoApplianceName topo (fst (snd (VolumeInfo topo v)))) (snd (VolumeGroupOf topo v)) (fst (VolumeGroupOf topo v)))"
  from assms(1) obtain v where v: "Labels s = l v"
    by (auto simp: deriveVolumePerf_def Let_def split_beta l_def cong: if_cong)
  with assms(2) have "v = vid" by (simp add: l_def volumeLabels_def baseLabels_def)
  with v assms(3,4) show ?thesis by (simp add: l_def)
qed

end
