(* ===== verification/Snapshot.thy ===== *)
theory Snapshot
  imports DeriveFacts
begin

text \<open>
  \<open>internal/powerstore/snapshot.go\<close>: the result of one collection cycle per array, the snapshot that
  indexes the samples by metric name, and the store that publishes it. A scrape error is kept as
  an error value instead of its text (\<open>None\<close> is the empty text); a time is its Unix second, with
  \<open>None\<close> for Go's zero time.

  Lemmas: \<open>BuildSnapshot\<close> keeps every sample of every array exactly once, under its own name and in
  collection order; the names are the distinct names of the samples; the last result of an array
  name is the one in \<open>PerArray\<close>. The store is an instance of the locale \<open>publication\<close>.
\<close>

record array_snapshot =
  Array :: string
  Up :: bool
  IsBulkCapable :: bool
  ScrapeError :: "err option"
  LastScrape :: "int option"
  Samples :: "sample list"

record snapshot =
  PerArray :: "(string, array_snapshot) amap"
  byName :: "(string, sample list) amap"
  names :: "string list"

definition samples_at :: "(string, sample list) amap \<Rightarrow> string \<Rightarrow> sample list" where
  "samples_at m n = (case amap_get m n of None \<Rightarrow> [] | Some ss \<Rightarrow> ss)"

definition index_samples :: "(string, sample list) amap \<Rightarrow> sample list \<Rightarrow> (string, sample list) amap" where
  "index_samples m ss = foldl (\<lambda>m s. amap_put (Name s) (samples_at m (Name s) @ [s]) m) m ss"

definition add_array :: "snapshot \<Rightarrow> array_snapshot option \<Rightarrow> snapshot" where
  "add_array snap r =
    (case r of
       None \<Rightarrow> snap
     | Some as \<Rightarrow> snap\<lparr>PerArray := amap_put (Array as) as (PerArray snap),
         byName := index_samples (byName snap) (Samples as)\<rparr>)"

definition BuildSnapshot :: "(string list \<Rightarrow> string list) \<Rightarrow> array_snapshot option list \<Rightarrow> snapshot" where
  "BuildSnapshot \<rho> arrays =
    (let snap = foldl add_array \<lparr>PerArray = [], byName = [], names = []\<rparr> arrays
     in snap\<lparr>names := map fst (amap_range \<rho> (byName snap))\<rparr>)"

definition SamplesByName :: "snapshot \<Rightarrow> string \<Rightarrow> sample list" where
  "SamplesByName s name = samples_at (byName s) name"

definition MetricNames :: "snapshot \<Rightarrow> string list" where
  "MetricNames s = names s"

record snapshot_store =
  current :: snapshot

definition NewSnapshotStore :: snapshot_store where
  "NewSnapshotStore = \<lparr>current = BuildSnapshot (\<lambda>ks. ks) []\<rparr>"

definition LoadSnapshot :: "snapshot_store \<Rightarrow> snapshot" where
  "LoadSnapshot st = current st"

definition StoreSnapshot :: "snapshot \<Rightarrow> snapshot_store \<Rightarrow> snapshot_store" where
  "StoreSnapshot s st = st\<lparr>current := s\<rparr>"

subsection \<open>The index\<close>

lemma index_samples_at: "samples_at (index_samples m ss) n = samples_at m n @ filter (\<lambda>s. Name s = n) ss"
proof (induction ss rule: rev_induct)
  case (snoc s ss)
  then show ?case by (auto simp: index_samples_def samples_at_def al.look_put)
qed (simp add: index_samples_def)

lemma index_samples_ok: "amap_ok m \<Longrightarrow> amap_ok (index_samples m ss)"
  unfolding index_samples_def by (induction ss rule: rev_induct) (simp_all add: al.invar_put)

lemma index_samples_keys:
  "amap_ok m \<Longrightarrow> set (amap_keys (index_samples m ss)) = set (amap_keys m) \<union> Name ` set ss"
proof (induction ss rule: rev_induct)
  case (snoc s ss)
  then show ?case
    using al.keys_put [OF index_samples_ok [OF snoc.prems, of ss]] by (simp add: index_samples_def)
qed (simp add: index_samples_def)

definition collected :: "array_snapshot option list \<Rightarrow> sample list" where
  "collected arrays = concat (map (\<lambda>r. case r of None \<Rightarrow> [] | Some as \<Rightarrow> Samples as) arrays)"

definition fold_arrays :: "array_snapshot option list \<Rightarrow> snapshot" where
  "fold_arrays arrays = foldl add_array \<lparr>PerArray = [], byName = [], names = []\<rparr> arrays"

lemma fold_arrays_snoc:
  "fold_arrays [] = \<lparr>PerArray = [], byName = [], names = []\<rparr>"
  "fold_arrays (arrays @ [r]) = add_array (fold_arrays arrays) r"
  by (simp_all add: fold_arrays_def)

lemma fold_arrays_byName:
  "amap_ok (byName (fold_arrays arrays)) \<and>
   samples_at (byName (fold_arrays arrays)) n = filter (\<lambda>s. Name s = n) (collected arrays) \<and>
   set (amap_keys (byName (fold_arrays arrays))) = Name ` set (collected arrays)"
proof (induction arrays rule: rev_induct)
  case Nil
  show ?case using al.invar_emp
    by (simp add: fold_arrays_snoc collected_def samples_at_def al.look_emp amap_keys_def)
next
  case (snoc r arrays)
  then show ?case
    by (cases r) (auto simp: fold_arrays_snoc collected_def add_array_def index_samples_at
        index_samples_ok index_samples_keys)
qed

lemma fold_arrays_PerArray:
  "amap_ok (PerArray (fold_arrays arrays)) \<and>
   amap_get (PerArray (fold_arrays arrays)) a =
     map_of (rev (map (\<lambda>as. (Array as, as)) (List.map_filter (\<lambda>r. r) arrays))) a"
proof (induction arrays rule: rev_induct)
  case Nil
  show ?case using al.invar_emp by (simp add: fold_arrays_snoc al.look_emp List.map_filter_def)
next
  case (snoc r arrays)
  then show ?case
    by (cases r) (auto simp: fold_arrays_snoc add_array_def al.look_put al.invar_put List.map_filter_def)
qed

lemma BuildSnapshot_fold:
  "BuildSnapshot \<rho> arrays = (fold_arrays arrays)\<lparr>names := map fst (amap_range \<rho> (byName (fold_arrays arrays)))\<rparr>"
  by (simp add: BuildSnapshot_def fold_arrays_def Let_def)

lemma SamplesByName_Build:
  "SamplesByName (BuildSnapshot \<rho> arrays) n = filter (\<lambda>s. Name s = n) (collected arrays)"
  using fold_arrays_byName [of arrays n] by (simp add: BuildSnapshot_fold SamplesByName_def)

lemma MetricNames_Build:
  assumes "range_order \<rho>"
  shows "distinct (MetricNames (BuildSnapshot \<rho> arrays))"
    and "set (MetricNames (BuildSnapshot \<rho> arrays)) = Name ` set (collected arrays)"
  using fold_arrays_byName [of arrays] range_order_set [OF assms]
  by (simp_all add: BuildSnapshot_fold MetricNames_def amap_range_keys [OF assms]
      range_order_distinct [OF assms] amap_ok_def amap_keys_def)

lemma PerArray_Build:
  "amap_ok (PerArray (BuildSnapshot \<rho> arrays))"
  "amap_get (PerArray (BuildSnapshot \<rho> arrays)) a =
     map_of (rev (map (\<lambda>as. (Array as, as)) (List.map_filter (\<lambda>r. r) arrays))) a"
  using fold_arrays_PerArray [of arrays a] by (simp_all add: BuildSnapshot_fold)

text \<open>No sample is lost or counted twice by reading the snapshot name by name.\<close>

lemma filter_by_key_mset:
  "distinct ns \<Longrightarrow> f ` set xs \<subseteq> set ns \<Longrightarrow> mset (concat (map (\<lambda>n. filter (\<lambda>x. f x = n) xs) ns)) = mset xs"
proof (induction ns arbitrary: xs)
  case (Cons n ns)
  let ?rest = "filter (\<lambda>x. f x \<noteq> n) xs"
  have "filter (\<lambda>x. f x = k) xs = filter (\<lambda>x. f x = k) ?rest" if "k \<in> set ns" for k
    using that Cons.prems(1) by (induction xs) auto
  then have rest: "map (\<lambda>k. filter (\<lambda>x. f x = k) xs) ns = map (\<lambda>k. filter (\<lambda>x. f x = k) ?rest) ns"
    by (rule map_cong [OF refl])
  have "mset (concat (map (\<lambda>k. filter (\<lambda>x. f x = k) xs) (n # ns))) =
      mset (filter (\<lambda>x. f x = n) xs) + mset (concat (map (\<lambda>k. filter (\<lambda>x. f x = k) ?rest) ns))"
    by (simp only: list.map(2) concat.simps(2) mset_append rest)
  also have "mset (concat (map (\<lambda>k. filter (\<lambda>x. f x = k) ?rest) ns)) = mset ?rest"
    by (rule Cons.IH) (use Cons.prems in auto)
  also have "mset (filter (\<lambda>x. f x = n) xs) + mset ?rest = mset xs"
    using multiset_partition [of "mset xs" "\<lambda>x. f x = n"] by simp
  finally show ?case .
qed simp

lemma snapshot_complete:
  assumes "range_order \<rho>"
  shows "mset (concat (map (SamplesByName (BuildSnapshot \<rho> arrays)) (MetricNames (BuildSnapshot \<rho> arrays)))) =
    mset (collected arrays)"
proof -
  have "SamplesByName (BuildSnapshot \<rho> arrays) = (\<lambda>n. filter (\<lambda>s. Name s = n) (collected arrays))"
    by (simp add: SamplesByName_Build fun_eq_iff)
  then show ?thesis
    using filter_by_key_mset [of "MetricNames (BuildSnapshot \<rho> arrays)" Name "collected arrays"]
      MetricNames_Build [OF assms, of arrays] by simp
qed

subsection \<open>Publication\<close>

text \<open>A cell that readers load and one writer replaces as a whole.\<close>

locale publication =
  fixes load :: "'st \<Rightarrow> 'v" and publish :: "'v \<Rightarrow> 'st \<Rightarrow> 'st"
  assumes load_publish: "load (publish v st) = v"
begin

lemma load_last: "vs \<noteq> [] \<Longrightarrow> load (fold publish vs st) = last vs"
  by (induction vs arbitrary: st rule: rev_induct) (simp_all add: load_publish)

text \<open>A reader always gets the initial value or one complete published value.\<close>

lemma load_some: "load (fold publish vs st) \<in> insert (load st) (set vs)"
  by (cases "vs = []") (simp_all add: load_last)

end

interpretation snap_store: publication LoadSnapshot StoreSnapshot
  by unfold_locales (simp add: LoadSnapshot_def StoreSnapshot_def)

end
