(* ===== verification/Capability.thy ===== *)
theory Capability
  imports GoText
begin

text \<open>
  \<open>internal/powerstore/capability.go\<close> and the version detection of \<open>BulkCapable\<close>
  (\<open>client.go\<close>): a PowerStoreOS version string supports the bulk API from 4.1 on. The
  abstract specification is the lexicographic order of versions (\<open>version\<close>, an instance of
  \<open>linorder\<close>); \<open>bulkCapable_iff\<close> is the refinement.
\<close>

subsection \<open>The code\<close>

definition parseMajorMinor :: "string \<Rightarrow> (int \<times> int) option" where
  "parseMajorMinor version =
    (case split_on CHR ''.'' version of
       a # b # _ \<Rightarrow> (case (Atoi a, Atoi b) of (Some maj, Some mnr) \<Rightarrow> Some (maj, mnr) | _ \<Rightarrow> None)
     | _ \<Rightarrow> None)"

definition bulkCapableFromVersion :: "string \<Rightarrow> bool" where
  "bulkCapableFromVersion version =
    (case parseMajorMinor version of
       None \<Rightarrow> False
     | Some (major, minor) \<Rightarrow> major > 4 \<or> major = 4 \<and> minor \<ge> 1)"

text \<open>\<open>fmt.Sprintf("%.1f.0.0", v)\<close>: one decimal, rounded to nearest with ties to even.\<close>

definition sprintf_version :: "float32 \<Rightarrow> string" where
  "sprintf_version v =
    (case v of
       NaN \<Rightarrow> ''NaN''
     | Inf s \<Rightarrow> if s then ''-Inf'' else ''+Inf''
     | Fin s m e \<Rightarrow>
         (let (n, d) = pow2 e; k = round_div (10 * (m * n)) d
          in (if s then ''-'' else []) @ dec (k div 10) @ ''.'' @ dec (k mod 10))) @ ''.0.0''"

subsection \<open>Versions as an order\<close>

datatype version = Version (major: int) (minor: int)

instantiation version :: linorder
begin

definition less_eq_version :: "version \<Rightarrow> version \<Rightarrow> bool" where
  "less_eq_version v w \<longleftrightarrow> major v < major w \<or> major v = major w \<and> minor v \<le> minor w"

definition less_version :: "version \<Rightarrow> version \<Rightarrow> bool" where
  "less_version v w \<longleftrightarrow> major v < major w \<or> major v = major w \<and> minor v < minor w"

instance
  by standard (auto simp: less_eq_version_def less_version_def intro: version.expand)

end

lemma parseMajorMinor_dec:
  assumes "0 \<le> a" "a < 2 ^ 63" "0 \<le> b" "b < 2 ^ 63" and "rest = [] \<or> hd rest = CHR ''.''"
  shows "parseMajorMinor (dec a @ ''.'' @ dec b @ rest) = Some (a, b)"
proof -
  have b: "\<exists>ps. split_on CHR ''.'' (dec b @ rest) = dec b # ps"
  proof (cases rest)
    case Nil
    with assms(3) show ?thesis by (simp add: split_on_single dec_no_dot)
  next
    case (Cons c r)
    with assms(3,5) show ?thesis by (simp add: split_on_append dec_no_dot)
  qed
  have "split_on CHR ''.'' (dec a @ ''.'' @ dec b @ rest) = dec a # split_on CHR ''.'' (dec b @ rest)"
    using assms(1) by (simp add: split_on_append dec_no_dot)
  with b assms show ?thesis by (auto simp: parseMajorMinor_def Atoi_dec)
qed

text \<open>On the dotted numerals of a version the check is the order of versions.\<close>

lemma bulkCapable_iff:
  assumes "0 \<le> a" "a < 2 ^ 63" "0 \<le> b" "b < 2 ^ 63" and "rest = [] \<or> hd rest = CHR ''.''"
  shows "bulkCapableFromVersion (dec a @ ''.'' @ dec b @ rest) \<longleftrightarrow> Version 4 1 \<le> Version a b"
  using parseMajorMinor_dec [OF assms]
  by (auto simp: bulkCapableFromVersion_def less_eq_version_def)

lemma bulkCapable_undetected: "\<not> bulkCapableFromVersion []"
  by (simp add: bulkCapableFromVersion_def parseMajorMinor_def)

lemma bulkCapable_one_part: "CHR ''.'' \<notin> set v \<Longrightarrow> \<not> bulkCapableFromVersion v"
  by (simp add: bulkCapableFromVersion_def parseMajorMinor_def split_on_single)

text \<open>The SDK reports 4.1 as the nearest binary32 number; it prints as \<open>4.1.0.0\<close> again.\<close>

lemma sprintf_version_4_1: "sprintf_version (Fin False 8598323 (- 21)) = ''4.1.0.0''"
  by code_simp

lemma sprintf_version_4_0: "sprintf_version (Fin False 1 2) = ''4.0.0.0''"
  by code_simp

end
