(* ===== verification/Csv.thy ===== *)
theory Csv
  imports GoText
begin

text \<open>
  The CSV reader behind \<open>parseCSV\<close> (\<open>internal/powerstore/bulk.go\<close>): Go's \<open>encoding/csv\<close>
  with its defaults, as the code configures it (comma, no comments, strict quotes, any
  number of fields). The input is split into lines first (\<open>\r\n\<close> becomes \<open>\n\<close>, a final
  \<open>\r\<close> is dropped, each line keeps its \<open>\n\<close>); a record may run over several lines inside a
  quoted field. A table printed with quoted fields reads back as itself
  (\<open>ReadAll_render\<close>).
\<close>

datatype csv_error = BareQuote | QuoteError

abbreviation nl :: char where "nl \<equiv> CHR 0x0A"
abbreviation cr :: char where "cr \<equiv> CHR 0x0D"
abbreviation quot :: char where "quot \<equiv> CHR 0x22"
abbreviation comma :: char where "comma \<equiv> CHR '',''"

subsection \<open>Lines\<close>

definition end_line :: "string \<Rightarrow> string" where
  "end_line l = (if l \<noteq> [] \<and> last l = cr then butlast l else l) @ [nl]"

definition last_line :: "string \<Rightarrow> string list" where
  "last_line l = (if l = [] then [] else if last l = cr then [butlast l] else [l])"

fun split_lines :: "string \<Rightarrow> string \<Rightarrow> string list" where
  "split_lines acc [] = last_line acc"
| "split_lines acc (c # cs) =
    (if c = nl then end_line acc # split_lines [] cs else split_lines (acc @ [c]) cs)"

definition csv_lines :: "string \<Rightarrow> string list" where
  "csv_lines s = split_lines [] s"

text \<open>A line without its final newline.\<close>

definition chomp :: "string \<Rightarrow> string" where
  "chomp l = (if l \<noteq> [] \<and> last l = nl then butlast l else l)"

subsection \<open>One record\<close>

text \<open>What is left to read: the rest of the line and the lines after it.\<close>

definition todo :: "string \<Rightarrow> string list \<Rightarrow> nat" where
  "todo line rest = length line + sum_list (map (\<lambda>l. Suc (length l)) rest)"

lemma drop_after_less:
  assumes "x \<in> set xs"
  shows "length (drop (Suc (length (takeWhile (\<lambda>c. c \<noteq> x) xs))) xs) < length xs"
  using assms by (cases xs) auto

function (sequential)
  parse_fields :: "string list \<Rightarrow> string \<Rightarrow> string list \<Rightarrow> csv_error + (string list \<times> string list)" and
  parse_quoted :: "string list \<Rightarrow> string \<Rightarrow> string \<Rightarrow> string list \<Rightarrow> csv_error + (string list \<times> string list)" where
  "parse_fields acc line rest =
    (if line \<noteq> [] \<and> hd line = quot then parse_quoted acc [] (tl line) rest
     else if comma \<in> set line then
       (let field = takeWhile (\<lambda>c. c \<noteq> comma) line
        in if quot \<in> set field then Inl BareQuote
           else parse_fields (acc @ [field]) (drop (Suc (length field)) line) rest)
     else (let field = chomp line
        in if quot \<in> set field then Inl BareQuote else Inr (acc @ [field], rest)))"
| "parse_quoted acc buf line rest =
    (if quot \<in> set line then
       (let pre = takeWhile (\<lambda>c. c \<noteq> quot) line; l = drop (Suc (length pre)) line
        in if l \<noteq> [] \<and> hd l = quot then parse_quoted acc (buf @ pre @ [quot]) (tl l) rest
           else if l \<noteq> [] \<and> hd l = comma then parse_fields (acc @ [buf @ pre]) (tl l) rest
           else if chomp l = [] then Inr (acc @ [buf @ pre], rest)
           else Inl QuoteError)
     else if line \<noteq> [] then
       (case rest of [] \<Rightarrow> parse_quoted acc (buf @ line) [] []
        | l # ls \<Rightarrow> parse_quoted acc (buf @ line) l ls)
     else Inl QuoteError)"
  by pat_completeness auto
termination
  by (relation "measure (\<lambda>x. case x of Inl (acc, line, rest) \<Rightarrow> todo line rest
      | Inr (acc, buf, line, rest) \<Rightarrow> todo line rest)")
    (auto simp: todo_def dest: drop_after_less simp del: length_drop
      intro: order.strict_trans1 [OF _ drop_after_less])

declare parse_fields.simps [simp del] parse_quoted.simps [simp del]

lemma parse_rest:
  "parse_fields acc line rest = Inr (r, rest') \<Longrightarrow> length rest' \<le> length rest"
  "parse_quoted acc buf line rest = Inr (r, rest') \<Longrightarrow> length rest' \<le> length rest"
proof (induction acc line rest and acc buf line rest rule: parse_fields_parse_quoted.induct)
  case (1 acc line rest)
  from "1.prems" "1.IH" show ?case
    by (simp add: parse_fields.simps [of acc line rest] Let_def split: if_splits)
next
  case (2 acc buf line rest)
  from "2.prems" "2.IH" show ?case
    by (simp add: parse_quoted.simps [of acc buf line rest] Let_def split: if_splits list.splits)
qed

subsection \<open>All records\<close>

text \<open>\<open>ReadAll\<close>: empty lines are skipped, the first error ends the reading.\<close>

function read_records :: "string list \<Rightarrow> csv_error + string list list" where
  "read_records [] = Inr []"
| "read_records (l # ls) =
    (if chomp l = [] then read_records ls
     else (case parse_fields [] l ls of
         Inl e \<Rightarrow> Inl e
       | Inr (r, rest) \<Rightarrow> (case read_records rest of Inl e \<Rightarrow> Inl e | Inr rs \<Rightarrow> Inr (r # rs))))"
  by pat_completeness auto
termination
  by (relation "measure length") (auto dest: parse_rest(1) simp: le_imp_less_Suc)

definition ReadAll :: "string \<Rightarrow> csv_error + string list list" where
  "ReadAll s = read_records (csv_lines s)"

subsection \<open>Printing and reading back\<close>

definition escape :: "string \<Rightarrow> string" where
  "escape f = concat (map (\<lambda>c. if c = quot then [quot, quot] else [c]) f)"

definition quote_field :: "string \<Rightarrow> string" where
  "quote_field f = quot # escape f @ [quot]"

definition render_record :: "string list \<Rightarrow> string" where
  "render_record fs = join [comma] (map quote_field fs) @ [nl]"

definition render_table :: "string list list \<Rightarrow> string" where
  "render_table rs = concat (map render_record rs)"

lemma escape_simps [simp]:
  "escape [] = []" "escape (c # f) = (if c = quot then quot # quot # escape f else c # escape f)"
  by (simp_all add: escape_def)

lemma parse_quoted_char:
  "c \<noteq> quot \<Longrightarrow> quot \<in> set line \<Longrightarrow> parse_quoted acc buf (c # line) rest = parse_quoted acc (buf @ [c]) line rest"
  by (subst (1 2) parse_quoted.simps) (simp add: Let_def)

lemma parse_quoted_escape:
  "l = [] \<or> hd l \<noteq> quot \<Longrightarrow> parse_quoted acc buf (escape f @ quot # l) rest =
    (if l \<noteq> [] \<and> hd l = comma then parse_fields (acc @ [buf @ f]) (tl l) rest
     else if chomp l = [] then Inr (acc @ [buf @ f], rest) else Inl QuoteError)"
proof (induction f arbitrary: buf)
  case Nil
  then show ?case by (subst parse_quoted.simps) auto
next
  case (Cons c f)
  show ?case
  proof (cases "c = quot")
    case True
    have "parse_quoted acc buf (escape (c # f) @ quot # l) rest =
        parse_quoted acc (buf @ [quot]) (escape f @ quot # l) rest"
      using True by (subst parse_quoted.simps) simp
    with True Cons show ?thesis by simp
  next
    case False
    with Cons show ?thesis by (simp add: parse_quoted_char)
  qed
qed

lemma parse_quote_field:
  "l = [] \<or> hd l \<noteq> quot \<Longrightarrow> parse_fields acc (quote_field f @ l) rest =
    (if l \<noteq> [] \<and> hd l = comma then parse_fields (acc @ [f]) (tl l) rest
     else if chomp l = [] then Inr (acc @ [f], rest) else Inl QuoteError)"
  using parse_quoted_escape [of l acc "[]" f rest]
  by (subst parse_fields.simps) (simp add: quote_field_def)

lemma parse_render_record:
  "fs \<noteq> [] \<Longrightarrow> parse_fields acc (render_record fs) rest = Inr (acc @ fs, rest)"
proof (induction fs arbitrary: acc)
  case (Cons f fs)
  show ?case
  proof (cases fs)
    case Nil
    then show ?thesis
      using parse_quote_field [of "[nl]" acc f rest] by (simp add: render_record_def chomp_def)
  next
    case (Cons g gs)
    then have "render_record (f # fs) = quote_field f @ comma # render_record fs"
      by (simp add: render_record_def)
    then show ?thesis
      using parse_quote_field [of "comma # render_record fs" acc f rest] Cons.IH [of "acc @ [f]"] Cons
      by simp
  qed
qed simp

text \<open>The printed record is one line when no field holds a line break.\<close>

definition plain_field :: "string \<Rightarrow> bool" where
  "plain_field f \<longleftrightarrow> nl \<notin> set f \<and> cr \<notin> set f"

lemma split_lines_append:
  "nl \<notin> set xs \<Longrightarrow> split_lines acc (xs @ nl # ys) = end_line (acc @ xs) # split_lines [] ys"
  by (induction xs arbitrary: acc) auto

lemma nl_join:
  "(\<And>x. x \<in> set xs \<Longrightarrow> c \<notin> set x) \<Longrightarrow> c \<notin> set sep \<Longrightarrow> c \<notin> set (join sep xs)"
  by (induction sep xs rule: join.induct) auto

lemma nl_quote_field: "nl \<notin> set f \<Longrightarrow> nl \<notin> set (quote_field f)"
  by (induction f) (auto simp: quote_field_def)

lemma last_join_quote: "fs \<noteq> [] \<Longrightarrow> last (join [comma] (map quote_field fs)) = quot \<and> join [comma] (map quote_field fs) \<noteq> []"
proof (induction fs)
  case (Cons f fs)
  then show ?case by (cases fs) (auto simp: quote_field_def)
qed simp

lemma csv_lines_render:
  "(\<And>r. r \<in> set rs \<Longrightarrow> r \<noteq> [] \<and> list_all plain_field r) \<Longrightarrow> csv_lines (render_table rs) = map render_record rs"
proof (induction rs)
  case (Cons r rs)
  then have "r \<noteq> []" and plain: "list_all plain_field r" by simp_all
  let ?line = "join [comma] (map quote_field r)"
  have "nl \<notin> set ?line"
    using plain by (intro nl_join) (auto simp: list_all_iff plain_field_def nl_quote_field)
  moreover have "end_line ?line = ?line @ [nl]"
    using last_join_quote [OF \<open>r \<noteq> []\<close>] by (simp add: end_line_def)
  ultimately have "csv_lines (render_record r @ t) = render_record r # csv_lines t" for t
    by (simp add: csv_lines_def render_record_def split_lines_append)
  with Cons show ?case by (simp add: render_table_def)
qed (simp add: csv_lines_def render_table_def last_line_def)

lemma ReadAll_render:
  assumes "\<And>r. r \<in> set rs \<Longrightarrow> r \<noteq> [] \<and> list_all plain_field r"
  shows "ReadAll (render_table rs) = Inr rs"
proof -
  have "chomp (render_record r) \<noteq> []" if "r \<noteq> []" for r
    using last_join_quote [OF that] by (simp add: render_record_def chomp_def)
  then have "read_records (map render_record rs) = Inr rs"
    using assms by (induction rs) (simp_all add: parse_render_record)
  with csv_lines_render [OF assms] show ?thesis by (simp add: ReadAll_def)
qed

end
