(* ===== verification/GoParse.thy ===== *)
theory GoParse
  imports GoText
begin

text \<open>
  \<open>strconv.ParseFloat(s, 64)\<close> and \<open>time.ParseDuration\<close>, following the library's scanners:
  decimal and hexadecimal floating-point literals with their underscore rule, the special
  values, the range error; durations as sums of a decimal number and a unit, computed in
  \<open>uint64\<close> with the library's overflow checks.
\<close>

subsection \<open>ParseFloat\<close>

definition hex_val :: "char \<Rightarrow> int option" where
  "hex_val c =
    (if is_digit c then Some (digit_val c)
     else if 97 \<le> lower c \<and> lower c \<le> 102 then Some (lower c - 87) else None)"

definition mant_digit :: "bool \<Rightarrow> char \<Rightarrow> int option" where
  "mant_digit hex c = (if hex then hex_val c else if is_digit c then Some (digit_val c) else None)"

text \<open>The mantissa: all its digits as one integer, the number of digits after the point, whether
  a digit was seen, and the rest of the input.\<close>

fun scan_mant :: "bool \<Rightarrow> int \<Rightarrow> int \<Rightarrow> bool \<Rightarrow> bool \<Rightarrow> string \<Rightarrow> int \<times> int \<times> bool \<times> string" where
  "scan_mant hex m nf dot dig [] = (m, nf, dig, [])"
| "scan_mant hex m nf dot dig (c # cs) =
    (if c = CHR ''_'' then scan_mant hex m nf dot dig cs
     else if c = CHR ''.'' then
       (if dot then (m, nf, dig, c # cs) else scan_mant hex m nf True dig cs)
     else (case mant_digit hex c of
         Some v \<Rightarrow> scan_mant hex ((if hex then 16 else 10) * m + v) (if dot then nf + 1 else nf) dot True cs
       | None \<Rightarrow> (m, nf, dig, c # cs)))"

fun scan_exp :: "int \<Rightarrow> string \<Rightarrow> int \<times> string" where
  "scan_exp e [] = (e, [])"
| "scan_exp e (c # cs) =
    (if c = CHR ''_'' then scan_exp e cs
     else if is_digit c then scan_exp (if e < 10000 then 10 * e + digit_val c else e) cs
     else (e, c # cs))"

definition read_exp :: "bool \<Rightarrow> string \<Rightarrow> (int \<times> string) option" where
  "read_exp hex s =
    (case s of
       [] \<Rightarrow> if hex then None else Some (0, [])
     | c # cs \<Rightarrow>
         if lower c = (if hex then 112 else 101) then
           (let (neg, ds) = sign cs
            in case ds of
                 [] \<Rightarrow> None
               | d # _ \<Rightarrow> if is_digit d
                   then (let (e, r) = scan_exp 0 ds in Some (if neg then - e else e, r))
                   else None)
         else if hex then None else Some (0, s))"

datatype saw = Start | Digit | Under | Other

fun underscores :: "bool \<Rightarrow> saw \<Rightarrow> string \<Rightarrow> bool" where
  "underscores hex w [] = (w \<noteq> Under)"
| "underscores hex w (c # cs) =
    (if is_digit c \<or> hex \<and> hex_val c \<noteq> None then underscores hex Digit cs
     else if c = CHR ''_'' then w = Digit \<and> underscores hex Under cs
     else w \<noteq> Under \<and> underscores hex Other cs)"

definition underscoreOK :: "string \<Rightarrow> bool" where
  "underscoreOK s =
    (let t = snd (sign s)
     in case t of
          a # b # r \<Rightarrow> if a = CHR ''0'' \<and> lower b \<in> {98, 111, 120}
            then underscores (lower b = 120) Digit r else underscores False Start t
        | _ \<Rightarrow> underscores False Start t)"

definition special :: "string \<Rightarrow> float64 option" where
  "special s =
    (let (neg, t) = sign s; l = map lower t
     in if l = map lower ''inf'' \<or> l = map lower ''infinity'' then Some (Inf neg)
        else if map lower s = map lower ''nan'' then Some NaN else None)"

definition pow10 :: "int \<Rightarrow> int \<times> int" where
  "pow10 e = (if e \<ge> 0 then (10 ^ nat e, 1) else (1, 10 ^ nat (- e)))"

definition hex_prefix :: "string \<Rightarrow> bool" where
  "hex_prefix s = (case s of a # b # _ # _ \<Rightarrow> a = CHR ''0'' \<and> lower b = 120 | _ \<Rightarrow> False)"

definition ParseFloat :: "string \<Rightarrow> float64 option" where
  "ParseFloat s =
    (case special s of Some v \<Rightarrow> Some v | None \<Rightarrow>
      (let (neg, t) = sign s; hex = hex_prefix t;
           (m, nf, dig, r) = scan_mant hex 0 0 False False (if hex then drop 2 t else t)
       in if \<not> dig then None
          else (case read_exp hex r of
              None \<Rightarrow> None
            | Some (e, r') \<Rightarrow>
                if r' \<noteq> [] \<or> CHR ''_'' \<in> set s \<and> \<not> underscoreOK s then None
                else let (n, d) = (if hex then pow2 (e - 4 * nf) else pow10 (e - nf));
                         v = round64 neg (m * n) d
                  in (case v of Inf _ \<Rightarrow> None | _ \<Rightarrow> Some v))))"

lemma scan_mant_digits:
  "list_all is_digit ds \<Longrightarrow>
    scan_mant False m nf False dig ds = (foldl (\<lambda>a c. 10 * a + digit_val c) m ds, nf, dig \<or> ds \<noteq> [], [])"
proof (induction ds arbitrary: m dig)
  case (Cons c ds)
  then have "c \<noteq> CHR ''_''" "c \<noteq> CHR ''.''" and "mant_digit False c = Some (digit_val c)"
    by (auto simp: is_digit_def code_def mant_digit_def)
  with Cons show ?case by simp
qed simp

lemma special_digits:
  assumes "list_all is_digit ds"
  shows "special ds = None"
proof (cases ds)
  case Nil
  then show ?thesis by (simp add: special_def sign_def)
next
  case (Cons c r)
  with assms have c: "is_digit c" by simp
  then have "lower c < 58" by (auto simp: lower_def is_digit_def)
  then have "lower c \<noteq> lower (CHR ''i'')" "lower c \<noteq> lower (CHR ''n'')"
    by (auto simp: lower_def code_def)
  with Cons assms sign_digits [of ds] show ?thesis by (simp add: special_def)
qed

text \<open>A plain numeral parses to the conversion of its integer value.\<close>

lemma ParseFloat_digits:
  assumes ds: "list_all is_digit ds" "ds \<noteq> []" and small: "digits_val ds \<le> 2 ^ 53"
  shows "ParseFloat ds = Some (of_int64 (digits_val ds))"
proof -
  have pos: "digits_val ds \<ge> 0"
  proof -
    have "m \<ge> 0 \<Longrightarrow> foldl (\<lambda>a c. 10 * a + digit_val c) m ds \<ge> 0" for m
      using ds(1)
    proof (induction ds arbitrary: m)
      case (Cons c ds)
      then have "digit_val c \<ge> 0" by (simp add: is_digit_def digit_val_def)
      with Cons.prems(1) have "10 * m + digit_val c \<ge> 0" by simp
      with Cons show ?case by simp
    qed simp
    then show ?thesis by (simp add: digits_val_def)
  qed
  have nohex: "hex_prefix ds = False"
  proof (rule ccontr)
    assume "hex_prefix ds \<noteq> False"
    then obtain a b c r where "ds = a # b # c # r" and "lower b = 120"
      by (auto simp: hex_prefix_def split: list.splits)
    with ds(1) show False by (auto simp: lower_def is_digit_def)
  qed
  have nou: "CHR ''_'' \<notin> set ds" using ds(1) by (auto simp: list_all_iff is_digit_def code_def)
  have fin: "of_int64 (digits_val ds) \<noteq> Inf b" for b
    using to_int_of_int64 [of "digits_val ds"] small pos by auto
  show ?thesis
    using scan_mant_digits [OF ds(1), of 0 0 False] nohex nou fin pos ds(2)
    by (auto simp: ParseFloat_def special_digits [OF ds(1)] sign_digits ds read_exp_def pow10_def
        digits_val_def of_int64_def Let_def split: float64.splits)
qed

subsection \<open>ParseDuration\<close>

definition mul64 :: "float64 \<Rightarrow> float64 \<Rightarrow> float64" where
  "mul64 x y = (case (x, y) of
      (Fin s m e, Fin s' m' e') \<Rightarrow> (let (n, d) = pow2 (e + e') in round64 (s \<noteq> s') (m * m' * n) d)
    | _ \<Rightarrow> NaN)"

text \<open>\<open>uint64(x)\<close> of a finite non-negative number: truncation.\<close>

definition trunc64 :: "float64 \<Rightarrow> int" where
  "trunc64 x = (case frac x of Some (n, d) \<Rightarrow> n div d | None \<Rightarrow> 0)"

fun leadingInt :: "int \<Rightarrow> string \<Rightarrow> (int \<times> string) option" where
  "leadingInt x [] = Some (x, [])"
| "leadingInt x (c # cs) =
    (if \<not> is_digit c then Some (x, c # cs)
     else if x > 2 ^ 63 div 10 then None
     else let y = x * 10 + digit_val c in if y > 2 ^ 63 then None else leadingInt y cs)"

fun leadingFraction :: "int \<Rightarrow> int \<Rightarrow> bool \<Rightarrow> string \<Rightarrow> int \<times> int \<times> string" where
  "leadingFraction x sc ovf [] = (x, sc, [])"
| "leadingFraction x sc ovf (c # cs) =
    (if \<not> is_digit c then (x, sc, c # cs)
     else if ovf \<or> x > (2 ^ 63 - 1) div 10 then leadingFraction x sc True cs
     else let y = x * 10 + digit_val c
       in if y > 2 ^ 63 then leadingFraction x sc True cs else leadingFraction y (sc * 10) False cs)"

definition unit_char :: "char \<Rightarrow> bool" where
  "unit_char c \<longleftrightarrow> \<not> (c = CHR ''.'' \<or> is_digit c)"

definition unit_ns :: "string \<Rightarrow> int option" where
  "unit_ns = map_of
    [(''ns'', 1), (''us'', 1000), (map char_of [0xC2, 0xB5, 0x73 :: int], 1000),
     (map char_of [0xCE, 0xBC, 0x73 :: int], 1000), (''ms'', 1000000), (''s'', 1000000000),
     (''m'', 60000000000), (''h'', 3600000000000)]"

text \<open>The optional \<open>.digits\<close>: digits as an integer, the scale, the rest, whether any digit was there.\<close>

definition fraction_part :: "string \<Rightarrow> int \<times> int \<times> string \<times> bool" where
  "fraction_part s1 =
    (case s1 of
       d # t \<Rightarrow> if d = CHR ''.''
         then (let (f, sc, t') = leadingFraction 0 1 False t in (f, sc, t', length t' \<noteq> length t))
         else (0, 1, s1, False)
     | [] \<Rightarrow> (0, 1, [], False))"

text \<open>One \<open>number unit\<close> component: its nanoseconds and the rest of the input.\<close>

definition duration_item :: "string \<Rightarrow> (int \<times> string) option" where
  "duration_item s =
    (case s of [] \<Rightarrow> None | c # _ \<Rightarrow>
      if \<not> (c = CHR ''.'' \<or> is_digit c) then None
      else (case leadingInt 0 s of None \<Rightarrow> None | Some (v, s1) \<Rightarrow>
        (let pre = (length s1 \<noteq> length s);
             (f, sc, s2, post) = fraction_part s1;
             u = takeWhile unit_char s2; s3 = dropWhile unit_char s2
         in if \<not> pre \<and> \<not> post \<or> u = [] then None
            else (case unit_ns u of None \<Rightarrow> None | Some unit \<Rightarrow>
              if v > 2 ^ 63 div unit then None
              else let w = v * unit +
                     (if f > 0 then trunc64 (mul64 (of_int64 f) (div_const (of_int64 unit) sc)) else 0)
                in if f > 0 \<and> w > 2 ^ 63 then None else Some (w, s3)))))"

lemma leadingFraction_length: "leadingFraction x sc ovf s = (x', sc', s') \<Longrightarrow> length s' \<le> length s"
  by (induction x sc ovf s rule: leadingFraction.induct)
    (auto simp: Let_def split: if_splits intro: le_SucI)

lemma leadingInt_length: "leadingInt x s = Some (x', s') \<Longrightarrow> length s' \<le> length s"
  by (induction x s rule: leadingInt.induct) (auto simp: Let_def split: if_splits intro: le_SucI)

lemma dropWhile_unit_length: "takeWhile p s \<noteq> [] \<Longrightarrow> length (dropWhile p s) < length s"
  by (cases s) (auto simp: length_dropWhile_le le_imp_less_Suc split: if_splits)

lemma fraction_part_length: "fraction_part s = (f, sc, s', post) \<Longrightarrow> length s' \<le> length s"
  by (auto simp: fraction_part_def split: list.splits if_splits prod.splits
      dest!: leadingFraction_length)

lemma duration_item_length:
  assumes "duration_item s = Some (v, r)"
  shows "length r < length s"
proof -
  from assms obtain v1 s1 where s1: "leadingInt 0 s = Some (v1, s1)"
    by (auto simp: duration_item_def split: list.splits option.splits if_splits)
  obtain f sc s2 post where s2: "fraction_part s1 = (f, sc, s2, post)"
    by (metis prod_cases4)
  from assms s1 s2 have "takeWhile unit_char s2 \<noteq> []" and "r = dropWhile unit_char s2"
    by (auto simp: duration_item_def Let_def split: list.splits option.splits if_splits)
  then show ?thesis
    using leadingInt_length [OF s1] fraction_part_length [OF s2] dropWhile_unit_length [of unit_char s2]
    by simp
qed

text \<open>The loop over the components; \<open>d += v\<close> is a \<open>uint64\<close> sum.\<close>

function duration_items :: "int \<Rightarrow> string \<Rightarrow> int option" where
  "duration_items d s =
    (if s = [] then Some d
     else (case duration_item s of None \<Rightarrow> None | Some (v, r) \<Rightarrow>
       (let d' = (d + v) mod 2 ^ 64 in if d' > 2 ^ 63 then None else duration_items d' r)))"
  by pat_completeness auto
termination
  by (relation "measure (\<lambda>(d, s). length s)") (auto simp: duration_item_length)

declare duration_items.simps [simp del]

definition ParseDuration :: "string \<Rightarrow> int option" where
  "ParseDuration orig =
    (let (neg, s) = sign orig
     in if s = ''0'' then Some 0
        else if s = [] then None
        else (case duration_items 0 s of None \<Rightarrow> None | Some d \<Rightarrow>
          if neg then Some (- d) else if d > 2 ^ 63 - 1 then None else Some d))"

text \<open>The scanners on concrete inputs, evaluated by the kernel.\<close>

lemma ParseFloat_scientific: "ParseFloat ''1.5e3'' = Some (Fin False 375 2)"
  by code_simp

lemma ParseFloat_hex: "ParseFloat ''0x1p-2'' = Some (Fin False 1 (-2))"
  by code_simp

lemma ParseFloat_junk: "ParseFloat ''abc'' = None"
  by code_simp

lemma ParseDuration_compound: "ParseDuration ''1h30m'' = Some 5400000000000"
  by code_simp

lemma ParseDuration_fraction: "ParseDuration ''-1.5s'' = Some (-1500000000)"
  by code_simp

lemma ParseDuration_no_unit: "ParseDuration ''.5'' = None"
  by code_simp

end
