(* ===== verification/GoPath.thy ===== *)
theory GoPath
  imports GoText
begin

text \<open>
  The part of Go's \<open>path\<close> and \<open>path/filepath\<close> (Unix) that the exporter uses: \<open>Base\<close>, \<open>Clean\<close>, \<open>Dir\<close>
  and \<open>Join\<close>. Cleaning is the lexical rule of the library: drop empty and \<open>.\<close> elements, let \<open>..\<close>
  cancel the element before it, and keep \<open>..\<close> only at the front of a relative path.

  Lemmas: a cleaned path is clean (\<open>Clean\<close> is idempotent), and joining a plain file name to a
  directory keeps the name as the base.
\<close>

abbreviation slash :: char where "slash \<equiv> CHR ''/''"

definition path_base :: "string \<Rightarrow> string" where
  "path_base p =
    (if p = [] then ''.''
     else let t = dropWhile (\<lambda>c. c = slash) (rev p); b = rev (takeWhile (\<lambda>c. c \<noteq> slash) t)
       in if b = [] then ''/'' else b)"

text \<open>The elements kept so far are a stack, the last one on top.\<close>

definition clean_push :: "bool \<Rightarrow> string list \<Rightarrow> string \<Rightarrow> string list" where
  "clean_push rooted out c =
    (if c = [] \<or> c = ''.'' then out
     else if c = ''..'' then
       (case out of
          [] \<Rightarrow> if rooted then [] else [c]
        | x # xs \<Rightarrow> if x = ''..'' then c # out else xs)
     else c # out)"

definition clean_elems :: "bool \<Rightarrow> string list \<Rightarrow> string list" where
  "clean_elems rooted cs = rev (foldl (clean_push rooted) [] cs)"

definition rooted :: "string \<Rightarrow> bool" where
  "rooted p \<longleftrightarrow> p \<noteq> [] \<and> hd p = slash"

definition path_clean :: "string \<Rightarrow> string" where
  "path_clean p =
    (let body = join ''/'' (clean_elems (rooted p) (split_on slash p))
     in if rooted p then slash # body else if body = [] then ''.'' else body)"

definition path_dir :: "string \<Rightarrow> string" where
  "path_dir p = path_clean (rev (dropWhile (\<lambda>c. c \<noteq> slash) (rev p)))"

definition path_join :: "string list \<Rightarrow> string" where
  "path_join elems =
    (let es = filter (\<lambda>e. e \<noteq> []) elems in if es = [] then [] else path_clean (join ''/'' es))"

subsection \<open>Clean paths\<close>

text \<open>A stack of a clean path: plain elements above, and \<open>..\<close> only below in a relative path.\<close>

definition plain_elem :: "string \<Rightarrow> bool" where
  "plain_elem c \<longleftrightarrow> c \<noteq> [] \<and> c \<noteq> ''.'' \<and> c \<noteq> ''..'' \<and> slash \<notin> set c"

definition stack_ok :: "bool \<Rightarrow> string list \<Rightarrow> bool" where
  "stack_ok r out \<longleftrightarrow> (\<exists>xs n. out = xs @ replicate n ''..'' \<and> list_all plain_elem xs \<and> (r \<longrightarrow> n = 0))"

lemma push_ok:
  assumes "stack_ok r out" and "slash \<notin> set c"
  shows "stack_ok r (clean_push r out c)"
proof -
  from assms(1) obtain xs n where out: "out = xs @ replicate n ''..''" "list_all plain_elem xs" "r \<longrightarrow> n = 0"
    by (auto simp: stack_ok_def)
  consider "c = [] \<or> c = ''.''" | "c = ''..''" | "plain_elem c"
    using assms(2) by (auto simp: plain_elem_def)
  then show ?thesis
  proof cases
    case 1
    with assms(1) show ?thesis by (simp add: clean_push_def)
  next
    case 2
    show ?thesis
    proof (cases xs)
      case Nil
      with out 2 have "clean_push r out c = (if r then [] else replicate (Suc n) ''..'')"
        by (cases n) (auto simp: clean_push_def)
      then show ?thesis
        unfolding stack_ok_def by (intro exI [of _ "[]"] exI [of _ "if r then 0 else Suc n"]) simp
    next
      case (Cons x ys)
      with out 2 have "clean_push r out c = ys @ replicate n ''..''" "list_all plain_elem ys"
        by (auto simp: clean_push_def plain_elem_def)
      with out(3) show ?thesis unfolding stack_ok_def by blast
    qed
  next
    case 3
    with out have "clean_push r out c = (c # xs) @ replicate n ''..''" "list_all plain_elem (c # xs)"
      by (auto simp: clean_push_def plain_elem_def)
    with out(3) show ?thesis unfolding stack_ok_def by blast
  qed
qed

lemma split_no_sep: "x \<in> set (split_on c xs) \<Longrightarrow> c \<notin> set x"
  by (induction c xs arbitrary: x rule: split_on.induct) (auto split: if_splits list.splits)

lemma foldl_push_ok:
  "stack_ok r out \<Longrightarrow> (\<And>c. c \<in> set cs \<Longrightarrow> slash \<notin> set c) \<Longrightarrow> stack_ok r (foldl (clean_push r) out cs)"
  by (induction cs arbitrary: out) (simp_all add: push_ok)

lemma clean_elems_ok: "stack_ok (rooted p) (rev (clean_elems (rooted p) (split_on slash p)))"
proof -
  have "stack_ok r []" for r
    unfolding stack_ok_def by (intro exI [of _ "[]"] exI [of _ 0]) simp
  then show ?thesis by (simp add: clean_elems_def foldl_push_ok split_no_sep)
qed

text \<open>Cleaning a clean stack changes nothing.\<close>

lemma push_plain: "plain_elem c \<Longrightarrow> clean_push r out c = c # out"
  by (simp add: clean_push_def plain_elem_def)

lemma push_dots: "clean_push False (replicate n ''..'') ''..'' = replicate (Suc n) ''..''"
  by (cases n) (simp_all add: clean_push_def)

lemma foldl_plain: "list_all plain_elem xs \<Longrightarrow> foldl (clean_push r) out xs = rev xs @ out"
  by (induction xs arbitrary: out) (simp_all add: push_plain)

lemma foldl_dots: "foldl (clean_push False) (replicate m ''..'') (replicate n ''..'') = replicate (m + n) ''..''"
proof (induction n arbitrary: m)
  case (Suc n)
  then show ?case using Suc.IH [of "Suc m"] push_dots [of m] by simp
qed simp

lemma clean_stack:
  assumes "stack_ok r out"
  shows "clean_elems r (rev out) = rev out"
proof -
  from assms obtain xs n where out: "out = xs @ replicate n ''..''" "list_all plain_elem xs" "r \<longrightarrow> n = 0"
    by (auto simp: stack_ok_def)
  have "foldl (clean_push r) [] (replicate n ''..'') = replicate n ''..''"
    using foldl_dots [of 0 n] out(3) by (cases r) simp_all
  moreover have "list_all plain_elem (rev xs)" using out(2) by (simp add: list_all_iff)
  ultimately show ?thesis by (simp add: clean_elems_def out(1) foldl_plain)
qed

lemma split_join:
  "es \<noteq> [] \<Longrightarrow> (\<And>e. e \<in> set es \<Longrightarrow> slash \<notin> set e) \<Longrightarrow> split_on slash (join ''/'' es) = es"
proof (induction es)
  case (Cons e es)
  then show ?case by (cases es) (simp_all add: split_on_single split_on_append)
qed simp

lemma stack_no_slash: "stack_ok r out \<Longrightarrow> e \<in> set out \<Longrightarrow> slash \<notin> set e \<and> e \<noteq> []"
proof -
  assume "stack_ok r out" "e \<in> set out"
  then obtain xs n where "e \<in> set xs \<or> e \<in> set (replicate n ''..'')" "list_all plain_elem xs"
    unfolding stack_ok_def by (metis Un_iff set_append)
  then have "plain_elem e \<or> e = ''..''" by (auto simp: list_all_iff)
  then show ?thesis by (auto simp: plain_elem_def)
qed

lemma join_empty: "join sep es = [] \<Longrightarrow> (\<And>e. e \<in> set es \<Longrightarrow> e \<noteq> []) \<Longrightarrow> es = []"
  by (induction sep es rule: join.induct) auto

lemma join_hd: "es \<noteq> [] \<Longrightarrow> hd es \<noteq> [] \<Longrightarrow> join sep es \<noteq> [] \<and> hd (join sep es) = hd (hd es)"
  by (induction sep es rule: join.induct) auto

theorem path_clean_idem: "path_clean (path_clean p) = path_clean p"
proof -
  define r es where "r = rooted p" and "es = clean_elems r (split_on slash p)"
  have ok: "stack_ok r (rev es)" using clean_elems_ok [of p] by (simp add: r_def es_def)
  have plain: "slash \<notin> set e \<and> e \<noteq> []" if "e \<in> set es" for e
    using stack_no_slash [OF ok] that by simp
  have again: "clean_elems r es = es" using clean_stack [OF ok] by simp
  have drop1: "clean_elems r ([] # cs) = clean_elems r cs" for cs
    by (simp add: clean_elems_def clean_push_def)
  consider "r" "es = []" | "r" "es \<noteq> []" | "\<not> r" "es = []" | "\<not> r" "es \<noteq> []" by blast
  then show ?thesis
  proof cases
    case 1
    then have "path_clean p = ''/''" by (simp add: path_clean_def r_def es_def Let_def)
    then show ?thesis by (simp add: path_clean_def rooted_def clean_elems_def clean_push_def)
  next
    case 2
    then have c: "path_clean p = slash # join ''/'' es" by (simp add: path_clean_def r_def es_def Let_def)
    moreover have "split_on slash (slash # join ''/'' es) = [] # es"
      using split_join [OF 2(2)] plain by simp
    ultimately show ?thesis using 2 again drop1 [of es]
      by (simp add: path_clean_def [of "slash # join ''/'' es"] rooted_def)
  next
    case 3
    then have "path_clean p = ''.''" by (simp add: path_clean_def r_def es_def Let_def)
    then show ?thesis by (simp add: path_clean_def rooted_def clean_elems_def clean_push_def)
  next
    case 4
    have ne: "join ''/'' es \<noteq> []" using join_empty [of "''/''" es] 4(2) plain by blast
    with 4 have c: "path_clean p = join ''/'' es" by (simp add: path_clean_def r_def es_def Let_def)
    have "hd es \<in> set es" using 4(2) by simp
    then have "hd (join ''/'' es) \<noteq> slash"
      using plain [of "hd es"] join_hd [OF 4(2)] by (metis hd_in_set)
    then have "\<not> rooted (join ''/'' es)" by (simp add: rooted_def)
    with 4 again c ne split_join [OF 4(2)] plain show ?thesis
      by (simp add: path_clean_def [of "join ''/'' es"])
  qed
qed

lemma join_snoc: "join sep (es @ [f]) = (if es = [] then f else join sep es @ sep @ f)"
proof (induction sep es rule: join.induct)
  case (3 sep x y ys)
  then show ?case by simp
qed simp_all

lemma path_base_last:
  assumes "plain_elem f"
  shows "path_base (d @ slash # f) = f" and "path_base f = f"
proof -
  have f: "f \<noteq> []" "slash \<notin> set f" using assms by (simp_all add: plain_elem_def)
  then have dw: "dropWhile (\<lambda>c. c = slash) (rev f @ xs) = rev f @ xs" for xs
    by (cases f rule: rev_cases) auto
  have tw: "takeWhile (\<lambda>c. c \<noteq> slash) (rev f @ xs) = rev f @ takeWhile (\<lambda>c. c \<noteq> slash) xs" for xs
    by (rule takeWhile_append2) (use f(2) in auto)
  have end1: "dropWhile (\<lambda>c. c = slash) (rev f) = rev f" using dw [of "[]"] by (simp only: append_Nil2)
  have end2: "takeWhile (\<lambda>c. c \<noteq> slash) (rev f) = rev f" using tw [of "[]"] by (simp only: append_Nil2 takeWhile.simps)
  show "path_base f = f"
    using f(1) by (simp only: path_base_def Let_def end1 end2) simp
  have "rev (d @ slash # f) = rev f @ slash # rev d" by simp
  then show "path_base (d @ slash # f) = f"
    using f(1) by (simp only: path_base_def Let_def dw tw) simp
qed

theorem path_base_join:
  assumes "plain_elem f" and "d \<noteq> []"
  shows "path_base (path_join [d, f]) = f"
proof -
  have f: "f \<noteq> []" "slash \<notin> set f" using assms(1) by (simp_all add: plain_elem_def)
  have "split_on slash (xs @ slash # f) = split_on slash xs @ [f]" for xs
    by (induction xs) (auto simp: split_on_single [OF f(2)] split_on_Nil split: list.split)
  then have "clean_elems r (split_on slash (d @ slash # f)) = clean_elems r (split_on slash d) @ [f]" for r
    by (simp add: clean_elems_def push_plain [OF assms(1)])
  moreover have "path_join [d, f] = path_clean (d @ slash # f)"
    using assms(2) f(1) by (simp add: path_join_def)
  moreover define es where "es = clean_elems (rooted (d @ slash # f)) (split_on slash d)"
  moreover define body where "body = (if es = [] then f else (join ''/'' es @ slash # f))"
  ultimately have "path_join [d, f] = (if rooted (d @ slash # f) then slash # body else body)"
    using f(1) by (simp add: path_clean_def join_snoc Let_def)
  moreover have "body = f \<or> (\<exists>pre. body = pre @ slash # f)" by (auto simp: body_def)
  ultimately have "path_join [d, f] = f \<or> (\<exists>pre. path_join [d, f] = pre @ slash # f)"
    by (metis append_Cons append_Nil)
  with path_base_last [OF assms(1)] show ?thesis by auto
qed

end
