(* ===== verification/Http.thy ===== *)
theory Http
  imports GoText
begin

text \<open>
  HTTP as the raw bulk path uses it, and \<open>internal/powerstore/trace_transport.go\<close>: the
  round tripper that logs response bodies under \<open>--trace\<close>. The network is a parameter
  (\<open>http_env\<close>: parsing a URL, performing a request over a transport). A body is whatever reading it in full
  delivers, or the error of reading it.

  Lemmas: the tracing transport changes neither status nor body of a response that was
  read without error, logs nothing for \<open>/login_session\<close>, and one entry per other response.
\<close>

record url =
  URLPath :: string
  URLRedacted :: string

record http_request =
  ReqMethod :: string
  ReqURL :: url
  ReqAuth :: "string \<times> string"
  ReqHeaders :: "(string \<times> string) list"

record 'b http_response =
  StatusCode :: int
  ContentType :: string
  Body :: "err + 'b"
  CloseError :: "err option"

text \<open>
  A transport performs a request. \<open>tls_transport\<close> is the transport of \<open>net/http\<close> for a setting of
  \<open>InsecureSkipVerify\<close>, \<open>default_transport\<close> the one of the library.
\<close>

type_synonym 'b transport = "http_request \<Rightarrow> err + 'b http_response"

record 'b http_env =
  new_request :: "string \<Rightarrow> err + url"
  default_transport :: "'b transport"
  tls_transport :: "bool \<Rightarrow> 'b transport"

subsection \<open>The tracing transport\<close>

record 'b trace_entry =
  TraceArray :: string
  TraceMethod :: string
  TraceURL :: string
  TraceStatus :: int
  TraceBody :: "'b option" \<comment> \<open>\<open>None\<close>: only the size is logged\<close>

definition hasSuffix :: "string \<Rightarrow> string \<Rightarrow> bool" where
  "hasSuffix s t \<longleftrightarrow> length t \<le> length s \<and> drop (length s - length t) s = t"

definition hasPrefix :: "string \<Rightarrow> string \<Rightarrow> bool" where
  "hasPrefix s t \<longleftrightarrow> take (length t) s = t"

fun contains :: "int list \<Rightarrow> int list \<Rightarrow> bool" where
  "contains [] t = (t = [])"
| "contains (x # xs) t = (take (length t) (x # xs) = t \<or> contains xs t)"

definition printableBody :: "string \<Rightarrow> bool" where
  "printableBody contentType =
    (let ct = map lower contentType
     in contains ct (map lower ''json'') \<or> contains ct (map lower ''xml'') \<or>
        take 5 ct = map lower ''text/'')"

definition RoundTrip ::
  "string \<Rightarrow> 'b transport \<Rightarrow> http_request \<Rightarrow> (err + 'b http_response) \<times> 'b trace_entry list" where
  "RoundTrip array next req =
    (case next req of
       Inl e \<Rightarrow> (Inl e, [])
     | Inr resp \<Rightarrow>
         if hasSuffix (URLPath (ReqURL req)) ''/login_session'' then (Inr resp, [])
         else (case Body resp of
             Inl e \<Rightarrow> (Inl (Wrap ''trace: read response body'' e), [])
           | Inr body \<Rightarrow>
               (case CloseError resp of
                  Some e \<Rightarrow> (Inl (Wrap ''trace: close response body'' e), [])
                | None \<Rightarrow>
                    (Inr (resp\<lparr>Body := Inr body, CloseError := None\<rparr>),
                     [\<lparr>TraceArray = array, TraceMethod = ReqMethod req,
                       TraceURL = URLRedacted (ReqURL req), TraceStatus = StatusCode resp,
                       TraceBody = (if printableBody (ContentType resp) then Some body else None)\<rparr>]))))"

text \<open>The wrapper is a transport too, over the library's own one if it is given none.\<close>

definition newTracingRoundTripper :: "'b http_env \<Rightarrow> string \<Rightarrow> 'b transport option \<Rightarrow> 'b transport" where
  "newTracingRoundTripper http array next =
    (let next = (case next of None \<Rightarrow> default_transport http | Some t \<Rightarrow> t)
     in (\<lambda>req. fst (RoundTrip array next req)))"

text \<open>The HTTP client of the bulk path: the transport has the array's TLS setting and is wrapped when tracing is on.\<close>

definition bulk_client :: "'b http_env \<Rightarrow> bool \<Rightarrow> bool \<Rightarrow> string \<Rightarrow> 'b transport" where
  "bulk_client http insecure trace array =
    (let transport = tls_transport http insecure
     in if trace then newTracingRoundTripper http array (Some transport) else transport)"

lemma RoundTrip_transparent:
  "next req = Inr resp \<Longrightarrow> Body resp = Inr b \<Longrightarrow> CloseError resp = None \<Longrightarrow>
    fst (RoundTrip a next req) = Inr resp"
  by (simp add: RoundTrip_def)

lemma RoundTrip_response:
  "fst (RoundTrip a next req) = Inr resp \<Longrightarrow>
    \<exists>r. next req = Inr r \<and> StatusCode r = StatusCode resp \<and> Body r = Body resp"
  by (auto simp: RoundTrip_def split: sum.splits if_splits option.splits)

lemma RoundTrip_login:
  "hasSuffix (URLPath (ReqURL req)) ''/login_session'' \<Longrightarrow> snd (RoundTrip a next req) = []"
  by (simp add: RoundTrip_def split: sum.split)

text \<open>One entry for each response passed on outside the login, with the body only if text-like.\<close>

lemma RoundTrip_logged:
  "snd (RoundTrip a next req) = [t] \<Longrightarrow>
    \<exists>resp b. next req = Inr resp \<and> Body resp = Inr b \<and> TraceStatus t = StatusCode resp \<and>
      TraceBody t = (if printableBody (ContentType resp) then Some b else None)"
  by (auto simp: RoundTrip_def split: sum.splits if_splits option.splits)

text \<open>
  What is logged does not depend on the credentials: they travel in the headers, and the
  login, whose body holds a session, is not logged.
\<close>

lemma RoundTrip_credentials:
  "snd (RoundTrip a (\<lambda>_. r) (req\<lparr>ReqAuth := auth, ReqHeaders := hs\<rparr>)) = snd (RoundTrip a (\<lambda>_. r) req)"
  by (simp add: RoundTrip_def split: sum.split option.split)

end
