(* ===== verification/Bulk.thy ===== *)
theory Bulk
  imports Csv GoParse GoPath DeriveFacts Http
begin

text \<open>
  \<open>internal/powerstore/bulk.go\<close> and \<open>derive_bulk.go\<close>: the download of the five-minute
  archive, its CSV tables, and the samples derived from the rows.

  The HTTP service of the array is a parameter (\<open>http_env\<close> of \<open>Http\<close>). The gzipped tar of a response
  body is represented by what Go's readers deliver for it: the error of opening the gzip
  stream, or the sequence of results of \<open>tar.Reader.Next\<close> (\<open>archive\<close>).
\<close>

subsection \<open>Download\<close>

datatype tar_item = Entry string bool "err + string" | TarError err

type_synonym archive = "err + tar_item list"

text \<open>What the client keeps of the array's configuration for the raw HTTP path.\<close>

record endpoint =
  EpArray :: string
  EpURL :: string
  EpUsername :: string
  EpPassword :: string
  EpInsecure :: bool
  EpTrace :: bool

text \<open>\<open>strings.TrimRight(endpoint, "/") + "/"\<close>\<close>

definition bulk_base :: "string \<Rightarrow> string" where
  "bulk_base url = rev (dropWhile (\<lambda>c. c = CHR ''/'') (rev url)) @ ''/''"

definition bulkEnable :: "archive http_env \<Rightarrow> archive transport \<Rightarrow> endpoint \<Rightarrow> string \<Rightarrow> err option" where
  "bulkEnable http client ep base =
    (let url = base @ ''latest_five_min_metrics/enable''
     in case new_request http url of
          Inl e \<Rightarrow> Some (Wrap (''array '' @ EpArray ep @ '': build bulk enable request'') e)
        | Inr u \<Rightarrow>
            (case client \<lparr>ReqMethod = ''POST'', ReqURL = u,
                ReqAuth = (EpUsername ep, EpPassword ep),
                ReqHeaders = [(''DELL-VISIBILITY'', ''Partner'')]\<rparr> of
               Inl e \<Rightarrow> Some (Wrap (''array '' @ EpArray ep @ '': bulk enable request'') e)
             | Inr resp \<Rightarrow>
                 if StatusCode resp = 204 \<or> StatusCode resp = 200 \<or> StatusCode resp = 201 then None
                 else Some (Msg (''array '' @ EpArray ep @ '': bulk enable failed''))))"

definition bulkDownload :: "archive http_env \<Rightarrow> archive transport \<Rightarrow> endpoint \<Rightarrow> string \<Rightarrow> err + archive" where
  "bulkDownload http client ep base =
    (let url = base @ ''latest_five_min_metrics/download''
     in case new_request http url of
          Inl e \<Rightarrow> Inl (Wrap (''array '' @ EpArray ep @ '': build bulk download request'') e)
        | Inr u \<Rightarrow>
            (case client \<lparr>ReqMethod = ''POST'', ReqURL = u,
                ReqAuth = (EpUsername ep, EpPassword ep),
                ReqHeaders = [(''DELL-VISIBILITY'', ''Partner''), (''If-None-Match'', ''start'')]\<rparr> of
               Inl e \<Rightarrow> Inl (Wrap (''array '' @ EpArray ep @ '': bulk download request'') e)
             | Inr resp \<Rightarrow>
                 if StatusCode resp \<noteq> 200 \<and> StatusCode resp \<noteq> 206
                 then Inl (Msg (''array '' @ EpArray ep @ '': bulk download failed''))
                 else (case Body resp of
                     Inl e \<Rightarrow> Inl (Wrap (''array '' @ EpArray ep @ '': read bulk archive'') e)
                   | Inr archive \<Rightarrow> Inr archive)))"

definition downloadBulkArchive :: "archive http_env \<Rightarrow> endpoint \<Rightarrow> err + archive" where
  "downloadBulkArchive http ep =
    (let base = bulk_base (EpURL ep); client = bulk_client http (EpInsecure ep) (EpTrace ep) (EpArray ep)
     in case bulkEnable http client ep base of Some e \<Rightarrow> Inl e | None \<Rightarrow> bulkDownload http client ep base)"

subsection \<open>Archive and CSV\<close>

definition csv_row :: "string list \<Rightarrow> string list \<Rightarrow> smap" where
  "csv_row header r =
    foldl (\<lambda>row i. if i < length r then row(header ! i \<mapsto> r ! i) else row) Map.empty [0..<length header]"

definition csv_err :: "csv_error \<Rightarrow> err" where
  "csv_err e = (case e of BareQuote \<Rightarrow> Msg ''bare quote in non-quoted field''
    | QuoteError \<Rightarrow> Msg ''extraneous or missing quote in quoted field'')"

definition parseCSV :: "err + string \<Rightarrow> err + smap list" where
  "parseCSV r =
    (case r of Inl e \<Rightarrow> Inl e | Inr content \<Rightarrow>
      (case ReadAll content of
         Inl e \<Rightarrow> Inl (csv_err e)
       | Inr [] \<Rightarrow> Inr []
       | Inr (header # recs) \<Rightarrow> Inr (map (csv_row header) recs)))"

type_synonym csv_files = "string \<rightharpoonup> smap list"

fun parse_entries :: "csv_files \<Rightarrow> tar_item list \<Rightarrow> err + csv_files" where
  "parse_entries out [] = Inr out"
| "parse_entries out (TarError e # items) = Inl (Wrap ''tar read'' e)"
| "parse_entries out (Entry name isdir content # items) =
    (if isdir then parse_entries out items
     else (case parseCSV content of
         Inl e \<Rightarrow> Inl (Wrap (''csv '' @ name) e)
       | Inr rows \<Rightarrow> parse_entries (out(path_base name \<mapsto> rows)) items))"

definition parseBulkArchive :: "archive \<Rightarrow> err + csv_files" where
  "parseBulkArchive archive =
    (case archive of Inl e \<Rightarrow> Inl (Wrap ''gzip open'' e) | Inr items \<Rightarrow> parse_entries Map.empty items)"

subsection \<open>derive\_bulk.go\<close>

fun csvFloat :: "smap \<Rightarrow> string list \<Rightarrow> float64" where
  "csvFloat row [] = zero64"
| "csvFloat row (k # keys) =
    (case row k of
       None \<Rightarrow> csvFloat row keys
     | Some raw \<Rightarrow> if raw = [] then csvFloat row keys
         else (case ParseFloat raw of None \<Rightarrow> csvFloat row keys | Some v \<Rightarrow> v))"

definition deriveBulkVolumePerf :: "string \<Rightarrow> topology \<Rightarrow> smap list \<Rightarrow> sample list" where
  "deriveBulkVolumePerf array topo rows =
    concat (map (\<lambda>r.
      let volID = idx r ''volume_id'';
          (name, appl, known) = VolumeInfo topo volID;
          volName = (if name = [] then volID else name);
          applID = (if appl = [] then idx r ''appliance_id'' else appl);
          (vgID, vgName) = VolumeGroupOf topo volID;
          labels = volumeLabels array (ClusterID topo) volName volID applID
            (TopoApplianceName topo applID) vgName vgID
      in [Sample ''powerstore_volume_read_iops'' labels (csvFloat r [''avg_read_iops'', ''read_iops'']),
          Sample ''powerstore_volume_write_iops'' labels (csvFloat r [''avg_write_iops'', ''write_iops'']),
          Sample ''powerstore_volume_total_iops'' labels (csvFloat r [''avg_total_iops'', ''total_iops'']),
          Sample ''powerstore_volume_read_bandwidth_bytes_per_second'' labels
            (csvFloat r [''avg_read_bandwidth'', ''read_bandwidth'']),
          Sample ''powerstore_volume_write_bandwidth_bytes_per_second'' labels
            (csvFloat r [''avg_write_bandwidth'', ''write_bandwidth'']),
          Sample ''powerstore_volume_read_latency_microseconds'' labels (csvFloat r [''avg_read_latency'']),
          Sample ''powerstore_volume_write_latency_microseconds'' labels (csvFloat r [''avg_write_latency'']),
          Sample ''powerstore_volume_avg_io_size_bytes'' labels (csvFloat r [''avg_io_size''])]) rows)"

text \<open>The count in the debug line: rows whose volume is not in the inventory.\<close>

definition bulkVolumeMisses :: "topology \<Rightarrow> smap list \<Rightarrow> nat" where
  "bulkVolumeMisses topo rows =
    length (filter (\<lambda>r. \<not> snd (snd (VolumeInfo topo (idx r ''volume_id'')))) rows)"

definition deriveBulkAppliancePerf :: "string \<Rightarrow> topology \<Rightarrow> smap list \<Rightarrow> sample list" where
  "deriveBulkAppliancePerf array topo rows =
    concat (map (\<lambda>r.
      let applID = idx r ''appliance_id'';
          labels = applianceLabels array (ClusterID topo) (TopoApplianceName topo applID) applID
            (ApplianceServiceTag topo applID)
      in [Sample ''powerstore_appliance_read_iops'' labels (csvFloat r [''avg_read_iops'', ''read_iops'']),
          Sample ''powerstore_appliance_write_iops'' labels (csvFloat r [''avg_write_iops'', ''write_iops'']),
          Sample ''powerstore_appliance_total_iops'' labels (csvFloat r [''avg_total_iops'', ''total_iops'']),
          Sample ''powerstore_appliance_read_bandwidth_bytes_per_second'' labels
            (csvFloat r [''avg_read_bandwidth'', ''read_bandwidth'']),
          Sample ''powerstore_appliance_write_bandwidth_bytes_per_second'' labels
            (csvFloat r [''avg_write_bandwidth'', ''write_bandwidth'']),
          Sample ''powerstore_appliance_read_latency_microseconds'' labels (csvFloat r [''avg_read_latency'']),
          Sample ''powerstore_appliance_write_latency_microseconds'' labels (csvFloat r [''avg_write_latency'']),
          Sample ''powerstore_appliance_io_workload_cpu_utilization'' labels
            (csvFloat r [''avg_io_workload_cpu_utilization'', ''io_workload_cpu_utilization''])]) rows)"

definition deriveBulkApplianceSpace :: "string \<Rightarrow> topology \<Rightarrow> smap list \<Rightarrow> sample list" where
  "deriveBulkApplianceSpace array topo rows =
    concat (map (\<lambda>r.
      let applID = idx r ''appliance_id'';
          labels = applianceLabels array (ClusterID topo) (TopoApplianceName topo applID) applID
            (ApplianceServiceTag topo applID)
      in [Sample ''powerstore_appliance_physical_total_bytes'' labels
            (csvFloat r [''physical_total'', ''last_physical_total'']),
          Sample ''powerstore_appliance_physical_used_bytes'' labels
            (csvFloat r [''physical_used'', ''last_physical_used'']),
          Sample ''powerstore_appliance_logical_provisioned_bytes'' labels
            (csvFloat r [''logical_provisioned'', ''last_logical_provisioned'']),
          Sample ''powerstore_appliance_logical_used_bytes'' labels
            (csvFloat r [''logical_used'', ''last_logical_used'']),
          Sample ''powerstore_appliance_data_reduction_ratio'' labels
            (csvFloat r [''data_reduction'', ''last_data_reduction'']),
          Sample ''powerstore_appliance_efficiency_ratio'' labels
            (csvFloat r [''efficiency_ratio'', ''last_efficiency_ratio'']),
          Sample ''powerstore_appliance_snapshot_savings_ratio'' labels
            (csvFloat r [''snapshot_savings'', ''last_snapshot_savings'']),
          Sample ''powerstore_appliance_thin_savings_ratio'' labels
            (csvFloat r [''thin_savings'', ''last_thin_savings''])]) rows)"

lemmas [derive_defs] = deriveBulkVolumePerf_def deriveBulkAppliancePerf_def deriveBulkApplianceSpace_def

lemma samples_ok_derive_bulk [simp]:
  "samples_ok a (ClusterID t) (deriveBulkVolumePerf a t rows)"
  "samples_ok a (ClusterID t) (deriveBulkAppliancePerf a t rows)"
  "samples_ok a (ClusterID t) (deriveBulkApplianceSpace a t rows)"
  by (auto simp: deriveBulkVolumePerf_def deriveBulkAppliancePerf_def deriveBulkApplianceSpace_def
      Let_def sample_ok intro!: samples_ok_concat split: prod.splits)

end
