(* ===== verification/FanOut.thy ===== *)
theory FanOut
  imports Derive
begin

text \<open>
  \<open>parallelSamples\<close> (\<open>client.go\<close>) and the same pattern in \<open>enumerateAppliances\<close> and \<open>collectAll\<close>:
  one goroutine per item under an \<open>errgroup\<close> limit, each writing the slot of its own index,
  then \<open>Wait\<close>. The loop is a step relation over an explicit state: the launching loop starts the
  items in order and blocks while the group is at its limit; a running goroutine may finish at any
  time. A negative limit is no limit and a limit of zero admits nothing, as \<open>errgroup\<close> documents.

  Lemmas: the number of running goroutines never exceeds the limit; with a non-zero limit a run is
  never stuck before the end and takes exactly two steps per item; every finished run, whatever
  the interleaving, holds in slot \<open>i\<close> the result for item \<open>i\<close>.
\<close>

record 'b fan =
  Next :: nat
  Running :: "nat list"
  Per :: "'b list"

definition fan_start :: "'b \<Rightarrow> 'a list \<Rightarrow> 'b fan" where
  "fan_start blank items = \<lparr>Next = 0, Running = [], Per = replicate (length items) blank\<rparr>"

definition admits :: "int \<Rightarrow> 'b fan \<Rightarrow> bool" where
  "admits limit s \<longleftrightarrow> limit < 0 \<or> int (length (Running s)) < limit"

inductive fan_step :: "int \<Rightarrow> ('a \<Rightarrow> 'b) \<Rightarrow> 'a list \<Rightarrow> 'b fan \<Rightarrow> 'b fan \<Rightarrow> bool"
  for limit :: int and fn :: "'a \<Rightarrow> 'b" and items :: "'a list"
where
  launch: "Next s < length items \<Longrightarrow> admits limit s \<Longrightarrow>
    fan_step limit fn items s (s\<lparr>Next := Suc (Next s), Running := Running s @ [Next s]\<rparr>)"
| finish: "i \<in> set (Running s) \<Longrightarrow>
    fan_step limit fn items s (s\<lparr>Running := remove1 i (Running s), Per := (Per s)[i := fn (items ! i)]\<rparr>)"

inductive_cases fan_stepE: "fan_step limit fn items s t"

definition fan_done :: "'a list \<Rightarrow> 'b fan \<Rightarrow> bool" where
  "fan_done items s \<longleftrightarrow> Next s = length items \<and> Running s = []"

text \<open>
  What a caller sees of the group (\<open>fan_out_runs\<close> below ties it to the steps): the filled slots,
  or nothing when the launching loop blocks for ever.
\<close>

definition fan_out :: "int \<Rightarrow> ('a \<Rightarrow> 'b) \<Rightarrow> 'a list \<Rightarrow> 'b list option" where
  "fan_out limit fn items = (if limit = 0 \<and> items \<noteq> [] then None else Some (map fn items))"

definition parallelSamples :: "'a list \<Rightarrow> int \<Rightarrow> ('a \<Rightarrow> sample list) \<Rightarrow> sample list option" where
  "parallelSamples items limit fn =
    (if items = [] then Some [] else map_option concat (fan_out limit fn items))"

subsection \<open>Invariant\<close>

definition fan_inv :: "int \<Rightarrow> ('a \<Rightarrow> 'b) \<Rightarrow> 'a list \<Rightarrow> 'b fan \<Rightarrow> bool" where
  "fan_inv limit fn items s \<longleftrightarrow>
    Next s \<le> length items \<and> distinct (Running s) \<and> set (Running s) \<subseteq> {..<Next s} \<and>
    (limit \<ge> 0 \<longrightarrow> int (length (Running s)) \<le> limit) \<and> length (Per s) = length items \<and>
    (\<forall>i < Next s. i \<notin> set (Running s) \<longrightarrow> Per s ! i = fn (items ! i))"

lemma fan_inv_start: "fan_inv limit fn items (fan_start blank items)"
  by (simp add: fan_inv_def fan_start_def)

lemma fan_inv_step: "fan_step limit fn items s t \<Longrightarrow> fan_inv limit fn items s \<Longrightarrow> fan_inv limit fn items t"
proof (induction rule: fan_step.induct)
  case (launch s)
  then show ?case by (auto simp: fan_inv_def admits_def less_Suc_eq)
next
  case (finish i s)
  then show ?case
    by (auto simp: fan_inv_def length_remove1 nth_list_update set_remove1_eq)
qed

lemma fan_inv_reachable: "(fan_step limit fn items)\<^sup>*\<^sup>* (fan_start blank items) s \<Longrightarrow> fan_inv limit fn items s"
  by (induction rule: rtranclp_induct) (auto intro: fan_inv_start fan_inv_step)

lemma fan_done_slots: "fan_inv limit fn items s \<Longrightarrow> fan_done items s \<Longrightarrow> Per s = map fn items"
  by (auto simp: fan_inv_def fan_done_def intro: nth_equalityI)

subsection \<open>Progress and termination\<close>

lemma fan_progress:
  assumes "limit \<noteq> 0" and "fan_inv limit fn items s" and "\<not> fan_done items s"
  shows "\<exists>t. fan_step limit fn items s t"
proof (cases "Running s")
  case Nil
  with assms have "Next s < length items" by (auto simp: fan_inv_def fan_done_def)
  moreover have "admits limit s" using assms(1) Nil by (auto simp: admits_def)
  ultimately show ?thesis by (blast intro: launch)
next
  case (Cons i rest)
  then show ?thesis by (metis finish list.set_intros(1))
qed

definition fan_left :: "'a list \<Rightarrow> 'b fan \<Rightarrow> nat" where
  "fan_left items s = 2 * (length items - Next s) + length (Running s)"

lemma fan_left_start: "fan_left items (fan_start blank items) = 2 * length items"
  by (simp add: fan_left_def fan_start_def)

lemma fan_left_step: "fan_step limit fn items s t \<Longrightarrow> fan_left items s = Suc (fan_left items t)"
  by (erule fan_stepE) (auto simp: fan_left_def length_remove1 length_greater_0_conv [symmetric] simp del: length_greater_0_conv
      dest: length_pos_if_in_set)

lemma fan_left_run: "(fan_step limit fn items ^^ k) s t \<Longrightarrow> fan_left items s = k + fan_left items t"
  by (induction k arbitrary: t) (auto dest: fan_left_step)

lemma fan_stuck_done:
  assumes "limit \<noteq> 0" and "(fan_step limit fn items)\<^sup>*\<^sup>* (fan_start blank items) s"
    and "\<And>t. \<not> fan_step limit fn items s t"
  shows "fan_done items s"
  using fan_progress [OF assms(1) fan_inv_reachable [OF assms(2)]] assms(3) by blast

lemma fan_left_done: "fan_inv limit fn items s \<Longrightarrow> fan_left items s = 0 \<longleftrightarrow> fan_done items s"
  by (auto simp: fan_left_def fan_done_def fan_inv_def)

text \<open>A limit of zero admits no goroutine, so the launching loop blocks on the first item.\<close>

lemma fan_zero_blocks: "\<not> fan_step 0 fn items (fan_start blank items) t"
  by (auto elim!: fan_stepE simp: fan_start_def admits_def)

lemma fan_zero_reach: "(fan_step 0 fn items)\<^sup>*\<^sup>* (fan_start blank items) s \<Longrightarrow> s = fan_start blank items"
  by (induction rule: rtranclp_induct) (simp_all add: fan_zero_blocks)

subsection \<open>Every schedule gives the result\<close>

lemma fan_run_to_end:
  assumes "limit \<noteq> 0" and "fan_inv limit fn items s"
  shows "\<exists>t. (fan_step limit fn items)\<^sup>*\<^sup>* s t \<and> fan_done items t"
  using assms(2)
proof (induction "fan_left items s" arbitrary: s rule: less_induct)
  case less
  show ?case
  proof (cases "fan_done items s")
    case False
    then obtain t where t: "fan_step limit fn items s t"
      using fan_progress [OF assms(1) less.prems] by blast
    with less.hyps [of t] fan_left_step [OF t] fan_inv_step [OF t less.prems] show ?thesis
      by (auto intro: converse_rtranclp_into_rtranclp)
  qed blast
qed

text \<open>The runs of the group end exactly in the result of \<open>fan_out\<close>.\<close>

lemma fan_out_runs:
  "fan_out limit fn items = Some ys \<longleftrightarrow>
    (\<exists>s. (fan_step limit fn items)\<^sup>*\<^sup>* (fan_start blank items) s \<and> fan_done items s \<and> Per s = ys)"
proof (cases "limit = 0 \<and> items \<noteq> []")
  case True
  then have "\<not> fan_done items (fan_start blank items)" by (simp add: fan_done_def fan_start_def)
  with True show ?thesis by (auto simp: fan_out_def dest!: fan_zero_reach)
next
  case False
  have ex: "\<exists>s. (fan_step limit fn items)\<^sup>*\<^sup>* (fan_start blank items) s \<and> fan_done items s"
  proof (cases "items = []")
    case True
    then have "fan_done items (fan_start blank items)" by (simp add: fan_done_def fan_start_def)
    then show ?thesis by blast
  next
    case items: False
    with False show ?thesis by (blast intro: fan_run_to_end fan_inv_start)
  qed
  have "Per s = map fn items"
    if "(fan_step limit fn items)\<^sup>*\<^sup>* (fan_start blank items) s" "fan_done items s" for s
    using fan_done_slots [OF fan_inv_reachable [OF that(1)] that(2)] .
  moreover have "fan_out limit fn items = Some (map fn items)" using False by (auto simp: fan_out_def)
  ultimately show ?thesis using ex by force
qed

lemma fan_out_Some [simp]: "limit \<noteq> 0 \<Longrightarrow> fan_out limit fn items = Some (map fn items)"
  by (simp add: fan_out_def)

lemma parallelSamples_Some [simp]:
  "limit \<noteq> 0 \<Longrightarrow> parallelSamples items limit fn = Some (concat (map fn items))"
  by (simp add: parallelSamples_def)

lemma parallelSamples_cases:
  "parallelSamples items limit fn = Some ss \<Longrightarrow> ss = concat (map fn items)"
  by (auto simp: parallelSamples_def fan_out_def split: if_splits)

end
