(* ===== verification/Paging.thy ===== *)
theory Paging
  imports Prelude
begin

text \<open>
  The pagination loop of \<open>client.go\<close> (\<open>collectActiveAlerts\<close>, \<open>enumerateDrives\<close>,
  \<open>enumerateWitnesses\<close>, \<open>enumerateReplicationSessions\<close>): request a page, append it, stop on the
  first page that is shorter than the page size. The server is the parameter \<open>get\<close>, from the
  start index to an error, a nil response or a page. The loop has no bound of its own, so it is
  a \<open>partial_function\<close>: \<open>None\<close> is a run that never returns.

  Lemmas: the loop returns exactly when some page stops it (\<open>page_loop_returns\<close>); against a server
  that serves consecutive slices of a list it returns that list (\<open>page_loop_served\<close>); an error
  before the last page is the result (\<open>page_loop_error\<close>).
\<close>

type_synonym 'a pages = "int \<Rightarrow> err + 'a list option"

partial_function (option) page_loop :: "'a pages \<Rightarrow> int \<Rightarrow> int \<Rightarrow> 'a list \<Rightarrow> (err + 'a list) option" where
  "page_loop get pageSize start all =
    (case get start of
       Inl e \<Rightarrow> Some (Inl e)
     | Inr None \<Rightarrow> Some (Inr all)
     | Inr (Some page) \<Rightarrow>
         if int (length page) < pageSize then Some (Inr (all @ page))
         else page_loop get pageSize (start + pageSize) (all @ page))"

declare page_loop.simps [code]

definition full_page :: "'a pages \<Rightarrow> int \<Rightarrow> int \<Rightarrow> bool" where
  "full_page get pageSize start \<longleftrightarrow>
    (\<exists>page. get start = Inr (Some page) \<and> pageSize \<le> int (length page))"

lemma page_loop_stop:
  "\<not> full_page get ps start \<Longrightarrow> \<exists>r. page_loop get ps start all = Some r"
  by (subst page_loop.simps) (auto simp: full_page_def split: sum.split option.split)

lemma page_loop_continue:
  "get start = Inr (Some page) \<Longrightarrow> ps \<le> int (length page) \<Longrightarrow>
    page_loop get ps start all = page_loop get ps (start + ps) (all @ page)"
  by (subst page_loop.simps) simp

lemma page_loop_stops:
  "\<not> full_page get ps (start + int k * ps) \<Longrightarrow> \<exists>r. page_loop get ps start all = Some r"
proof (induction k arbitrary: start all)
  case 0
  then show ?case by (simp add: page_loop_stop)
next
  case (Suc k)
  show ?case
  proof (cases "full_page get ps start")
    case True
    then obtain page where "get start = Inr (Some page)" "ps \<le> int (length page)"
      by (auto simp: full_page_def)
    moreover have "\<not> full_page get ps (start + ps + int k * ps)"
      using Suc.prems by (simp add: algebra_simps)
    ultimately show ?thesis by (simp add: page_loop_continue Suc.IH)
  qed (rule page_loop_stop)
qed

lemma page_loop_only_if:
  assumes "page_loop get ps start all = Some r"
  shows "\<exists>k. \<not> full_page get ps (start + int k * ps)"
proof (rule page_loop.raw_induct
    [where P = "\<lambda>get ps start all r. \<exists>k. \<not> full_page get ps (start + int k * ps)", OF _ assms])
  fix loop and get :: "'a pages" and ps start all r
  assume IH: "\<And>get ps start all r. loop get ps start all = Some r \<Longrightarrow> \<exists>k. \<not> full_page get ps (start + int k * ps)"
    and eq: "(case get start of Inl e \<Rightarrow> Some (Inl e) | Inr None \<Rightarrow> Some (Inr all)
      | Inr (Some page) \<Rightarrow> if int (length page) < ps then Some (Inr (all @ page))
          else loop get ps (start + ps) (all @ page)) = Some r"
  show "\<exists>k. \<not> full_page get ps (start + int k * ps)"
  proof (cases "full_page get ps start")
    case True
    with eq obtain page where "loop get ps (start + ps) (all @ page) = Some r"
      by (auto simp: full_page_def split: if_splits)
    from IH [OF this] obtain k where "\<not> full_page get ps (start + ps + int k * ps)" by blast
    then have "\<not> full_page get ps (start + int (Suc k) * ps)" by (simp add: algebra_simps)
    then show ?thesis by blast
  next
    case False
    then have "\<not> full_page get ps (start + int 0 * ps)" by simp
    then show ?thesis by blast
  qed
qed

text \<open>The loop returns iff one of the pages it can reach is not full.\<close>

lemma page_loop_returns:
  "(\<exists>r. page_loop get ps start all = Some r) \<longleftrightarrow> (\<exists>k. \<not> full_page get ps (start + int k * ps))"
  using page_loop_stops page_loop_only_if by metis

subsection \<open>A server of slices\<close>

text \<open>The page at \<open>start\<close> is the slice of \<open>items\<close> of at most \<open>ps\<close> elements.\<close>

definition serves :: "'a list \<Rightarrow> int \<Rightarrow> 'a pages \<Rightarrow> bool" where
  "serves items ps get \<longleftrightarrow>
    (\<forall>start \<ge> 0. get start = Inr (Some (take (nat ps) (drop (nat start) items))))"

lemma page_loop_served_from:
  "serves items ps get \<Longrightarrow> 0 < ps \<Longrightarrow> 0 \<le> start \<Longrightarrow> nat start \<le> length items \<Longrightarrow>
    page_loop get ps start all = Some (Inr (all @ drop (nat start) items))"
proof (induction "length items - nat start" arbitrary: start all rule: less_induct)
  case less
  let ?page = "take (nat ps) (drop (nat start) items)"
  have page: "get start = Inr (Some ?page)" using less.prems by (simp add: serves_def)
  show ?case
  proof (cases "int (length ?page) < ps")
    case True
    then have "?page = drop (nat start) items" by (simp add: take_all nat_less_iff)
    with True page show ?thesis by (subst page_loop.simps) simp
  next
    case False
    with less.prems have n: "nat start + nat ps \<le> length items" by (auto simp: min_def split: if_splits)
    have pos: "0 < nat ps" using less.prems by simp
    have s: "nat (start + ps) = nat start + nat ps" using less.prems by (simp add: nat_add_distrib)
    from n s pos have dec: "length items - nat (start + ps) < length items - nat start" by linarith
    have "page_loop get ps start all = page_loop get ps (start + ps) (all @ ?page)"
      using page False by (intro page_loop_continue) auto
    also have "\<dots> = Some (Inr ((all @ ?page) @ drop (nat (start + ps)) items))"
      by (rule less.hyps [OF dec]) (use less.prems n s in auto)
    also have "(all @ ?page) @ drop (nat (start + ps)) items = all @ drop (nat start) items"
      by (metis s add.commute append.assoc append_take_drop_id drop_drop)
    finally show ?thesis .
  qed
qed

lemma page_loop_served: "serves items ps get \<Longrightarrow> 0 < ps \<Longrightarrow> page_loop get ps 0 [] = Some (Inr items)"
  using page_loop_served_from [of items ps get 0 "[]"] by simp

text \<open>Pages already read are lost when a later page fails.\<close>

lemma page_loop_error:
  "(\<And>j. j < k \<Longrightarrow> full_page get ps (start + int j * ps)) \<Longrightarrow> get (start + int k * ps) = Inl e \<Longrightarrow>
    page_loop get ps start all = Some (Inl e)"
proof (induction k arbitrary: start all)
  case 0
  then show ?case by (subst page_loop.simps) simp
next
  case (Suc k)
  from Suc.prems(1) [of 0] obtain page where page: "get start = Inr (Some page)" "ps \<le> int (length page)"
    by (auto simp: full_page_def)
  have "full_page get ps (start + ps + int j * ps)" if "j < k" for j
    using Suc.prems(1) [of "Suc j"] that by (simp add: algebra_simps)
  moreover have "get (start + ps + int k * ps) = Inl e"
    using Suc.prems(2) by (simp add: algebra_simps)
  ultimately show ?case by (simp add: page_loop_continue [where get = get and start = start, OF page] Suc.IH)
qed

end
