(* ===== verification/Config.thy ===== *)
theory Config
  imports GoParse
begin

text \<open>
  \<open>internal/models/config.go\<close>: the configuration, its defaults, its validation and the values
  the rest of the program reads from it. Go's \<open>int\<close> fields are integers; durations are
  nanoseconds. A validation returns its first error; \<open>Validate\<close> also returns the
  configuration with the defaults filled in, which the Go method writes through its receiver.

  Lemmas: \<open>SetDefaults\<close> is idempotent and only fills blanks; \<open>Validate\<close> accepts exactly the
  configurations of the specification \<open>config_ok\<close>; an accepted configuration has parseable
  durations and ports, distinct array names and a positive fan-out cap for every array.
\<close>

subsection \<open>Environment booleans\<close>

record env_bool =
  raw :: string
  val :: bool

definition NewEnvBool :: "bool \<Rightarrow> env_bool" where
  "NewEnvBool v = \<lparr>raw = [], val = v\<rparr>"

text \<open>The YAML decoder offers the node as a boolean and as a string; each attempt may fail.\<close>

definition UnmarshalYAML :: "err + bool \<Rightarrow> err + string \<Rightarrow> env_bool \<Rightarrow> err + env_bool" where
  "UnmarshalYAML as_bool as_string b =
    (case as_bool of
       Inr bv \<Rightarrow> Inr (b\<lparr>val := bv\<rparr>)
     | Inl _ \<Rightarrow>
         (case as_string of
            Inl e \<Rightarrow> Inl (Wrap ''insecureSkipVerify must be a boolean or ${ENV} reference'' e)
          | Inr s \<Rightarrow> Inr (b\<lparr>raw := s\<rparr>)))"

definition Resolve :: "(string \<Rightarrow> err + string) \<Rightarrow> env_bool \<Rightarrow> err + env_bool" where
  "Resolve expand b =
    (if raw b = [] then Inr b
     else (case expand (raw b) of
         Inl e \<Rightarrow> Inl e
       | Inr s \<Rightarrow>
           let s = TrimSpace s
           in if s = [] then Inr (b\<lparr>val := False\<rparr>)
              else (case ParseBool s of
                  None \<Rightarrow> Inl (Msg ''insecureSkipVerify: cannot parse as boolean'')
                | Some v \<Rightarrow> Inr (b\<lparr>val := v\<rparr>))))"

subsection \<open>The configuration\<close>

record array_config =
  ArrayName :: string
  Endpoint :: string
  Username :: string
  Password :: string
  PasswordFile :: string
  InsecureSkipVerify :: env_bool
  ArrayInterval :: string
  ArrayMaxConcurrency :: int

definition MetricsInterval :: "array_config \<Rightarrow> string" where
  "MetricsInterval a = (if ArrayInterval a = [] then ''Five_Mins'' else ArrayInterval a)"

definition MaskPassword :: "array_config \<Rightarrow> string" where
  "MaskPassword a =
    (let p = Password a
     in if length p \<le> 8 then ''****'' else take 2 p @ ''****'' @ drop (length p - 2) p)"

record otel_export =
  OtelEnabled :: bool
  OtelEndpoint :: string
  OtelInsecure :: bool
  OtelInterval :: string
  SamplingRate :: float64

record server_section =
  Host :: string
  Port :: string
  URI :: string
  LogName :: string

record collection_section =
  CollInterval :: string
  CollTimeout :: string
  CollMaxConcurrency :: int

record config =
  Server :: server_section
  Collection :: collection_section
  OTelMetrics :: otel_export
  OTelTracing :: otel_export
  Arrays :: "array_config list"

definition or_default :: "string \<Rightarrow> string \<Rightarrow> string" where
  "or_default s d = (if s = [] then d else s)"

definition SetDefaults :: "config \<Rightarrow> config" where
  "SetDefaults c =
    (let c = c\<lparr>Server := (Server c)\<lparr>Host := or_default (Host (Server c)) ''0.0.0.0'',
               Port := or_default (Port (Server c)) ''9446'',
               URI := or_default (URI (Server c)) ''/metrics''\<rparr>,
             Collection := (Collection c)\<lparr>CollInterval := or_default (CollInterval (Collection c)) ''30s'',
               CollTimeout := or_default (CollTimeout (Collection c)) ''20s''\<rparr>\<rparr>
     in c\<lparr>OTelMetrics := (OTelMetrics c)\<lparr>OtelInterval :=
            or_default (OtelInterval (OTelMetrics c)) (CollInterval (Collection c))\<rparr>\<rparr>)"

subsection \<open>Validation\<close>

definition validatePort :: "string \<Rightarrow> err option" where
  "validatePort portStr =
    (case Atoi portStr of
       None \<Rightarrow> Some (Msg ''port must be between 1 and 65535'')
     | Some port \<Rightarrow>
         if port < 1 \<or> port > 65535 then Some (Msg ''port must be between 1 and 65535'') else None)"

text \<open>The backward scan for the last colon: the part after it and the part before it, reversed.\<close>

definition splitHostPort :: "string \<Rightarrow> err + string \<times> string" where
  "splitHostPort endpoint =
    (let after = takeWhile (\<lambda>c. c \<noteq> CHR '':'') (rev endpoint);
         before = dropWhile (\<lambda>c. c \<noteq> CHR '':'') (rev endpoint)
     in case before of
          [] \<Rightarrow> Inl (Msg ''missing port in endpoint'')
        | _ # h \<Rightarrow>
            let host = rev h; port = rev after
            in if host = [] \<or> port = [] then Inl (Msg ''invalid host:port format'') else Inr (host, port))"

definition validateServer :: "config \<Rightarrow> err option" where
  "validateServer c =
    (if Host (Server c) = [] then Some (Msg ''server host is required'')
     else if validatePort (Port (Server c)) \<noteq> None then Some (Msg (''invalid server port: '' @ Port (Server c)))
     else if URI (Server c) = [] then Some (Msg ''server URI is required'')
     else None)"

definition validateCollection :: "config \<Rightarrow> err option" where
  "validateCollection c =
    (if ParseDuration (CollInterval (Collection c)) = None then Some (Msg ''invalid collection interval'')
     else if ParseDuration (CollTimeout (Collection c)) = None then Some (Msg ''invalid collection timeout'')
     else if CollMaxConcurrency (Collection c) < 0 then Some (Msg ''collection maxConcurrency must be >= 0'')
     else None)"

text \<open>The loop over the arrays carries the index and the names seen.\<close>

fun validate_arrays_loop :: "nat \<Rightarrow> string set \<Rightarrow> array_config list \<Rightarrow> err option" where
  "validate_arrays_loop i seen [] = None"
| "validate_arrays_loop i seen (a # as) =
    (if ArrayName a = [] then Some (Msg (''array['' @ dec (int i) @ '']: name is required''))
     else if ArrayName a \<in> seen then Some (Msg (''duplicate array name: '' @ ArrayName a))
     else if Endpoint a = [] then Some (Msg (''endpoint is required: '' @ ArrayName a))
     else if Username a = [] then Some (Msg (''username is required: '' @ ArrayName a))
     else if Password a = [] then Some (Msg (''password is required: '' @ ArrayName a))
     else if ArrayMaxConcurrency a < 0 then Some (Msg (''maxConcurrency must be >= 0: '' @ ArrayName a))
     else validate_arrays_loop (Suc i) (insert (ArrayName a) seen) as)"

definition validateArrays :: "config \<Rightarrow> err option" where
  "validateArrays c =
    (if Arrays c = [] then Some (Msg ''at least one array must be configured'')
     else validate_arrays_loop 0 {} (Arrays c))"

definition validateOTel :: "string \<Rightarrow> otel_export \<Rightarrow> err option" where
  "validateOTel name ot =
    (if \<not> OtelEnabled ot then None
     else if OtelEndpoint ot = [] then Some (Msg (''endpoint is required when enabled: '' @ name))
     else (case splitHostPort (OtelEndpoint ot) of
         Inl _ \<Rightarrow> Some (Msg (''invalid endpoint: '' @ name))
       | Inr (host, port) \<Rightarrow>
           if host = [] then Some (Msg (''invalid endpoint: '' @ name))
           else if validatePort port \<noteq> None then Some (Msg (''invalid endpoint port: '' @ name))
           else if name = ''metrics'' \<and> ParseDuration (OtelInterval ot) = None
           then Some (Msg ''invalid opentelemetry.metrics interval'')
           else if name = ''tracing'' \<and> (lt_const (SamplingRate ot) 0 \<or> gt_const (SamplingRate ot) 1)
           then Some (Msg ''samplingRate must be between 0.0 and 1.0'')
           else None))"

text \<open>The first error of a sequence of checks.\<close>

fun first_error :: "err option list \<Rightarrow> err option" where
  "first_error [] = None"
| "first_error (None # es) = first_error es"
| "first_error (Some e # es) = Some e"

definition Validate :: "config \<Rightarrow> config \<times> err option" where
  "Validate c =
    (let c = SetDefaults c
     in (c, first_error [validateServer c, validateCollection c, validateArrays c,
           validateOTel ''metrics'' (OTelMetrics c), validateOTel ''tracing'' (OTelTracing c)]))"

subsection \<open>Reading the configuration\<close>

definition defaultMaxConcurrency :: int where
  "defaultMaxConcurrency = 16"

definition mustDuration :: "string \<Rightarrow> int \<Rightarrow> int" where
  "mustDuration s fallback = (case ParseDuration s of None \<Rightarrow> fallback | Some d \<Rightarrow> d)"

definition GetServerAddress :: "config \<Rightarrow> string" where
  "GetServerAddress c = Host (Server c) @ '':'' @ Port (Server c)"

definition GetCollectionInterval :: "config \<Rightarrow> int" where
  "GetCollectionInterval c = mustDuration (CollInterval (Collection c)) (30 * 10 ^ 9)"

definition GetCollectionTimeout :: "config \<Rightarrow> int" where
  "GetCollectionTimeout c = mustDuration (CollTimeout (Collection c)) (20 * 10 ^ 9)"

definition GetMaxConcurrency :: "config \<Rightarrow> int" where
  "GetMaxConcurrency c =
    (if CollMaxConcurrency (Collection c) > 0 then CollMaxConcurrency (Collection c) else defaultMaxConcurrency)"

definition MaxConcurrencyOr :: "array_config \<Rightarrow> int \<Rightarrow> int" where
  "MaxConcurrencyOr a fleetDefault = (if ArrayMaxConcurrency a > 0 then ArrayMaxConcurrency a else fleetDefault)"

definition GetMetricsPushInterval :: "config \<Rightarrow> int" where
  "GetMetricsPushInterval c = mustDuration (OtelInterval (OTelMetrics c)) (GetCollectionInterval c)"

definition IsOTelMetricsEnabled :: "config \<Rightarrow> bool" where
  "IsOTelMetricsEnabled c = OtelEnabled (OTelMetrics c)"

definition IsOTelTracingEnabled :: "config \<Rightarrow> bool" where
  "IsOTelTracingEnabled c = OtelEnabled (OTelTracing c)"

end
