(* ===== verification/ArrayClient.thy ===== *)
theory ArrayClient
  imports Capability Bulk FanOut Paging Config "HOL-Library.Monad_Syntax"
begin

text \<open>
  \<open>internal/powerstore/client.go\<close> and \<open>perentity.go\<close>: the per-array API client. The SDK
  (\<open>gopowerstore\<close>) and the array behind it are a parameter, the record \<open>gp_client\<close> with one
  function per method the exporter calls; within one collection cycle a method is a function of
  its arguments. The deadline of a cycle shows as errors of these functions. The raw HTTP
  service of the bulk path is the parameter \<open>http\<close>.

  The client's own state is the record \<open>array_client\<close>; the only field that changes after
  construction is the cached software version, so \<open>BulkCapable\<close> returns the client. An
  operation that pages through a resource yields \<open>None\<close> when the paging never ends.
\<close>

subsection \<open>The SDK\<close>

record query_params =
  RawArgs :: "(string \<times> string) list"
  SelectArgs :: "string list"
  OrderArg :: string
  Limit :: int
  Offset :: int

record gp_client =
  gpGetCluster :: "err + cluster"
  gpGetVolumes :: "err + volume list"
  gpGetVolumeGroups :: "err + volume_group list"
  gpGetNASServers :: "err + nas list"
  gpListFS :: "err + file_system list"
  gpGetFCPorts :: "err + port list"
  gpGetEthPorts :: "err + port list"
  gpGetAlerts :: "int \<Rightarrow> int \<Rightarrow> (string \<times> string) list \<Rightarrow> err + alert list option"
  gpGetAppliance :: "string \<Rightarrow> err + appliance"
  gpGetReplicationRules :: "err + replication_rule list"
  gpQuerySessions :: "string \<Rightarrow> query_params \<Rightarrow> err + replication_session list"
  gpQueryDrives :: "string \<Rightarrow> query_params \<Rightarrow> err + driveInfo list"
  gpQueryWitnesses :: "string \<Rightarrow> query_params \<Rightarrow> err + witnessInfo list"
  gpVolumeMirrorTransferRate :: "string \<Rightarrow> err + transfer_rate list"
  gpPerfByFileSystem :: "string \<Rightarrow> string \<Rightarrow> err + fs_perf list"
  gpPerfByVg :: "string \<Rightarrow> string \<Rightarrow> err + io_metrics list"
  gpSpaceByCluster :: "string \<Rightarrow> string \<Rightarrow> err + space_metrics list"
  gpPerfByAppliance :: "string \<Rightarrow> string \<Rightarrow> err + appliance_perf list"
  gpSpaceByAppliance :: "string \<Rightarrow> string \<Rightarrow> err + appliance_space list"
  gpPerfByVolume :: "string \<Rightarrow> string \<Rightarrow> err + volume_perf list"
  gpSoftwareVersion :: "err + float32"

subsection \<open>The client\<close>

record array_client =
  ClientName :: string
  ClientInterval :: string
  softwareVersion :: string
  ClientEndpoint :: string
  ClientUsername :: string
  ClientPassword :: string
  ClientInsecure :: bool
  ClientTrace :: bool
  maxConcurrency :: int

text \<open>
  The login of \<open>NewClientWithArgs\<close> is the parameter \<open>login\<close>: endpoint, user, password and the
  TLS setting to an error or success.
\<close>

definition NewArrayClient ::
  "(string \<Rightarrow> string \<Rightarrow> string \<Rightarrow> bool \<Rightarrow> err option) \<Rightarrow> array_config \<Rightarrow> int \<Rightarrow> bool \<Rightarrow> err + array_client" where
  "NewArrayClient login cfg maxConc trace =
    (let maxConc = (if maxConc < 1 then defaultMaxConcurrency else maxConc);
         insecure = val (InsecureSkipVerify cfg)
     in case login (Endpoint cfg) (Username cfg) (Password cfg) insecure of
          Some e \<Rightarrow> Inl (Wrap (''array '' @ ArrayName cfg @ '': create gopowerstore client'') e)
        | None \<Rightarrow> Inr \<lparr>ClientName = ArrayName cfg, ClientInterval = MetricsInterval cfg, softwareVersion = [],
            ClientEndpoint = Endpoint cfg, ClientUsername = Username cfg, ClientPassword = Password cfg,
            ClientInsecure = insecure, ClientTrace = trace, maxConcurrency = maxConc\<rparr>)"

definition alertPageSize :: int where
  "alertPageSize = 1000"

definition collectActiveAlerts ::
  "(int \<Rightarrow> int \<Rightarrow> (string \<times> string) list \<Rightarrow> err + alert list option) \<Rightarrow> int \<Rightarrow> (err + alert list) option" where
  "collectActiveAlerts get pageSize =
    page_loop (\<lambda>start. get pageSize start [(''state'', ''eq.ACTIVE'')]) pageSize 0 []"

fun isNotFound :: "err \<Rightarrow> bool" where
  "isNotFound (APIError status) = (status = 404)"
| "isNotFound (Wrap msg e) = isNotFound e"
| "isNotFound (Msg msg) = False"

text \<open>A tolerated failure: the list stays nil.\<close>

definition or_nil :: "err + 'a list \<Rightarrow> 'a list" where
  "or_nil r = (case r of Inl e \<Rightarrow> [] | Inr xs \<Rightarrow> xs)"

definition appliance_ids :: "volume list \<Rightarrow> port list \<Rightarrow> port list \<Rightarrow> (string, unit) amap" where
  "appliance_ids volumes fc eth =
    foldl (\<lambda>seen i. if i \<noteq> [] then amap_put i () seen else seen) []
      (map VolumeApplianceID volumes @ map PortApplianceID fc @ map PortApplianceID eth)"

definition blank_appliance :: appliance where
  "blank_appliance = \<lparr>ApplianceID = [], ApplianceName = [], ServiceTag = []\<rparr>"

definition fetch_appliance :: "gp_client \<Rightarrow> string \<Rightarrow> appliance" where
  "fetch_appliance gp i = (case gpGetAppliance gp i of Inl e \<Rightarrow> blank_appliance | Inr a \<Rightarrow> a)"

definition enumerateAppliances ::
  "(string list \<Rightarrow> string list) \<Rightarrow> gp_client \<Rightarrow> array_client \<Rightarrow> volume list \<Rightarrow> port list \<Rightarrow> port list \<Rightarrow>
   appliance list option" where
  "enumerateAppliances \<rho> gp c volumes fc eth =
    do {
      let ids = \<rho> (amap_keys (appliance_ids volumes fc eth));
      results \<leftarrow> fan_out (maxConcurrency c) (fetch_appliance gp) ids;
      Some (filter (\<lambda>a. ApplianceID a \<noteq> []) results)
    }"

definition GetTopology ::
  "(string list \<Rightarrow> string list) \<Rightarrow> gp_client \<Rightarrow> array_client \<Rightarrow> (err + topology) option" where
  "GetTopology \<rho> gp c =
    (case gpGetCluster gp of
       Inl e \<Rightarrow> Some (Inl (Wrap (''array '' @ ClientName c @ '': get cluster'') e))
     | Inr cluster \<Rightarrow>
         do {
           let volumes = or_nil (gpGetVolumes gp);
           let vgs = or_nil (gpGetVolumeGroups gp);
           let nas = or_nil (gpGetNASServers gp);
           let fs = or_nil (gpListFS gp);
           let fc = or_nil (gpGetFCPorts gp);
           let eth = or_nil (gpGetEthPorts gp);
           alerts \<leftarrow> collectActiveAlerts (gpGetAlerts gp) alertPageSize;
           appliances \<leftarrow> enumerateAppliances \<rho> gp c volumes fc eth;
           Some (Inr ((NewTopology cluster appliances volumes vgs nas fs fc eth)\<lparr>Alerts := or_nil alerts\<rparr>))
         })"

subsection \<open>Generic queries\<close>

definition query_page :: "(query_params \<Rightarrow> err + 'a list) \<Rightarrow> query_params \<Rightarrow> 'a pages" where
  "query_page query qp offset = (case query (qp\<lparr>Offset := offset\<rparr>) of Inl e \<Rightarrow> Inl e | Inr page \<Rightarrow> Inr (Some page))"

definition drive_query :: query_params where
  "drive_query = \<lparr>RawArgs = [(''type'', ''eq.Drive'')],
     SelectArgs = [''id'', ''name'', ''appliance_id'', ''lifecycle_state'', ''extra_details''],
     OrderArg = ''id'', Limit = 2000, Offset = 0\<rparr>"

definition enumerateDrives :: "gp_client \<Rightarrow> (err + driveInfo list) option" where
  "enumerateDrives gp = page_loop (query_page (gpQueryDrives gp ''hardware'') drive_query) 2000 0 []"

definition witness_query :: query_params where
  "witness_query = \<lparr>RawArgs = [], SelectArgs = [''id'', ''name'', ''state'', ''connections''],
     OrderArg = ''id'', Limit = 2000, Offset = 0\<rparr>"

definition enumerateWitnesses :: "gp_client \<Rightarrow> (err + witnessInfo list) option" where
  "enumerateWitnesses gp = page_loop (query_page (gpQueryWitnesses gp ''witness'') witness_query) 2000 0 []"

definition session_query :: query_params where
  "session_query = \<lparr>RawArgs = [], SelectArgs = [''id'', ''state'', ''role'', ''type'', ''resource_type'',
     ''local_resource_id'', ''remote_system_id''], OrderArg = ''id'', Limit = 2000, Offset = 0\<rparr>"

definition enumerateReplicationSessions :: "gp_client \<Rightarrow> (err + replication_session list) option" where
  "enumerateReplicationSessions gp =
    page_loop (query_page (gpQuerySessions gp ''replication_session'') session_query) 2000 0 []"

subsection \<open>Metrics of both paths\<close>

definition replicationTransfers :: "gp_client \<Rightarrow> array_client \<Rightarrow> topology \<Rightarrow> string list \<Rightarrow> sample list option" where
  "replicationTransfers gp c topo volumeIDs =
    parallelSamples volumeIDs (maxConcurrency c) (\<lambda>volID.
      case gpVolumeMirrorTransferRate gp volID of
        Inl e \<Rightarrow> []
      | Inr rate \<Rightarrow> deriveReplicationTransfer (ClientName c) topo volID ''volume'' rate)"

text \<open>
  What the degraded queries log where a missing resource is normal: a 404 is silent, any other error is a
  warning with its cause.
\<close>

definition warn_unless_missing :: "string \<Rightarrow> err + 'a \<Rightarrow> (string \<times> err) list" where
  "warn_unless_missing what r = (case r of Inl e \<Rightarrow> if isNotFound e then [] else [(what, e)] | Inr _ \<Rightarrow> [])"

definition transfer_warnings :: "gp_client \<Rightarrow> string list \<Rightarrow> (string \<times> err) list" where
  "transfer_warnings gp volumeIDs =
    concat (map (\<lambda>volID. warn_unless_missing volID (gpVolumeMirrorTransferRate gp volID)) volumeIDs)"

definition witness_warnings :: "gp_client \<Rightarrow> (string \<times> err) list option" where
  "witness_warnings gp = do { r \<leftarrow> enumerateWitnesses gp; Some (warn_unless_missing ''enumerate witnesses'' r) }"

definition replicationMetrics :: "gp_client \<Rightarrow> array_client \<Rightarrow> topology \<Rightarrow> sample list option" where
  "replicationMetrics gp c topo =
    do {
      let samples = (case gpGetReplicationRules gp of
          Inl e \<Rightarrow> [] | Inr rules \<Rightarrow> deriveReplicationRules (ClientName c) topo rules);
      r \<leftarrow> enumerateReplicationSessions gp;
      (case r of
         Inl e \<Rightarrow> Some samples
       | Inr sessions \<Rightarrow>
           do {
             transfers \<leftarrow> replicationTransfers gp c topo (replicatedVolumeResources sessions);
             Some (samples @ deriveReplicationSessions (ClientName c) topo sessions @ transfers)
           })
    }"

definition fileSystemPerf :: "gp_client \<Rightarrow> array_client \<Rightarrow> topology \<Rightarrow> sample list option" where
  "fileSystemPerf gp c topo =
    parallelSamples (filter chartableFileSystem (FileSystems topo)) (maxConcurrency c) (\<lambda>fs.
      case gpPerfByFileSystem gp (FsID fs) (ClientInterval c) of
        Inl e \<Rightarrow> []
      | Inr resp \<Rightarrow> deriveFileSystemPerf (ClientName c) topo fs resp)"

definition volumeGroupPerf :: "gp_client \<Rightarrow> array_client \<Rightarrow> topology \<Rightarrow> sample list option" where
  "volumeGroupPerf gp c topo =
    parallelSamples (VolumeGroups topo) (maxConcurrency c) (\<lambda>vg.
      case gpPerfByVg gp (GroupID vg) (ClientInterval c) of
        Inl e \<Rightarrow> []
      | Inr resp \<Rightarrow> deriveVolumeGroupPerf (ClientName c) topo vg resp)"

definition clusterSpace :: "gp_client \<Rightarrow> array_client \<Rightarrow> topology \<Rightarrow> sample list" where
  "clusterSpace gp c topo =
    (case gpSpaceByCluster gp (ClusterID topo) (ClientInterval c) of
       Inl e \<Rightarrow> []
     | Inr resp \<Rightarrow> deriveClusterSpace (ClientName c) topo resp)"

definition driveMetrics :: "gp_client \<Rightarrow> array_client \<Rightarrow> topology \<Rightarrow> sample list option" where
  "driveMetrics gp c topo =
    do {
      r \<leftarrow> enumerateDrives gp;
      Some (case r of Inl e \<Rightarrow> [] | Inr drives \<Rightarrow> deriveDrives (ClientName c) topo drives)
    }"

definition witnessMetrics :: "gp_client \<Rightarrow> array_client \<Rightarrow> topology \<Rightarrow> sample list option" where
  "witnessMetrics gp c topo =
    do {
      r \<leftarrow> enumerateWitnesses gp;
      Some (case r of Inl e \<Rightarrow> [] | Inr witnesses \<Rightarrow> deriveWitness (ClientName c) topo witnesses)
    }"

definition commonMetrics ::
  "(string list \<Rightarrow> string list) \<Rightarrow> gp_client \<Rightarrow> array_client \<Rightarrow> topology \<Rightarrow> sample list option" where
  "commonMetrics \<rho> gp c topo =
    do {
      repl \<leftarrow> replicationMetrics gp c topo;
      fs \<leftarrow> fileSystemPerf gp c topo;
      vg \<leftarrow> volumeGroupPerf gp c topo;
      drives \<leftarrow> driveMetrics gp c topo;
      witnesses \<leftarrow> witnessMetrics gp c topo;
      Some (deriveFileSystemCapacity (ClientName c) topo @
        derivePortLinkStatus (ClientName c) topo @
        deriveAlerts \<rho> (ClientName c) topo @
        repl @
        fs @
        vg @
        clusterSpace gp c topo @
        drives @
        witnesses)
    }"

subsection \<open>The two export paths\<close>

definition BulkCapable :: "gp_client \<Rightarrow> array_client \<Rightarrow> bool \<times> array_client" where
  "BulkCapable gp c =
    (if softwareVersion c = []
     then (case gpSoftwareVersion gp of
         Inl e \<Rightarrow> (False, c)
       | Inr v \<Rightarrow>
           let c = c\<lparr>softwareVersion := sprintf_version v\<rparr>
           in (bulkCapableFromVersion (softwareVersion c), c))
     else (bulkCapableFromVersion (softwareVersion c), c))"

definition client_endpoint :: "array_client \<Rightarrow> endpoint" where
  "client_endpoint c = \<lparr>EpArray = ClientName c, EpURL = ClientEndpoint c, EpUsername = ClientUsername c,
     EpPassword = ClientPassword c, EpInsecure = ClientInsecure c, EpTrace = ClientTrace c\<rparr>"

definition file_rows :: "csv_files \<Rightarrow> string \<Rightarrow> smap list" where
  "file_rows files name = (case files name of None \<Rightarrow> [] | Some rows \<Rightarrow> rows)"

definition BulkMetrics ::
  "(string list \<Rightarrow> string list) \<Rightarrow> archive http_env \<Rightarrow> gp_client \<Rightarrow> array_client \<Rightarrow> topology \<Rightarrow>
   (err + sample list) option" where
  "BulkMetrics \<rho> http gp c topo =
    (case downloadBulkArchive http (client_endpoint c) of
       Inl e \<Rightarrow> Some (Inl e)
     | Inr archive \<Rightarrow>
         (case parseBulkArchive archive of
            Inl e \<Rightarrow> Some (Inl e)
          | Inr files \<Rightarrow>
              do {
                common \<leftarrow> commonMetrics \<rho> gp c topo;
                Some (Inr (
                  deriveBulkAppliancePerf (ClientName c) topo (file_rows files ''performance_metrics_by_appliance.csv'') @
                  deriveBulkApplianceSpace (ClientName c) topo (file_rows files ''space_metrics_by_appliance.csv'') @
                  deriveBulkVolumePerf (ClientName c) topo (file_rows files ''performance_metrics_by_volume.csv'') @
                  common))
              }))"

definition appliance_samples ::
  "(string list \<Rightarrow> string list) \<Rightarrow> gp_client \<Rightarrow> array_client \<Rightarrow> topology \<Rightarrow> appliance \<Rightarrow> sample list" where
  "appliance_samples \<rho> gp c topo a =
    (case gpPerfByAppliance gp (ApplianceID a) (ClientInterval c) of
       Inl e \<Rightarrow> [] | Inr perf \<Rightarrow> deriveAppliancePerf \<rho> (ClientName c) topo perf) @
    (case gpSpaceByAppliance gp (ApplianceID a) (ClientInterval c) of
       Inl e \<Rightarrow> [] | Inr space \<Rightarrow> deriveApplianceSpace \<rho> (ClientName c) topo space)"

definition volume_samples ::
  "(string list \<Rightarrow> string list) \<Rightarrow> gp_client \<Rightarrow> array_client \<Rightarrow> topology \<Rightarrow> volume \<Rightarrow> sample list" where
  "volume_samples \<rho> gp c topo v =
    (case gpPerfByVolume gp (VolumeID v) (ClientInterval c) of
       Inl e \<Rightarrow> [] | Inr perf \<Rightarrow> deriveVolumePerf \<rho> (ClientName c) topo perf)"

definition PerEntityMetrics ::
  "(string list \<Rightarrow> string list) \<Rightarrow> gp_client \<Rightarrow> array_client \<Rightarrow> topology \<Rightarrow> (err + sample list) option" where
  "PerEntityMetrics \<rho> gp c topo =
    do {
      common \<leftarrow> commonMetrics \<rho> gp c topo;
      Some (Inr (concat (map (appliance_samples \<rho> gp c topo) (Appliances topo)) @
        concat (map (volume_samples \<rho> gp c topo) (Volumes topo)) @ common))
    }"

definition CloseClient :: "array_client \<Rightarrow> err option" where
  "CloseClient c = None"

end
