(* ===== verification/FloatFacts.thy ===== *)
theory FloatFacts
  imports GoParse Complex_Main
begin

text \<open>
  The rounding of \<open>GoFloat\<close> against the real numbers: \<open>round64\<close> is within half a unit of the last place, so
  every conversion the exporter performs on a value in the normal range (an API integer, a
  decimal CSV cell, the division of a percentage) has a relative error of at most \<open>2^-53\<close>.
\<close>

fun real_of :: "float64 \<Rightarrow> real" where
  "real_of (Fin s m e) = (if s then - 1 else 1) * real_of_int m * 2 powi e"
| "real_of _ = 0"

definition normal_range :: "real \<Rightarrow> bool" where
  "normal_range x \<longleftrightarrow> 2 powi (- 1022) \<le> x \<and> x \<le> 2 powi 1023"

lemma powi_nat: "0 \<le> e \<Longrightarrow> (2 :: real) powi e = 2 ^ nat e"
  by (simp add: power_int_def)

lemma powi_add: "(2 :: real) powi (a + b) = 2 powi a * 2 powi b"
  by (simp add: power_int_add)

lemma powi_le: "a \<le> b \<Longrightarrow> (2 :: real) powi a \<le> 2 powi b"
  by (simp add: power_int_increasing)

lemma powi_less_cancel: "(2 :: real) powi a < 2 powi b \<Longrightarrow> a < b"
  using powi_le [of b a] by (cases "a < b") auto

lemma powi_le_cancel: "(2 :: real) powi a \<le> 2 powi b \<Longrightarrow> a \<le> b"
  using power_int_strict_increasing [of b a "2 :: real"] by (cases "a \<le> b") auto

lemma scale_real:
  assumes "d > 0" and "scale n d e = (n', d')"
  shows "d' > 0" and "real_of_int n' / real_of_int d' = real_of_int n / real_of_int d / 2 powi e"
  using assms by (auto simp: scale_def power_int_def field_simps split: if_splits)

lemma blen_real:
  assumes "m > 0"
  shows "2 powi (blen m - 1) \<le> real_of_int m" and "real_of_int m < 2 powi blen m"
proof -
  have b: "blen m \<ge> 1" "2 ^ nat (blen m - 1) \<le> m" "m < 2 ^ nat (blen m)" using blen_bounds [OF assms] by auto
  from b(2) have "real_of_int (2 ^ nat (blen m - 1)) \<le> real_of_int m" by (simp only: of_int_le_iff)
  then show "2 powi (blen m - 1) \<le> real_of_int m" using b(1) by (simp add: powi_nat)
  from b(3) have "real_of_int m < real_of_int (2 ^ nat (blen m))" by (simp only: of_int_less_iff)
  then show "real_of_int m < 2 powi blen m" using b(1) by (simp add: powi_nat)
qed

lemma div_ge_iff: "k \<le> n div d \<longleftrightarrow> real_of_int k \<le> real_of_int n / real_of_int d"
proof -
  have "\<lfloor>real_of_int n / real_of_int d\<rfloor> = n div d" by (simp add: floor_divide_of_int_eq)
  then show ?thesis by (metis le_floor_iff)
qed

text \<open>The chosen unit gives a quotient of 53 bits.\<close>

lemma ulp_exp_real:
  assumes "n > 0" "d > 0" and "2 powi (- 1022) \<le> real_of_int n / real_of_int d"
  shows "2 ^ 52 * 2 powi ulp_exp n d \<le> real_of_int n / real_of_int d"
    and "real_of_int n / real_of_int d < 2 ^ 53 * 2 powi ulp_exp n d"
proof -
  define x where "x = real_of_int n / real_of_int d"
  define e0 where "e0 = blen n - blen d - 53"
  obtain n' d' where sc: "scale n d e0 = (n', d')" by force
  note s = scale_real [OF assms(2) sc]
  note bn = blen_real [OF assms(1)] and bd = blen_real [OF assms(2)]
  have pos: "real_of_int n > 0" "real_of_int d > 0" using assms by simp_all
  have "real_of_int n * 2 powi (blen d - 1) \<le> real_of_int n * real_of_int d"
    using bd(1) pos by (intro mult_left_mono) auto
  also have "\<dots> < 2 powi blen n * real_of_int d" using bn(2) pos by (intro mult_strict_right_mono)
  finally have hi: "x * 2 powi (blen d - 1) < 2 powi blen n" using pos by (simp add: x_def field_simps)
  have "2 powi (blen n - 1) * real_of_int d \<le> real_of_int n * real_of_int d"
    using bn(1) pos by (intro mult_right_mono) auto
  also have "\<dots> < real_of_int n * 2 powi blen d" using bd(2) pos by (intro mult_strict_left_mono)
  finally have lo: "2 powi (blen n - 1) < x * 2 powi blen d" using pos by (simp add: x_def field_simps)
  have p: "(2 :: real) powi blen n = 2 ^ 53 * 2 powi e0 * 2 powi blen d"
    unfolding e0_def using powi_add [of "blen n - blen d - 53 + blen d" 53] powi_add [of "blen n - blen d - 53" "blen d"]
    by (simp add: powi_nat)
  have half: "(2 :: real) powi a = 2 * 2 powi (a - 1)" for a :: int
    using powi_add [of 1 "a - 1"] by (simp add: powi_nat)
  have hi: "x < 2 ^ 54 * 2 powi e0" using hi half [of "blen d"] p by simp
  have "2 ^ 52 * 2 powi e0 * 2 powi blen d = (2 :: real) powi (blen n - 1)" using half [of "blen n"] p by simp
  with lo have "2 ^ 52 * 2 powi e0 * 2 powi blen d < x * 2 powi blen d" by (simp only:)
  then have lo: "2 ^ 52 * 2 powi e0 < x" by (rule mult_right_less_imp_less) simp
  define e1 where "e1 = (if n' div d' \<ge> 2 ^ 53 then e0 + 1 else e0)"
  have "n' div d' \<ge> 2 ^ 53 \<longleftrightarrow> 2 ^ 53 \<le> x / 2 powi e0"
    using div_ge_iff [of "2 ^ 53" n' d'] unfolding s(2) x_def by simp
  also have "\<dots> \<longleftrightarrow> 2 ^ 53 * 2 powi e0 \<le> x" by (simp add: pos_le_divide_eq)
  finally have "n' div d' \<ge> 2 ^ 53 \<longleftrightarrow> 2 ^ 53 * 2 powi e0 \<le> x" .
  then have e1: "2 ^ 52 * 2 powi e1 \<le> x" "x < 2 ^ 53 * 2 powi e1"
    using lo hi half [of "e0 + 1"] by (auto simp: e1_def)
  have "(2 :: real) powi (- 1022) \<le> x" using assms(3) by (simp only: x_def)
  also have "x < 2 powi (53 + e1)" using e1(2) powi_add [of 53 e1] by (simp add: powi_nat)
  finally have "- 1022 < 53 + e1" by (rule powi_less_cancel)
  then have "e1 \<ge> - 1074" by simp
  then have "ulp_exp n d = e1" using sc by (auto simp: ulp_exp_def e0_def e1_def Let_def)
  with e1 show "2 ^ 52 * 2 powi ulp_exp n d \<le> real_of_int n / real_of_int d"
    "real_of_int n / real_of_int d < 2 ^ 53 * 2 powi ulp_exp n d"
    by (simp_all add: x_def)
qed

lemma strip_real:
  assumes "q > 0" and "strip q e = (m, k)"
  shows "real_of_int m * 2 powi k = real_of_int q * 2 powi e"
proof -
  from strip_value [OF assms] have "e \<le> k" "q = m * 2 ^ nat (k - e)" by auto
  then show ?thesis using powi_add [of "k - e" e] by (simp add: powi_nat)
qed

text \<open>Correct rounding: the result differs from the fraction by at most half a unit.\<close>

lemma round64_accurate:
  assumes "n > 0" "d > 0" and "normal_range (real_of_int n / real_of_int d)"
  shows "\<exists>m k. round64 s n d = Fin s m k \<and> m > 0 \<and>
    \<bar>real_of_int m * 2 powi k - real_of_int n / real_of_int d\<bar> \<le> real_of_int n / real_of_int d / 2 ^ 53"
proof -
  define x where "x = real_of_int n / real_of_int d"
  define e where "e = ulp_exp n d"
  have x: "2 ^ 52 * 2 powi e \<le> x" "x < 2 ^ 53 * 2 powi e" "x \<le> 2 powi 1023"
    using ulp_exp_real [OF assms(1,2)] assms(3) by (simp_all add: normal_range_def x_def e_def)
  obtain n' d' where sc: "scale n d e = (n', d')" by force
  note s = scale_real [OF assms(2) sc]
  define q where "q = round_div n' d'"
  have "real_of_int (2 * \<bar>q * d' - n'\<bar>) \<le> real_of_int d'"
    using round_div_half [OF s(1), of n'] by (simp only: q_def of_int_le_iff)
  then have "2 * \<bar>real_of_int q * real_of_int d' - real_of_int n'\<bar> \<le> real_of_int d'" by simp
  then have "\<bar>real_of_int q - real_of_int n' / real_of_int d'\<bar> \<le> 1 / 2"
    using s(1) by (simp add: abs_if field_simps split: if_splits)
  then have q: "\<bar>real_of_int q - x / 2 powi e\<bar> \<le> 1 / 2" by (simp only: s(2) x_def)
  have lohi: "2 ^ 52 \<le> x / 2 powi e" "x / 2 powi e < 2 ^ 53" using x by (simp_all add: field_simps)
  define y where "y = x / 2 powi e"
  have near: "real_of_int q \<le> y + 1 / 2" "y \<le> real_of_int q + 1 / 2" using q unfolding y_def [symmetric] by linarith+
  with lohi have "real_of_int q > 0" "real_of_int q < real_of_int (2 ^ 53) + 1" by (simp_all add: y_def)
  then have qpos: "q > 0" and qhi: "q \<le> 2 ^ 53" by linarith+
  have err: "\<bar>real_of_int q * 2 powi e - x\<bar> \<le> x / 2 ^ 53"
  proof -
    have "\<bar>real_of_int q * 2 powi e - x\<bar> = \<bar>real_of_int q - x / 2 powi e\<bar> * 2 powi e"
      by (simp add: abs_mult_pos' field_simps flip: abs_mult)
    also have "\<dots> \<le> 1 / 2 * 2 powi e" using q by (intro mult_right_mono) simp_all
    also have "\<dots> \<le> x / 2 ^ 53" using x(1) by simp
    finally show ?thesis .
  qed
  have "2 powi (52 + e) \<le> (2 :: real) powi 1023" using x(1,3) powi_add [of 52 e] by (simp add: powi_nat)
  then have "52 + e \<le> 1023" by (rule powi_le_cancel)
  then have "e \<le> 971" by simp
  have "blen q + e \<le> 1024"
  proof (cases "e = 971")
    case True
    then have "y \<le> 2 ^ 52" using x(3) powi_add [of 52 971] by (simp add: y_def powi_nat field_simps)
    with near(1) have "real_of_int q < real_of_int (2 ^ 52) + 1" by simp
    then have "q \<le> 2 ^ 52" by linarith
    with True show ?thesis using blen_le [of 53 q] by simp
  next
    case False
    with \<open>e \<le> 971\<close> show ?thesis using blen_le [of 54 q] qhi by simp
  qed
  moreover obtain m k where mk: "strip q e = (m, k)" by force
  ultimately have "round64 s n d = Fin s m k"
    using assms(1) sc by (simp add: round64_def e_def [symmetric] q_def [symmetric] Let_def)
  moreover have "m > 0" using strip_value [OF qpos mk] by simp
  ultimately show ?thesis using err strip_real [OF qpos mk] by (auto simp: x_def)
qed

subsection \<open>The conversions\<close>

lemma of_int64_accurate:
  assumes "0 < n" and "n < 2 ^ 63"
  shows "\<bar>real_of (of_int64 n) - real_of_int n\<bar> \<le> real_of_int n / 2 ^ 53"
proof -
  have "real_of_int n < real_of_int (2 ^ 63)" using assms(2) by (simp only: of_int_less_iff)
  moreover have "(2 :: real) ^ 63 \<le> 2 powi 1023" using powi_le [of 63 1023] by (simp add: powi_nat)
  moreover have "(2 :: real) powi (- 1022) \<le> 1" using powi_le [of "- 1022" 0] by simp
  ultimately have "normal_range (real_of_int n / real_of_int 1)" using assms(1) by (simp add: normal_range_def)
  from round64_accurate [OF assms(1) _ this, of False] assms(1) show ?thesis
    by (auto simp: of_int64_def)
qed

lemma div_const_accurate:
  assumes "v = Fin False m e" and "0 < c" and "0 < m" and "normal_range (real_of v / real_of_int c)"
  shows "\<bar>real_of (div_const v c) - real_of v / real_of_int c\<bar> \<le> real_of v / real_of_int c / 2 ^ 53"
proof -
  obtain n d where nd: "pow2 e = (n, d)" by force
  then have pos: "n > 0" "d > 0" and val: "real_of_int n / real_of_int d = 2 powi e"
    by (auto simp: pow2_def power_int_def field_simps split: if_splits)
  have eq: "real_of_int (m * n) / real_of_int (d * c) = real_of v / real_of_int c"
    using val pos assms(1,2) by (simp add: field_simps)
  have "0 < m * n" "0 < d * c" using assms(2,3) pos by simp_all
  from round64_accurate [OF this, unfolded eq, OF assms(4), of False] show ?thesis
    using assms(1) nd by auto
qed

text \<open>A decimal numeral with a fraction: the digits before and after the point.\<close>

definition decimal :: "string \<Rightarrow> string \<Rightarrow> string" where
  "decimal ds fs = ds @ (if fs = [] then [] else CHR ''.'' # fs)"

definition decimal_value :: "string \<Rightarrow> string \<Rightarrow> real" where
  "decimal_value ds fs = real_of_int (digits_val (ds @ fs)) / 10 ^ length fs"

lemma scan_mant_fraction:
  "list_all is_digit fs \<Longrightarrow>
    scan_mant False m nf True dig fs = (foldl (\<lambda>a c. 10 * a + digit_val c) m fs, nf + int (length fs), dig \<or> fs \<noteq> [], [])"
proof (induction fs arbitrary: m nf dig)
  case (Cons c fs)
  then have "c \<noteq> CHR ''_''" "c \<noteq> CHR ''.''" and "mant_digit False c = Some (digit_val c)"
    by (auto simp: is_digit_def code_def mant_digit_def)
  with Cons show ?case by simp
qed simp

lemma scan_mant_decimal:
  "list_all is_digit ds \<Longrightarrow> list_all is_digit fs \<Longrightarrow>
    scan_mant False m 0 False dig (decimal ds fs) =
      (foldl (\<lambda>a c. 10 * a + digit_val c) m (ds @ fs), int (length fs), dig \<or> ds \<noteq> [] \<or> fs \<noteq> [], [])"
proof (induction ds arbitrary: m dig)
  case Nil
  then show ?case using scan_mant_fraction [of fs m 0 dig] by (cases fs) (simp_all add: decimal_def)
next
  case (Cons c ds)
  then have "c \<noteq> CHR ''_''" "c \<noteq> CHR ''.''" and "mant_digit False c = Some (digit_val c)"
    by (auto simp: is_digit_def code_def mant_digit_def)
  with Cons show ?case by (simp add: decimal_def)
qed

lemma decimal_plain:
  assumes "list_all is_digit ds" "list_all is_digit fs" "ds \<noteq> []"
  shows "special (decimal ds fs) = None" and "sign (decimal ds fs) = (False, decimal ds fs)"
    and "hex_prefix (decimal ds fs) = False" and "CHR ''_'' \<notin> set (decimal ds fs)"
proof -
  obtain c r where ds: "ds = c # r" "is_digit c" using assms by (cases ds) auto
  then have "lower c < 58" by (auto simp: lower_def is_digit_def)
  then have "lower c \<noteq> lower (CHR ''i'')" "lower c \<noteq> lower (CHR ''n'')" by (auto simp: lower_def code_def)
  moreover show sg: "sign (decimal ds fs) = (False, decimal ds fs)"
    using ds digit_not_special by (auto simp: decimal_def sign_def)
  ultimately show "special (decimal ds fs) = None"
    using ds by (simp add: special_def) (simp add: decimal_def)
  have low: "lower x \<noteq> 120" if "x \<in> set (decimal ds fs)" for x
  proof -
    from that have "x = CHR ''.'' \<or> is_digit x" using assms(1,2) by (auto simp: decimal_def list_all_iff split: if_splits)
    then show ?thesis by (auto simp: lower_def is_digit_def code_def)
  qed
  show "hex_prefix (decimal ds fs) = False"
    using low by (auto simp: hex_prefix_def split: list.splits)
  show "CHR ''_'' \<notin> set (decimal ds fs)"
    using assms(1,2) by (auto simp: decimal_def list_all_iff is_digit_def code_def)
qed

lemma ParseFloat_decimal:
  assumes ds: "list_all is_digit ds" "list_all is_digit fs" "ds \<noteq> []"
    and range: "normal_range (decimal_value ds fs)"
  shows "\<exists>v. ParseFloat (decimal ds fs) = Some v \<and> \<bar>real_of v - decimal_value ds fs\<bar> \<le> decimal_value ds fs / 2 ^ 53"
proof -
  define n where "n = digits_val (ds @ fs)"
  define d where "d = (10 :: int) ^ length fs"
  have dv: "decimal_value ds fs = real_of_int n / real_of_int d" by (simp add: decimal_value_def n_def d_def)
  have "0 < decimal_value ds fs" using range by (auto simp: normal_range_def intro: order.strict_trans2)
  then have "n > 0" "d > 0" by (auto simp: dv d_def zero_less_divide_iff)
  from round64_accurate [OF this, of False] range obtain m k where
    r: "round64 False n d = Fin False m k" and acc: "\<bar>real_of_int m * 2 powi k - real_of_int n / real_of_int d\<bar> \<le> real_of_int n / real_of_int d / 2 ^ 53"
    by (auto simp: dv)
  have "pow10 (0 - int (length fs)) = (1, d)" by (cases "length fs = 0") (auto simp: pow10_def d_def)
  then have "ParseFloat (decimal ds fs) = Some (Fin False m k)"
    using scan_mant_decimal [OF ds(1,2), of 0 False] decimal_plain [OF ds] ds(3) r
    by (simp add: ParseFloat_def read_exp_def n_def digits_val_def Let_def)
  with acc show ?thesis by (simp add: dv)
qed

end
