(* ===== verification/BulkFacts.thy ===== *)
theory BulkFacts
  imports Bulk FloatFacts
begin

text \<open>
  Lemmas about the bulk path: a CSV row is the last-wins map of its columns, the archive
  keeps the last regular entry of each base name, a cell is the first usable candidate
  column and its decimal is correctly rounded, and the bulk rows give the same samples as the per-entity responses they encode.
\<close>

subsection \<open>Rows and files\<close>

lemma csv_row_map_of: "csv_row header r = map_of (rev (zip header r))"
proof -
  have "foldl (\<lambda>row i. if i < length r then row(header ! i \<mapsto> r ! i) else row) Map.empty [0..<n] =
      map_of (rev (take n (zip header r)))" if "n \<le> length header" for n
    using that
  proof (induction n)
    case (Suc n)
    then show ?case
      by (cases "n < length r") (simp_all add: take_Suc_conv_app_nth)
  qed simp
  then show ?thesis by (simp add: csv_row_def)
qed

definition last_at :: "('a \<times> 'b) list \<Rightarrow> 'a \<Rightarrow> 'b \<Rightarrow> nat \<Rightarrow> bool" where
  "last_at ps k v j \<longleftrightarrow> j < length ps \<and> ps ! j = (k, v) \<and> (\<forall>i. j < i \<longrightarrow> i < length ps \<longrightarrow> fst (ps ! i) \<noteq> k)"

lemma last_at_snoc:
  "last_at (ps @ [p]) k v j \<longleftrightarrow> (if fst p = k then j = length ps \<and> snd p = v else last_at ps k v j)"
proof -
  have "(ps @ [p]) ! i = (if i < length ps then ps ! i else p)" if "i < Suc (length ps)" for i
    using that by (cases "i = length ps") (simp_all add: nth_append)
  then show ?thesis
    by (cases "j < length ps"; cases p) (auto simp: last_at_def less_Suc_eq)
qed

lemma map_of_rev_nth: "map_of (rev ps) k = Some v \<longleftrightarrow> (\<exists>j. last_at ps k v j)"
proof (induction ps rule: rev_induct)
  case (snoc p ps)
  then show ?case by (cases p) (simp add: last_at_snoc)
qed (simp add: last_at_def)

text \<open>A cell of a row: the last column of that name that the row has a field for.\<close>

lemma csv_row_cell:
  "csv_row header r col = Some v \<longleftrightarrow>
    (\<exists>j < length header. j < length r \<and> header ! j = col \<and> r ! j = v \<and>
      (\<forall>k. j < k \<longrightarrow> k < length header \<longrightarrow> k < length r \<longrightarrow> header ! k \<noteq> col))"
  unfolding csv_row_map_of map_of_rev_nth last_at_def by auto

lemma csv_row_column:
  "distinct header \<Longrightarrow> i < length header \<Longrightarrow> i < length r \<Longrightarrow> csv_row header r (header ! i) = Some (r ! i)"
  unfolding csv_row_map_of
  by (rule map_of_is_SomeI) (auto simp: map_fst_zip_take rev_map [symmetric] in_set_zip)

lemma csv_row_missing: "k \<notin> set (take (length r) header) \<Longrightarrow> csv_row header r k = None"
  by (simp add: csv_row_map_of map_of_eq_None_iff map_fst_zip_take min_def flip: set_map)
    (metis (full_types) linorder_linear take_all)

lemma parseCSV_render:
  assumes "list_all (\<lambda>r. r \<noteq> [] \<and> list_all plain_field r) (header # recs)"
  shows "parseCSV (Inr (render_table (header # recs))) = Inr (map (csv_row header) recs)"
proof -
  have "ReadAll (render_table (header # recs)) = Inr (header # recs)"
    using assms ReadAll_render [of "header # recs"] by (auto simp: list_all_iff)
  then show ?thesis by (simp add: parseCSV_def)
qed

text \<open>The files a tar sequence leaves behind, when every table parses.\<close>

fun tar_tables :: "tar_item list \<Rightarrow> (string \<times> smap list) list" where
  "tar_tables [] = []"
| "tar_tables (Entry name isdir content # items) =
    (case (isdir, parseCSV content) of
       (False, Inr rows) \<Rightarrow> (path_base name, rows) # tar_tables items
     | _ \<Rightarrow> tar_tables items)"
| "tar_tables (TarError e # items) = tar_tables items"

definition readable :: "tar_item \<Rightarrow> bool" where
  "readable it = (case it of TarError e \<Rightarrow> False
    | Entry name isdir content \<Rightarrow> isdir \<or> (\<exists>rows. parseCSV content = Inr rows))"

lemma parse_entries_readable:
  "list_all readable items \<Longrightarrow> parse_entries out items = Inr (out ++ map_of (rev (tar_tables items)))"
  by (induction out items rule: parse_entries.induct)
    (auto simp: readable_def split: sum.splits)

lemma parse_entries_unreadable:
  "\<not> list_all readable items \<Longrightarrow> \<exists>e. parse_entries out items = Inl e"
  by (induction out items rule: parse_entries.induct)
    (auto simp: readable_def split: sum.splits)

text \<open>An archive written from tables of plain fields is read back as those tables.\<close>

definition table_entry :: "string \<times> string list \<times> string list list \<Rightarrow> tar_item" where
  "table_entry t = (case t of (name, header, recs) \<Rightarrow> Entry name False (Inr (render_table (header # recs))))"

definition table_ok :: "string \<times> string list \<times> string list list \<Rightarrow> bool" where
  "table_ok t = (case t of (name, header, recs) \<Rightarrow> list_all (\<lambda>r. r \<noteq> [] \<and> list_all plain_field r) (header # recs))"

lemma tar_tables_rendered:
  "list_all table_ok ts \<Longrightarrow> tar_tables (map table_entry ts) =
    map (\<lambda>(name, header, recs). (path_base name, map (csv_row header) recs)) ts"
  by (induction ts) (auto simp: table_ok_def table_entry_def parseCSV_render split: prod.splits)

lemma last_table:
  "map_of (rev (map (\<lambda>(name, header, recs). (path_base name, map (csv_row header) recs)) ts)) n =
    map_option (\<lambda>(header, recs). map (csv_row header) recs)
      (map_of (rev (map (\<lambda>(name, header, recs). (path_base name, header, recs)) ts)) n)"
proof -
  have "rev (map (\<lambda>(name, header, recs). (path_base name, map (csv_row header) recs)) ts) =
      map (\<lambda>(n, header, recs). (n, map (csv_row header) recs))
        (rev (map (\<lambda>(name, header, recs). (path_base name, header, recs)) ts))"
    by (simp add: rev_map case_prod_beta comp_def)
  moreover have "map_of (map (\<lambda>(n, header, recs). (n, map (csv_row header) recs)) xs) n =
      map_option (\<lambda>(header, recs). map (csv_row header) recs) (map_of xs n)"
    for xs :: "(string \<times> string list \<times> string list list) list"
    by (induction xs) auto
  ultimately show ?thesis by simp
qed

lemma readable_rendered: "list_all table_ok ts \<Longrightarrow> list_all readable (map table_entry ts)"
  by (auto simp: list_all_iff table_ok_def table_entry_def readable_def parseCSV_render split: prod.splits)

subsection \<open>Cells\<close>

text \<open>The values the candidate columns of a row offer, in the order of the candidates.\<close>

definition usable :: "smap \<Rightarrow> string list \<Rightarrow> float64 list" where
  "usable row keys = List.map_filter (\<lambda>k. case row k of
     None \<Rightarrow> None | Some raw \<Rightarrow> if raw = [] then None else ParseFloat raw) keys"

lemma csvFloat_usable: "csvFloat row keys = (case usable row keys of [] \<Rightarrow> zero64 | v # _ \<Rightarrow> v)"
  by (induction keys) (auto simp: usable_def split: option.split)

text \<open>The first candidate column that holds a decimal gives the value, correctly rounded.\<close>

lemma csvFloat_decimal:
  assumes "list_all is_digit ds" "list_all is_digit fs" "ds \<noteq> []" and "normal_range (decimal_value ds fs)"
    and "\<And>j. j \<in> set before \<Longrightarrow> row j = None \<or> row j = Some []" and "row k = Some (decimal ds fs)"
  shows "\<bar>real_of (csvFloat row (before @ k # keys)) - decimal_value ds fs\<bar> \<le> decimal_value ds fs / 2 ^ 53"
proof -
  from ParseFloat_decimal [OF assms(1-4)] obtain v where v: "ParseFloat (decimal ds fs) = Some v"
    "\<bar>real_of v - decimal_value ds fs\<bar> \<le> decimal_value ds fs / 2 ^ 53"
    by blast
  have "decimal ds fs \<noteq> []" using assms(3) by (simp add: decimal_def)
  with v(1) assms(6) have "csvFloat row (k # keys) = v" by simp
  moreover have "csvFloat row (before @ k # keys) = csvFloat row (k # keys)"
    using assms(5) by (induction before) fastforce+
  ultimately show ?thesis using v(2) by simp
qed

subsection \<open>Bulk rows and per-entity responses\<close>

text \<open>
  A CSV row encodes a response for a volume: the same id, and in every column the value of
  the field. The appliance column may only fill in an appliance the inventory does not know.
\<close>

definition encodes_volume :: "topology \<Rightarrow> volume_perf \<Rightarrow> smap \<Rightarrow> bool" where
  "encodes_volume topo r row \<longleftrightarrow>
    row ''volume_id'' = Some (PerfVolumeID r) \<and>
    (idx (volumeApplianceID topo) (PerfVolumeID r) = [] \<longrightarrow> idx row ''appliance_id'' = []) \<and>
    csvFloat row [''avg_read_iops'', ''read_iops''] = to_float64 (ReadIops r) \<and>
    csvFloat row [''avg_write_iops'', ''write_iops''] = to_float64 (WriteIops r) \<and>
    csvFloat row [''avg_total_iops'', ''total_iops''] = to_float64 (TotalIops r) \<and>
    csvFloat row [''avg_read_bandwidth'', ''read_bandwidth''] = to_float64 (ReadBandwidth r) \<and>
    csvFloat row [''avg_write_bandwidth'', ''write_bandwidth''] = to_float64 (WriteBandwidth r) \<and>
    csvFloat row [''avg_read_latency''] = to_float64 (AvgReadLatency r) \<and>
    csvFloat row [''avg_write_latency''] = to_float64 (AvgWriteLatency r) \<and>
    csvFloat row [''avg_io_size''] = to_float64 (AvgIoSize r)"

definition encodes_appliance :: "appliance_perf \<Rightarrow> smap \<Rightarrow> bool" where
  "encodes_appliance r row \<longleftrightarrow>
    row ''appliance_id'' = Some (PerfApplianceID r) \<and>
    csvFloat row [''avg_read_iops'', ''read_iops''] = to_float64 (ReadIops r) \<and>
    csvFloat row [''avg_write_iops'', ''write_iops''] = to_float64 (WriteIops r) \<and>
    csvFloat row [''avg_total_iops'', ''total_iops''] = to_float64 (TotalIops r) \<and>
    csvFloat row [''avg_read_bandwidth'', ''read_bandwidth''] = to_float64 (ReadBandwidth r) \<and>
    csvFloat row [''avg_write_bandwidth'', ''write_bandwidth''] = to_float64 (WriteBandwidth r) \<and>
    csvFloat row [''avg_read_latency''] = to_float64 (AvgReadLatency r) \<and>
    csvFloat row [''avg_write_latency''] = to_float64 (AvgWriteLatency r) \<and>
    csvFloat row [''avg_io_workload_cpu_utilization'', ''io_workload_cpu_utilization''] =
      to_float64 (IoWorkloadCPUUtilization r)"

definition encodes_space :: "appliance_space \<Rightarrow> smap \<Rightarrow> bool" where
  "encodes_space r row \<longleftrightarrow>
    row ''appliance_id'' = Some (SpaceApplianceID r) \<and>
    csvFloat row [''physical_total'', ''last_physical_total''] = deref (PhysicalTotal r) \<and>
    csvFloat row [''physical_used'', ''last_physical_used''] = deref (PhysicalUsed r) \<and>
    csvFloat row [''logical_provisioned'', ''last_logical_provisioned''] = deref (LogicalProvisioned r) \<and>
    csvFloat row [''logical_used'', ''last_logical_used''] = deref (LogicalUsed r) \<and>
    csvFloat row [''data_reduction'', ''last_data_reduction''] = to_float64 (DataReduction r) \<and>
    csvFloat row [''efficiency_ratio'', ''last_efficiency_ratio''] = to_float64 (EfficiencyRatio r) \<and>
    csvFloat row [''snapshot_savings'', ''last_snapshot_savings''] = to_float64 (SnapshotSavings r) \<and>
    csvFloat row [''thin_savings'', ''last_thin_savings''] = to_float64 (ThinSavings r)"

lemma amap_put_new: "k \<notin> fst ` set m \<Longrightarrow> amap_put k v m = m @ [(k, v)]"
  unfolding amap_put_def by (induction m) auto

lemma latestByID_distinct:
  "distinct (map key items) \<Longrightarrow> latestByID items key = map (\<lambda>r. (key r, r)) items"
  by (induction items rule: rev_induct) (simp_all add: latestByID_def amap_put_new image_image)

text \<open>With at most one response per id, a loop over the newest responses visits them all once.\<close>

lemma range_latest_mset:
  assumes "range_order \<rho>" and "distinct (map key items)"
  shows "mset (concat (map f (amap_range \<rho> (latestByID items key)))) =
    mset (concat (map (\<lambda>r. f (key r, r)) items))"
proof -
  have "mset (amap_range \<rho> (latestByID items key)) = mset (map (\<lambda>r. (key r, r)) items)"
    using amap_range_mset [OF assms(1) latestByID_ok, of items key]
    by (simp add: latestByID_distinct [OF assms(2)])
  from concat_map_mset [OF this, of f] show ?thesis by (simp add: comp_def)
qed

lemma concat_map_list_all2:
  "list_all2 P xs ys \<Longrightarrow> (\<And>x y. P x y \<Longrightarrow> f x = g y) \<Longrightarrow> concat (map f xs) = concat (map g ys)"
  by (induction rule: list_all2_induct) auto

lemma bulk_volume_parity:
  assumes "range_order \<rho>" and "distinct (map PerfVolumeID resp)"
    and "list_all2 (encodes_volume topo) resp rows"
  shows "mset (deriveVolumePerf \<rho> array topo resp) = mset (deriveBulkVolumePerf array topo rows)"
  unfolding deriveVolumePerf_def deriveBulkVolumePerf_def range_latest_mset [OF assms(1,2)]
  by (rule arg_cong [where f = mset], rule concat_map_list_all2 [OF assms(3)])
    (auto simp: encodes_volume_def VolumeInfo_def VolumeGroupOf_def Let_def)

lemma bulk_appliance_parity:
  assumes "range_order \<rho>" and "distinct (map PerfApplianceID resp)"
    and "list_all2 encodes_appliance resp rows"
  shows "mset (deriveAppliancePerf \<rho> array topo resp) = mset (deriveBulkAppliancePerf array topo rows)"
  unfolding deriveAppliancePerf_def deriveBulkAppliancePerf_def range_latest_mset [OF assms(1,2)]
  by (rule arg_cong [where f = mset], rule concat_map_list_all2 [OF assms(3)])
    (auto simp: encodes_appliance_def Let_def)

lemma bulk_space_parity:
  assumes "range_order \<rho>" and "distinct (map SpaceApplianceID resp)"
    and "list_all2 encodes_space resp rows"
  shows "mset (deriveApplianceSpace \<rho> array topo resp) = mset (deriveBulkApplianceSpace array topo rows)"
  unfolding deriveApplianceSpace_def deriveBulkApplianceSpace_def range_latest_mset [OF assms(1,2)]
  by (rule arg_cong [where f = mset], rule concat_map_list_all2 [OF assms(3)])
    (auto simp: encodes_space_def Let_def)

subsection \<open>The labels of a volume\<close>

lemma deriveBulkVolumePerf_labels:
  assumes "s \<in> set (deriveBulkVolumePerf array topo rows)" and "Label ''volume_id'' vid \<in> set (Labels s)"
    and "VolumeInfo topo vid = (nm, appl, known)" and "VolumeGroupOf topo vid = (gid, gname)" and "appl \<noteq> []"
  shows "Labels s = volumeLabels array (ClusterID topo) (if nm = [] then vid else nm) vid appl
    (TopoApplianceName topo appl) gname gid"
proof -
  define ap where "ap = (\<lambda>r. if fst (snd (VolumeInfo topo (idx r ''volume_id''))) = [] then idx r ''appliance_id''
    else fst (snd (VolumeInfo topo (idx r ''volume_id''))))"
  define l where "l = (\<lambda>r v. volumeLabels array (ClusterID topo)
    (if fst (VolumeInfo topo v) = [] then v else fst (VolumeInfo topo v)) v (ap r)
    (TopoApplianceName topo (ap r)) (snd (VolumeGroupOf topo v)) (fst (VolumeGroupOf topo v)))"
  from assms(1) obtain r where r: "Labels s = l r (idx r ''volume_id'')"
    by (auto simp: deriveBulkVolumePerf_def Let_def split_beta l_def ap_def cong: if_cong)
  with assms(2) have "idx r ''volume_id'' = vid" by (simp add: l_def volumeLabels_def baseLabels_def)
  moreover from this assms(3,5) have "ap r = appl" by (simp add: ap_def)
  ultimately show ?thesis using r assms(3,4) by (simp add: l_def)
qed

lemma volume_labels:
  assumes "distinct (map VolumeID vols)" "distinct (map ApplianceID as)" "distinct (map GroupID vgs)"
    and "v \<in> set vols" and "a \<in> set as" "ApplianceID a \<noteq> []" "VolumeApplianceID v = ApplianceID a"
    and "g \<in> set vgs" "only_group vols vgs (VolumeID v) (GroupID g)"
    and "s \<in> set (deriveVolumePerf \<rho> array (NewTopology cl as vols vgs nas fs fc eth) resp) \<union>
      set (deriveBulkVolumePerf array (NewTopology cl as vols vgs nas fs fc eth) rows)"
    and "Label ''volume_id'' (VolumeID v) \<in> set (Labels s)"
  shows "Labels s = volumeLabels array (ClusterRecordID cl) (if VolumeName v = [] then VolumeID v else VolumeName v)
    (VolumeID v) (ApplianceID a) (ApplianceName a) (GroupName g) (GroupID g)"
proof -
  note info = VolumeInfo_resolved [OF assms(1,4)] and group = VolumeGroupOf_resolved [OF assms(3,8,9)]
  have "VolumeApplianceID v \<noteq> []" using assms(6,7) by simp
  note labels = deriveVolumePerf_labels [OF _ assms(11) info group] deriveBulkVolumePerf_labels [OF _ assms(11) info group this]
  from assms(10) show ?thesis
    using labels ApplianceName_resolved [OF assms(2,5)] assms(7) by (auto cong: if_cong)
qed

subsection \<open>Tracing the bulk path\<close>

text \<open>A server whose bodies can be read: then the tracing transport changes nothing of a download.\<close>

lemma bulk_client_readable:
  assumes "\<And>req resp. tls_transport http insecure req = Inr resp \<Longrightarrow> (\<exists>b. Body resp = Inr b) \<and> CloseError resp = None"
  shows "bulk_client http insecure tr array = tls_transport http insecure"
proof -
  have "fst (RoundTrip array (tls_transport http insecure) req) = tls_transport http insecure req" for req
  proof (cases "tls_transport http insecure req")
    case (Inr resp)
    with assms obtain b where "Body resp = Inr b" "CloseError resp = None" by blast
    from RoundTrip_transparent [of "tls_transport http insecure" req, OF Inr this] Inr show ?thesis by simp
  qed (simp add: RoundTrip_def)
  then show ?thesis by (simp add: bulk_client_def newTracingRoundTripper_def Let_def)
qed

lemma requests_untraced:
  "bulkEnable http client (ep\<lparr>EpTrace := t\<rparr>) base = bulkEnable http client ep base"
  "bulkDownload http client (ep\<lparr>EpTrace := t\<rparr>) base = bulkDownload http client ep base"
  unfolding bulkEnable_def bulkDownload_def
  by (cases ep, simp only: endpoint.update_convs endpoint.select_convs)+

lemma download_untraced:
  assumes "\<And>req resp. tls_transport http (EpInsecure ep) req = Inr resp \<Longrightarrow>
    (\<exists>b. Body resp = Inr b) \<and> CloseError resp = None"
  shows "downloadBulkArchive http (ep\<lparr>EpTrace := t\<rparr>) = downloadBulkArchive http ep"
  by (simp add: downloadBulkArchive_def Let_def bulk_client_readable [OF assms] requests_untraced split: option.split)

end
