(* ===== verification/ClientFacts.thy ===== *)
theory ClientFacts
  imports ArrayClient BulkFacts
begin

text \<open>
  Lemmas about the API client: when its operations return, which errors reach the caller, the
  labels and schema of everything it emits, the caching of the version, and the parity of the
  bulk and the per-entity path.
\<close>

subsection \<open>Returning\<close>

definition client_ok :: "array_client \<Rightarrow> bool" where
  "client_ok c \<longleftrightarrow> maxConcurrency c \<ge> 1"

text \<open>Every paged resource of the array has a page that is not full (or an error).\<close>

definition ends :: "'a pages \<Rightarrow> int \<Rightarrow> bool" where
  "ends get ps \<longleftrightarrow> (\<exists>k. \<not> full_page get ps (int k * ps))"

definition finite_inventory :: "gp_client \<Rightarrow> bool" where
  "finite_inventory gp \<longleftrightarrow>
    ends (\<lambda>start. gpGetAlerts gp alertPageSize start [(''state'', ''eq.ACTIVE'')]) alertPageSize \<and>
    ends (query_page (gpQueryDrives gp ''hardware'') drive_query) 2000 \<and>
    ends (query_page (gpQueryWitnesses gp ''witness'') witness_query) 2000 \<and>
    ends (query_page (gpQuerySessions gp ''replication_session'') session_query) 2000"

lemma ends_returns: "ends get ps \<Longrightarrow> \<exists>r. page_loop get ps 0 [] = Some r"
  using page_loop_returns [of get ps 0 "[]"] by (simp add: ends_def)

lemma ends_first: "\<not> full_page get ps 0 \<Longrightarrow> ends get ps"
  unfolding ends_def by (rule exI [of _ 0]) simp

lemma NewArrayClient_ok: "NewArrayClient login cfg n tr = Inr c \<Longrightarrow> client_ok c"
  by (auto simp: NewArrayClient_def Let_def client_ok_def defaultMaxConcurrency_def split: option.splits if_splits)

lemma NewArrayClient_fields:
  "NewArrayClient login cfg n tr = Inr c \<Longrightarrow> ClientName c = ArrayName cfg \<and> softwareVersion c = [] \<and>
    ClientEndpoint c = Endpoint cfg \<and> ClientInterval c = MetricsInterval cfg \<and>
    (n \<ge> 1 \<longrightarrow> maxConcurrency c = n)"
  by (auto simp: NewArrayClient_def Let_def split: option.splits)

lemma client_limit [simp]: "client_ok c \<Longrightarrow> maxConcurrency c \<noteq> 0"
  by (simp add: client_ok_def)

lemmas fan_defs = replicationTransfers_def fileSystemPerf_def volumeGroupPerf_def enumerateAppliances_def

lemma fans_return:
  assumes "client_ok c"
  shows "\<exists>ss. replicationTransfers gp c topo ids = Some ss" "\<exists>ss. fileSystemPerf gp c topo = Some ss"
    "\<exists>ss. volumeGroupPerf gp c topo = Some ss" "\<exists>as. enumerateAppliances \<rho> gp c vols fc eth = Some as"
  using assms by (simp_all add: fan_defs)

lemma replicationMetrics_returns:
  assumes "client_ok c" and "enumerateReplicationSessions gp = Some r"
  shows "\<exists>ss. replicationMetrics gp c topo = Some ss"
proof (cases r)
  case (Inr sessions)
  obtain tr where "replicationTransfers gp c topo (replicatedVolumeResources sessions) = Some tr"
    using fans_return(1) [OF assms(1)] by blast
  with Inr assms(2) show ?thesis by (simp add: replicationMetrics_def)
qed (simp add: replicationMetrics_def assms)

lemma commonMetrics_returns:
  assumes "client_ok c" and "finite_inventory gp"
  shows "\<exists>ss. commonMetrics \<rho> gp c topo = Some ss"
proof -
  from assms(2) obtain dr wi se where
    "enumerateDrives gp = Some dr" "enumerateWitnesses gp = Some wi" "enumerateReplicationSessions gp = Some se"
    unfolding finite_inventory_def enumerateDrives_def enumerateWitnesses_def enumerateReplicationSessions_def
    by (blast dest: ends_returns)
  moreover from this(3) obtain re where "replicationMetrics gp c topo = Some re"
    using replicationMetrics_returns [OF assms(1)] by blast
  moreover obtain fs vg where "fileSystemPerf gp c topo = Some fs" "volumeGroupPerf gp c topo = Some vg"
    using fans_return(2,3) [OF assms(1)] by blast
  ultimately show ?thesis by (simp add: commonMetrics_def driveMetrics_def witnessMetrics_def)
qed

lemma PerEntityMetrics_returns:
  "client_ok c \<Longrightarrow> finite_inventory gp \<Longrightarrow> \<exists>ss. PerEntityMetrics \<rho> gp c topo = Some (Inr ss)"
  using commonMetrics_returns [of c gp \<rho> topo] by (auto simp: PerEntityMetrics_def)

lemma BulkMetrics_returns:
  "client_ok c \<Longrightarrow> finite_inventory gp \<Longrightarrow> \<exists>r. BulkMetrics \<rho> http gp c topo = Some r"
  using commonMetrics_returns [of c gp \<rho> topo] by (auto simp: BulkMetrics_def split: sum.split)

lemma GetTopology_returns:
  assumes "client_ok c" and "finite_inventory gp"
  shows "\<exists>r. GetTopology \<rho> gp c = Some r"
proof -
  from assms(2) obtain al where "collectActiveAlerts (gpGetAlerts gp) alertPageSize = Some al"
    unfolding finite_inventory_def collectActiveAlerts_def by (blast dest: ends_returns)
  moreover obtain as where "enumerateAppliances \<rho> gp c (or_nil (gpGetVolumes gp)) (or_nil (gpGetFCPorts gp))
      (or_nil (gpGetEthPorts gp)) = Some as"
    using fans_return(4) [OF assms(1)] by blast
  ultimately show ?thesis by (simp add: GetTopology_def Let_def split: sum.split)
qed

subsection \<open>Errors\<close>

lemma PerEntityMetrics_no_error: "PerEntityMetrics \<rho> gp c topo = Some r \<Longrightarrow> \<exists>ss. r = Inr ss"
  by (auto simp: PerEntityMetrics_def bind_eq_Some_conv)

text \<open>Only the cluster query is fatal.\<close>

lemma GetTopology_error:
  "GetTopology \<rho> gp c = Some (Inl e) \<longleftrightarrow>
    (\<exists>e'. gpGetCluster gp = Inl e' \<and> e = Wrap (''array '' @ ClientName c @ '': get cluster'') e')"
  by (auto simp: GetTopology_def Let_def bind_eq_Some_conv split: sum.split)

lemma GetTopology_cluster:
  "GetTopology \<rho> gp c = Some (Inr topo) \<Longrightarrow> \<exists>cl. gpGetCluster gp = Inr cl \<and> ClusterID topo = ClusterRecordID cl"
  by (auto simp: GetTopology_def Let_def bind_eq_Some_conv ClusterID_def NewTopology_def split: sum.splits)

lemma BulkMetrics_error:
  assumes "client_ok c" and "finite_inventory gp"
  shows "(\<exists>e. BulkMetrics \<rho> http gp c topo = Some (Inl e)) \<longleftrightarrow>
    (case downloadBulkArchive http (client_endpoint c) of Inl e \<Rightarrow> True
     | Inr archive \<Rightarrow> \<exists>e. parseBulkArchive archive = Inl e)"
  using commonMetrics_returns [OF assms, of \<rho> topo] by (auto simp: BulkMetrics_def split: sum.split)

subsection \<open>Labels and schema\<close>

lemma samples_ok_parallel:
  "parallelSamples items limit fn = Some ss \<Longrightarrow> (\<And>x. samples_ok a k (fn x)) \<Longrightarrow> samples_ok a k ss"
  by (auto dest!: parallelSamples_cases intro: samples_ok_concat)

lemma samples_ok_fans:
  "replicationTransfers gp c topo ids = Some ss \<Longrightarrow> samples_ok (ClientName c) (ClusterID topo) ss"
  "fileSystemPerf gp c topo = Some ss \<Longrightarrow> samples_ok (ClientName c) (ClusterID topo) ss"
  "volumeGroupPerf gp c topo = Some ss \<Longrightarrow> samples_ok (ClientName c) (ClusterID topo) ss"
  unfolding replicationTransfers_def fileSystemPerf_def volumeGroupPerf_def
  by (erule samples_ok_parallel, simp split: sum.split)+

lemma samples_ok_replication:
  "replicationMetrics gp c topo = Some ss \<Longrightarrow> samples_ok (ClientName c) (ClusterID topo) ss"
  by (cases "enumerateReplicationSessions gp")
    (auto simp: replicationMetrics_def bind_eq_Some_conv samples_ok_fans Let_def split: sum.splits)

lemma samples_ok_queries:
  "driveMetrics gp c topo = Some ss \<Longrightarrow> samples_ok (ClientName c) (ClusterID topo) ss"
  "witnessMetrics gp c topo = Some ss \<Longrightarrow> samples_ok (ClientName c) (ClusterID topo) ss"
  "samples_ok (ClientName c) (ClusterID topo) (clusterSpace gp c topo)"
  by (cases "enumerateDrives gp"; cases "enumerateWitnesses gp";
      auto simp: driveMetrics_def witnessMetrics_def clusterSpace_def split: sum.splits)+

lemma samples_ok_common:
  "commonMetrics \<rho> gp c topo = Some ss \<Longrightarrow> samples_ok (ClientName c) (ClusterID topo) ss"
  by (auto simp: commonMetrics_def bind_eq_Some_conv samples_ok_fans samples_ok_queries samples_ok_replication)

lemma samples_ok_per_entity:
  "PerEntityMetrics \<rho> gp c topo = Some (Inr ss) \<Longrightarrow> samples_ok (ClientName c) (ClusterID topo) ss"
  by (auto simp: PerEntityMetrics_def bind_eq_Some_conv appliance_samples_def volume_samples_def
      intro!: samples_ok_concat dest: samples_ok_common split: sum.splits)

lemma samples_ok_bulk:
  "BulkMetrics \<rho> http gp c topo = Some (Inr ss) \<Longrightarrow> samples_ok (ClientName c) (ClusterID topo) ss"
  by (auto simp: BulkMetrics_def bind_eq_Some_conv dest: samples_ok_common split: sum.splits)

subsection \<open>Version cache\<close>

lemma sprintf_version_nonempty: "sprintf_version v \<noteq> []"
  by (simp add: sprintf_version_def)

text \<open>Once detected, the version decides; the array is not asked again.\<close>

lemma BulkCapable_cached: "softwareVersion c \<noteq> [] \<Longrightarrow> BulkCapable gp c = (bulkCapableFromVersion (softwareVersion c), c)"
  by (simp add: BulkCapable_def)

lemma BulkCapable_twice: "BulkCapable gp c = (b, c') \<Longrightarrow> softwareVersion c' \<noteq> [] \<Longrightarrow> BulkCapable gp' c' = (b, c')"
  by (auto simp: BulkCapable_def Let_def split: if_splits sum.splits)

lemma BulkCapable_keeps:
  "ClientName (snd (BulkCapable gp c)) = ClientName c" "client_ok (snd (BulkCapable gp c)) = client_ok c"
  by (auto simp: BulkCapable_def Let_def client_ok_def split: sum.split)

lemma BulkCapable_unknown:
  "softwareVersion c = [] \<Longrightarrow> gpSoftwareVersion gp = Inl e \<Longrightarrow> BulkCapable gp c = (False, c)"
  by (simp add: BulkCapable_def)

subsection \<open>Appliances\<close>

lemma appliance_ids_keys:
  "amap_ok (appliance_ids vols fc eth) \<and>
   set (amap_keys (appliance_ids vols fc eth)) =
    (VolumeApplianceID ` set vols \<union> PortApplianceID ` set fc \<union> PortApplianceID ` set eth) - {[]}"
proof -
  have "amap_ok (foldl (\<lambda>seen i. if i \<noteq> [] then amap_put i () seen else seen) [] ids) \<and>
      set (amap_keys (foldl (\<lambda>seen i. if i \<noteq> [] then amap_put i () seen else seen) [] ids)) = set ids - {[]}"
    for ids :: "string list"
  proof (induction ids rule: rev_induct)
    case Nil
    show ?case using al.invar_emp by (simp add: amap_keys_def)
  next
    case (snoc i ids)
    then show ?case by (cases "i = []") (auto simp: al.invar_put al.keys_put)
  qed
  from this [of "map VolumeApplianceID vols @ map PortApplianceID fc @ map PortApplianceID eth"]
  show ?thesis by (simp add: appliance_ids_def Un_assoc)
qed

lemma enumerateAppliances_set:
  assumes "range_order \<rho>" and "enumerateAppliances \<rho> gp c vols fc eth = Some as"
  shows "set as = {a. \<exists>i \<in> (VolumeApplianceID ` set vols \<union> PortApplianceID ` set fc \<union> PortApplianceID ` set eth) - {[]}.
    gpGetAppliance gp i = Inr a \<and> ApplianceID a \<noteq> []}"
proof -
  let ?ids = "amap_keys (appliance_ids vols fc eth)"
  have fetched: "fetch_appliance gp i = a \<and> ApplianceID a \<noteq> [] \<longleftrightarrow> gpGetAppliance gp i = Inr a \<and> ApplianceID a \<noteq> []"
    for i a by (auto simp: fetch_appliance_def blank_appliance_def split: sum.split)
  have "as = filter (\<lambda>a. ApplianceID a \<noteq> []) (map (fetch_appliance gp) (\<rho> ?ids))"
    using assms(2) by (auto simp: enumerateAppliances_def fan_out_def Let_def bind_eq_Some_conv split: if_splits)
  then have "set as = {a. \<exists>i \<in> set ?ids. fetch_appliance gp i = a \<and> ApplianceID a \<noteq> []}"
    using range_order_set [OF assms(1)] by auto
  also have "\<dots> = {a. \<exists>i \<in> set ?ids. gpGetAppliance gp i = Inr a \<and> ApplianceID a \<noteq> []}"
    using fetched by blast
  finally show ?thesis using appliance_ids_keys [of vols fc eth] by simp
qed

subsection \<open>Parity of the two paths\<close>

lemma latestByID_same:
  "items \<noteq> [] \<Longrightarrow> list_all (\<lambda>r. key r = k) items \<Longrightarrow> latestByID items key = [(k, last items)]"
proof (induction items rule: rev_induct)
  case (snoc x xs)
  then show ?case by (cases "xs = []") (simp_all add: latestByID_def amap_put_def)
qed simp

lemma amap_range_single: "range_order \<rho> \<Longrightarrow> amap_range \<rho> [(k, v)] = [(k, v)]"
proof -
  assume "range_order \<rho>"
  then have "mset (\<rho> [k]) = {#k#}" by (simp add: range_order_def)
  then have "\<rho> [k] = [k]" by simp
  then show ?thesis by (simp add: amap_range_def amap_keys_def amap_get_def)
qed

text \<open>
  What the per-entity path shows for an entity is its newest response, and nothing for a query that fails or
  answers with nothing. A table of the archive matches the queries for the entities \<open>xs\<close> when a reply carries
  only the id that was asked for, and the rows about \<open>xs\<close> are, in some order, one encoding of each newest
  response. Rows about other entities (snapshots, clones) are not constrained.
\<close>

definition newest :: "err + 'r list \<Rightarrow> 'r option" where
  "newest reply = (case reply of Inl e \<Rightarrow> None | Inr rs \<Rightarrow> if rs = [] then None else Some (last rs))"

definition inside :: "string \<Rightarrow> string list \<Rightarrow> smap list \<Rightarrow> smap list" where
  "inside column ids rows = filter (\<lambda>row. List.member ids (idx row column)) rows"

definition outside :: "string \<Rightarrow> string list \<Rightarrow> smap list \<Rightarrow> smap list" where
  "outside column ids rows = filter (\<lambda>row. \<not> List.member ids (idx row column)) rows"

definition table_matches ::
  "('r \<Rightarrow> smap \<Rightarrow> bool) \<Rightarrow> ('r \<Rightarrow> string) \<Rightarrow> (string \<Rightarrow> err + 'r list) \<Rightarrow> string \<Rightarrow> string list \<Rightarrow> smap list \<Rightarrow> bool" where
  "table_matches encodes key reply column ids rows \<longleftrightarrow>
    (\<forall>i \<in> set ids. \<forall>rs. reply i = Inr rs \<longrightarrow> (\<forall>r \<in> set rs. key r = i)) \<and>
    (\<exists>ys. mset ys = mset (inside column ids rows) \<and>
      list_all2 encodes (List.map_filter (\<lambda>i. newest (reply i)) ids) ys)"

definition archive_matches :: "gp_client \<Rightarrow> array_client \<Rightarrow> topology \<Rightarrow> csv_files \<Rightarrow> bool" where
  "archive_matches gp c topo files \<longleftrightarrow>
    table_matches encodes_appliance PerfApplianceID (\<lambda>i. gpPerfByAppliance gp i (ClientInterval c))
      ''appliance_id'' (map ApplianceID (Appliances topo)) (file_rows files ''performance_metrics_by_appliance.csv'') \<and>
    table_matches encodes_space SpaceApplianceID (\<lambda>i. gpSpaceByAppliance gp i (ClientInterval c))
      ''appliance_id'' (map ApplianceID (Appliances topo)) (file_rows files ''space_metrics_by_appliance.csv'') \<and>
    table_matches (encodes_volume topo) PerfVolumeID (\<lambda>i. gpPerfByVolume gp i (ClientInterval c))
      ''volume_id'' (map VolumeID (Volumes topo)) (file_rows files ''performance_metrics_by_volume.csv'')"

text \<open>The samples of the rows about entities the inventory does not have.\<close>

definition outside_samples :: "array_client \<Rightarrow> topology \<Rightarrow> csv_files \<Rightarrow> sample list" where
  "outside_samples c topo files =
    (let appliances = map ApplianceID (Appliances topo); volumes = map VolumeID (Volumes topo)
     in deriveBulkAppliancePerf (ClientName c) topo
          (outside ''appliance_id'' appliances (file_rows files ''performance_metrics_by_appliance.csv'')) @
        deriveBulkApplianceSpace (ClientName c) topo
          (outside ''appliance_id'' appliances (file_rows files ''space_metrics_by_appliance.csv'')) @
        deriveBulkVolumePerf (ClientName c) topo
          (outside ''volume_id'' volumes (file_rows files ''performance_metrics_by_volume.csv'')))"

lemma inside_outside:
  "mset (concat (map f rows)) =
    mset (concat (map f (inside column ids rows))) + mset (concat (map f (outside column ids rows)))"
  by (induction rows) (simp_all add: inside_def outside_def)

text \<open>
  A derive function \<open>per\<close> over the newest response of each id, and \<open>bulk\<close> over single rows: if they agree on a
  response and its encoding, the queries and the matching table give the same samples.
\<close>

lemma matching_samples:
  assumes match: "table_matches encodes key reply column ids rows"
    and range: "range_order \<rho>" and none: "per [] = []"
    and agree: "\<And>rs row i. amap_range \<rho> (latestByID rs key) = [(i, last rs)] \<Longrightarrow> key (last rs) = i \<Longrightarrow>
      encodes (last rs) row \<Longrightarrow> per rs = bulk row"
  shows "mset (concat (map (\<lambda>i. case reply i of Inl e \<Rightarrow> [] | Inr rs \<Rightarrow> per rs) ids)) =
    mset (concat (map bulk (inside column ids rows)))"
proof -
  from match obtain ys where ys: "mset ys = mset (inside column ids rows)"
    "list_all2 encodes (List.map_filter (\<lambda>i. newest (reply i)) ids) ys"
    and keys: "\<forall>i \<in> set ids. \<forall>rs. reply i = Inr rs \<longrightarrow> list_all (\<lambda>r. key r = i) rs"
    by (auto simp: table_matches_def list_all_iff)
  from ys(2) keys have "concat (map (\<lambda>i. case reply i of Inl e \<Rightarrow> [] | Inr rs \<Rightarrow> per rs) ids) = concat (map bulk ys)"
  proof (induction ids arbitrary: ys)
    case (Cons i ids)
    have IH: "concat (map (\<lambda>i. case reply i of Inl e \<Rightarrow> [] | Inr rs \<Rightarrow> per rs) ids) = concat (map bulk ys)"
      if "list_all2 encodes (List.map_filter (\<lambda>i. newest (reply i)) ids) ys" for ys
      by (rule Cons.IH) (use that Cons.prems(2) in simp_all)
    show ?case
    proof (cases "newest (reply i)")
      case None
      then have "(case reply i of Inl e \<Rightarrow> [] | Inr rs \<Rightarrow> per rs) = []"
        using none by (auto simp: newest_def split: sum.splits if_splits)
      moreover have "list_all2 encodes (List.map_filter (\<lambda>i. newest (reply i)) ids) ys" using Cons.prems(1) None by simp
      ultimately show ?thesis using IH [of ys] by simp
    next
      case (Some r)
      then obtain rs where rs: "reply i = Inr rs" "rs \<noteq> []" "r = last rs"
        by (auto simp: newest_def split: sum.splits if_splits)
      have k: "list_all (\<lambda>r. key r = i) rs" using Cons.prems(2) rs(1) by simp
      from Cons.prems(1) Some rs(3) obtain y ys' where y: "ys = y # ys'" "encodes (last rs) y"
        "list_all2 encodes (List.map_filter (\<lambda>i. newest (reply i)) ids) ys'"
        by (auto simp: list_all2_Cons1)
      have "per rs = bulk y"
        by (rule agree [where i = i])
          (use k rs(2) y(2) in \<open>simp_all add: latestByID_same [OF rs(2) k] amap_range_single [OF range] list_all_iff\<close>)
      then show ?thesis using rs(1) by (simp add: y(1) IH [OF y(3)])
    qed
  qed simp
  with concat_map_mset [OF ys(1), of bulk] show ?thesis by simp
qed

lemma bulk_single:
  "deriveBulkAppliancePerf a topo rows = concat (map (\<lambda>row. deriveBulkAppliancePerf a topo [row]) rows)"
  "deriveBulkApplianceSpace a topo rows = concat (map (\<lambda>row. deriveBulkApplianceSpace a topo [row]) rows)"
  "deriveBulkVolumePerf a topo rows = concat (map (\<lambda>row. deriveBulkVolumePerf a topo [row]) rows)"
  by (simp_all add: deriveBulkAppliancePerf_def deriveBulkApplianceSpace_def deriveBulkVolumePerf_def)

lemma amap_range_empty: "range_order \<rho> \<Longrightarrow> amap_range \<rho> [] = []"
proof -
  assume "range_order \<rho>"
  then have "mset (\<rho> []) = mset []" by (simp add: range_order_def)
  then show ?thesis by (simp add: amap_range_def amap_keys_def)
qed

lemma derive_none [simp]:
  "range_order \<rho> \<Longrightarrow> deriveAppliancePerf \<rho> a topo [] = []"
  "range_order \<rho> \<Longrightarrow> deriveApplianceSpace \<rho> a topo [] = []"
  "range_order \<rho> \<Longrightarrow> deriveVolumePerf \<rho> a topo [] = []"
  by (simp_all add: deriveAppliancePerf_def deriveApplianceSpace_def deriveVolumePerf_def latestByID_def
      amap_range_empty)

lemma appliance_perf_matches:
  assumes "range_order \<rho>" and "table_matches encodes_appliance PerfApplianceID reply ''appliance_id'' ids rows"
  shows "mset (concat (map (\<lambda>i. case reply i of Inl e \<Rightarrow> [] | Inr perf \<Rightarrow> deriveAppliancePerf \<rho> a topo perf) ids)) =
    mset (deriveBulkAppliancePerf a topo (inside ''appliance_id'' ids rows))"
  by (subst bulk_single(1), rule matching_samples [OF assms(2,1)])
    (simp_all add: assms(1), simp add: deriveAppliancePerf_def deriveBulkAppliancePerf_def encodes_appliance_def Let_def)

lemma appliance_space_matches:
  assumes "range_order \<rho>" and "table_matches encodes_space SpaceApplianceID reply ''appliance_id'' ids rows"
  shows "mset (concat (map (\<lambda>i. case reply i of Inl e \<Rightarrow> [] | Inr space \<Rightarrow> deriveApplianceSpace \<rho> a topo space) ids)) =
    mset (deriveBulkApplianceSpace a topo (inside ''appliance_id'' ids rows))"
  by (subst bulk_single(2), rule matching_samples [OF assms(2,1)])
    (simp_all add: assms(1), simp add: deriveApplianceSpace_def deriveBulkApplianceSpace_def encodes_space_def Let_def)

lemma volume_perf_matches:
  assumes "range_order \<rho>" and "table_matches (encodes_volume topo) PerfVolumeID reply ''volume_id'' ids rows"
  shows "mset (concat (map (\<lambda>i. case reply i of Inl e \<Rightarrow> [] | Inr perf \<Rightarrow> deriveVolumePerf \<rho> a topo perf) ids)) =
    mset (deriveBulkVolumePerf a topo (inside ''volume_id'' ids rows))"
  by (subst bulk_single(3), rule matching_samples [OF assms(2,1)])
    (simp_all add: assms(1), auto simp: deriveVolumePerf_def deriveBulkVolumePerf_def encodes_volume_def Let_def
      VolumeInfo_def VolumeGroupOf_def)

lemma mset_concat_append:
  "mset (concat (map (\<lambda>x. f x @ g x) xs)) = mset (concat (map f xs)) + mset (concat (map g xs))"
  by (induction xs) simp_all

lemma paths_parity:
  assumes \<rho>: "range_order \<rho>"
    and dl: "downloadBulkArchive http (client_endpoint c) = Inr archive" "parseBulkArchive archive = Inr files"
    and match: "archive_matches gp c topo files"
    and per: "PerEntityMetrics \<rho> gp c topo = Some (Inr ss)"
  shows "\<exists>bs. BulkMetrics \<rho> http gp c topo = Some (Inr bs) \<and> mset bs = mset ss + mset (outside_samples c topo files)"
proof -
  from per obtain common where com: "commonMetrics \<rho> gp c topo = Some common"
    and ss: "ss = concat (map (appliance_samples \<rho> gp c topo) (Appliances topo)) @
      concat (map (volume_samples \<rho> gp c topo) (Volumes topo)) @ common"
    by (auto simp: PerEntityMetrics_def bind_eq_Some_conv)
  note matches = match [unfolded archive_matches_def]
  let ?name = "ClientName c" and ?as = "map ApplianceID (Appliances topo)" and ?vs = "map VolumeID (Volumes topo)"
    and ?rows = "file_rows files"
  have rows: "mset (deriveBulkAppliancePerf ?name topo (?rows ''performance_metrics_by_appliance.csv'')) =
      mset (deriveBulkAppliancePerf ?name topo (inside ''appliance_id'' ?as (?rows ''performance_metrics_by_appliance.csv''))) +
      mset (deriveBulkAppliancePerf ?name topo (outside ''appliance_id'' ?as (?rows ''performance_metrics_by_appliance.csv'')))"
    "mset (deriveBulkApplianceSpace ?name topo (?rows ''space_metrics_by_appliance.csv'')) =
      mset (deriveBulkApplianceSpace ?name topo (inside ''appliance_id'' ?as (?rows ''space_metrics_by_appliance.csv''))) +
      mset (deriveBulkApplianceSpace ?name topo (outside ''appliance_id'' ?as (?rows ''space_metrics_by_appliance.csv'')))"
    "mset (deriveBulkVolumePerf ?name topo (?rows ''performance_metrics_by_volume.csv'')) =
      mset (deriveBulkVolumePerf ?name topo (inside ''volume_id'' ?vs (?rows ''performance_metrics_by_volume.csv''))) +
      mset (deriveBulkVolumePerf ?name topo (outside ''volume_id'' ?vs (?rows ''performance_metrics_by_volume.csv'')))"
    unfolding deriveBulkAppliancePerf_def deriveBulkApplianceSpace_def deriveBulkVolumePerf_def
    by (rule inside_outside)+
  note perf = appliance_perf_matches [OF \<rho> matches [THEN conjunct1], of "ClientName c" topo, unfolded map_map comp_def]
  note space = appliance_space_matches [OF \<rho> matches [THEN conjunct2, THEN conjunct1], of "ClientName c" topo,
      unfolded map_map comp_def]
  note vol = volume_perf_matches [OF \<rho> matches [THEN conjunct2, THEN conjunct2], of "ClientName c",
      unfolded map_map comp_def]
  have "mset (concat (map (appliance_samples \<rho> gp c topo) (Appliances topo))) =
      mset (deriveBulkAppliancePerf ?name topo (inside ''appliance_id'' ?as (?rows ''performance_metrics_by_appliance.csv''))) +
      mset (deriveBulkApplianceSpace ?name topo (inside ''appliance_id'' ?as (?rows ''space_metrics_by_appliance.csv'')))"
    unfolding appliance_samples_def [abs_def] mset_concat_append perf space ..
  moreover have "mset (concat (map (volume_samples \<rho> gp c topo) (Volumes topo))) =
      mset (deriveBulkVolumePerf ?name topo (inside ''volume_id'' ?vs (?rows ''performance_metrics_by_volume.csv'')))"
    unfolding volume_samples_def [abs_def] vol ..
  moreover have "BulkMetrics \<rho> http gp c topo = Some (Inr (
      deriveBulkAppliancePerf ?name topo (?rows ''performance_metrics_by_appliance.csv'') @
      deriveBulkApplianceSpace ?name topo (?rows ''space_metrics_by_appliance.csv'') @
      deriveBulkVolumePerf ?name topo (?rows ''performance_metrics_by_volume.csv'') @ common))"
    using dl com by (simp add: BulkMetrics_def)
  moreover have "A1 + A2 + (S1 + S2 + (V1 + V2 + C)) = A1 + S1 + (V1 + C) + (A2 + (S2 + V2))"
    for A1 A2 S1 S2 V1 V2 C :: "sample multiset"
    by (simp add: ac_simps)
  ultimately show ?thesis by (simp add: ss outside_samples_def Let_def rows)
qed

subsection \<open>Silent degradation\<close>

text \<open>Only a 404 is degraded without a trace.\<close>

lemma isNotFound_iff: "isNotFound e \<longleftrightarrow> (\<exists>msgs. e = foldr Wrap msgs (APIError 404))"
proof
  show "isNotFound e \<Longrightarrow> \<exists>msgs. e = foldr Wrap msgs (APIError 404)"
  proof (induction e)
    case (APIError x)
    then show ?case by (intro exI [of _ "[]"]) simp
  next
    case (Wrap msg e)
    then obtain msgs where "e = foldr Wrap msgs (APIError 404)" by auto
    then show ?case by (intro exI [of _ "msg # msgs"]) simp
  qed simp
  have "isNotFound (foldr Wrap msgs (APIError 404))" for msgs by (induction msgs) simp_all
  then show "\<exists>msgs. e = foldr Wrap msgs (APIError 404) \<Longrightarrow> isNotFound e" by blast
qed

lemma transfer_warnings_silent:
  "transfer_warnings gp ids = [] \<longleftrightarrow>
    (\<forall>i \<in> set ids. \<forall>e. gpVolumeMirrorTransferRate gp i = Inl e \<longrightarrow> isNotFound e)"
  by (auto simp: transfer_warnings_def warn_unless_missing_def split: sum.splits if_splits)

lemma witness_warnings_silent:
  "witness_warnings gp = Some [] \<longleftrightarrow>
    (\<exists>r. enumerateWitnesses gp = Some r \<and> (\<forall>e. r = Inl e \<longrightarrow> isNotFound e))"
proof (cases "enumerateWitnesses gp")
  case (Some r)
  then show ?thesis by (cases r) (simp_all add: witness_warnings_def warn_unless_missing_def)
qed (simp add: witness_warnings_def)

text \<open>
  The enumeration of the drives returns exactly when the array answers some page with less
  than 2000 drives or with an error; otherwise it never returns.
\<close>

lemma drives_return_iff:
  "(\<exists>r. enumerateDrives gp = Some r) \<longleftrightarrow>
    (\<exists>k. case gpQueryDrives gp ''hardware'' (drive_query\<lparr>Offset := int k * 2000\<rparr>) of
       Inl e \<Rightarrow> True | Inr page \<Rightarrow> length page < 2000)"
proof -
  have "\<not> full_page (query_page (gpQueryDrives gp ''hardware'') drive_query) 2000 (int k * 2000) \<longleftrightarrow>
      (case gpQueryDrives gp ''hardware'' (drive_query\<lparr>Offset := int k * 2000\<rparr>) of
         Inl e \<Rightarrow> True | Inr page \<Rightarrow> length page < 2000)" for k
    by (auto simp: full_page_def query_page_def split: sum.split)
  then show ?thesis
    unfolding enumerateDrives_def page_loop_returns by simp
qed

end
