(* ===== verification/CollectorFacts.thy ===== *)
theory CollectorFacts
  imports Collector
begin

text \<open>
  The contract of the interface \<open>Client\<close> (locales \<open>metric_client\<close> and \<open>total_client\<close>), what the
  collection cycle promises on top of it, and the instance \<open>ArrayClient\<close>.
\<close>

subsection \<open>The contract of a client\<close>

locale metric_client =
  fixes ops :: "'c client_ops" and ok :: "'c \<Rightarrow> bool"
  assumes name_kept: "opName ops (snd (opBulkCapable ops c topo)) = opName ops c"
    and ok_kept: "ok c \<Longrightarrow> ok (snd (opBulkCapable ops c topo))"
    and per_entity_labelled: "opPerEntityMetrics ops c topo = Some (Inr ss) \<Longrightarrow>
      samples_ok (opName ops c) (ClusterID topo) ss"
    and bulk_labelled: "opBulkMetrics ops c topo = Some (Inr ss) \<Longrightarrow>
      samples_ok (opName ops c) (ClusterID topo) ss"
begin

text \<open>What a result of \<open>collectArray\<close> looks like, on all its branches.\<close>

definition sound_result :: "'c \<Rightarrow> int \<Rightarrow> array_snapshot \<Rightarrow> bool" where
  "sound_result c now as \<longleftrightarrow>
    Array as = opName ops c \<and> LastScrape as = Some now \<and> (Up as \<longleftrightarrow> ScrapeError as = None) \<and>
    (\<not> Up as \<longrightarrow> Samples as = []) \<and>
    (Up as \<longrightarrow> (\<exists>topo. opGetTopology ops c = Some (Inr topo) \<and>
      samples_ok (opName ops c) (ClusterID topo) (Samples as)))"

lemma collect_unreachable:
  "opGetTopology ops c = Some (Inl e) \<Longrightarrow>
    collectArray ops now c = Some ((down (opName ops c) (now (opName ops c)))\<lparr>ScrapeError := Some e\<rparr>, c)"
  by (simp add: collectArray_def)

text \<open>The samples of a cycle: the bulk path when it is usable, the per-entity path otherwise.\<close>

definition gathered :: "'c \<Rightarrow> topology \<Rightarrow> bool \<Rightarrow> (err + sample list) option" where
  "gathered c topo capable =
    (if \<not> capable then opPerEntityMetrics ops c topo
     else (case opBulkMetrics ops c topo of
         Some (Inl e) \<Rightarrow> opPerEntityMetrics ops c topo | r \<Rightarrow> r))"

lemma collect_reachable:
  assumes "opGetTopology ops c = Some (Inr topo)" and "opBulkCapable ops c topo = (capable, c')"
  shows "collectArray ops now c = map_option (\<lambda>r.
    (let as = (down (opName ops c) (now (opName ops c)))\<lparr>IsBulkCapable := capable\<rparr>
     in case r of Inl e \<Rightarrow> (as\<lparr>ScrapeError := Some e\<rparr>, c')
       | Inr ss \<Rightarrow> (as\<lparr>Samples := ss, Up := True\<rparr>, c'))) (gathered c' topo capable)"
proof (cases "gathered c' topo capable")
  case None
  with assms show ?thesis
    by (cases "opBulkMetrics ops c' topo")
      (auto simp: collectArray_def gathered_def split: if_splits sum.splits)
next
  case (Some r)
  with assms show ?thesis
    by (cases "opBulkMetrics ops c' topo")
      (auto simp: collectArray_def gathered_def Let_def split: if_splits sum.splits)
qed

lemma gathered_labelled:
  "gathered c topo capable = Some (Inr ss) \<Longrightarrow> samples_ok (opName ops c) (ClusterID topo) ss"
  by (auto simp: gathered_def dest: per_entity_labelled bulk_labelled split: if_splits option.splits sum.splits)

lemma collect_sound:
  assumes "collectArray ops now c = Some (as, c')"
  shows "sound_result c (now (opName ops c)) as \<and> opName ops c' = opName ops c \<and> (ok c \<longrightarrow> ok c')"
proof (cases "opGetTopology ops c")
  case None
  with assms show ?thesis by (simp add: collectArray_def)
next
  case (Some t)
  show ?thesis
  proof (cases t)
    case (Inl e)
    with Some assms show ?thesis
      by (auto simp: collect_unreachable sound_result_def down_def)
  next
    case (Inr topo)
    obtain capable d where d: "opBulkCapable ops c topo = (capable, d)" by force
    have keeps: "opName ops d = opName ops c" "ok c \<longrightarrow> ok d"
      using name_kept [of c topo] ok_kept [of c topo] d by auto
    from assms collect_reachable [OF Some [unfolded Inr] d] obtain r where
      r: "gathered d topo capable = Some r"
      and as: "(as, c') = (let as = (down (opName ops c) (now (opName ops c)))\<lparr>IsBulkCapable := capable\<rparr>
        in case r of Inl e \<Rightarrow> (as\<lparr>ScrapeError := Some e\<rparr>, d)
          | Inr ss \<Rightarrow> (as\<lparr>Samples := ss, Up := True\<rparr>, d))"
      by auto
    show ?thesis
    proof (cases r)
      case (Inl e)
      with as keeps show ?thesis by (simp add: sound_result_def down_def Let_def)
    next
      case inr: (Inr ss)
      from gathered_labelled r inr keeps have "samples_ok (opName ops c) (ClusterID topo) ss" by metis
      with as inr keeps Some Inr show ?thesis by (auto simp: sound_result_def down_def Let_def)
    qed
  qed
qed

text \<open>Bulk failure is not an array failure: the cycle falls back to the per-entity path.\<close>

lemma collect_fallback:
  assumes "opGetTopology ops c = Some (Inr topo)" and "opBulkCapable ops c topo = (True, c')"
    and "opBulkMetrics ops c' topo = Some (Inl e)" and "opPerEntityMetrics ops c' topo = Some (Inr ss)"
  shows "\<exists>as. collectArray ops now c = Some (as, c') \<and> Up as \<and> IsBulkCapable as \<and> Samples as = ss"
  by (simp add: collect_reachable [OF assms(1,2)] gathered_def assms(3,4) Let_def)

subsection \<open>The cycle\<close>

lemma collectAll_eq:
  "collectAll \<rho> ops now clients =
    map_option (\<lambda>rs. (BuildSnapshot \<rho> (map (Some \<circ> fst) rs), map snd rs))
      (those (map (collectArray ops now) clients))"
  by (cases "those (map (collectArray ops now) clients)") (simp_all add: collectAll_def)

lemma those_nth: "those xs = Some ys \<Longrightarrow> length ys = length xs \<and> (\<forall>i < length xs. xs ! i = Some (ys ! i))"
proof (induction xs arbitrary: ys)
  case (Cons x xs)
  then obtain y zs where "x = Some y" "those xs = Some zs" "ys = y # zs"
    by (auto split: option.splits)
  with Cons.IH [of zs] show ?case by (auto simp: nth_Cons split: nat.split)
qed simp

lemma those_map: "those (map f xs) = Some ys \<Longrightarrow> list_all2 (\<lambda>x y. f x = Some y) xs ys"
  using those_nth [of "map f xs" ys] by (auto simp: list_all2_conv_all_nth)

lemma collectAll_results:
  assumes "collectAll \<rho> ops now clients = Some (snap, clients')"
  obtains rs where "snap = BuildSnapshot \<rho> (map Some rs)"
    and "list_all2 (\<lambda>c as. \<exists>c'. collectArray ops now c = Some (as, c')) clients rs"
    and "list_all2 (\<lambda>c c'. \<exists>as. collectArray ops now c = Some (as, c')) clients clients'"
proof -
  from assms obtain ps where ps: "those (map (collectArray ops now) clients) = Some ps"
    and s: "snap = BuildSnapshot \<rho> (map (Some \<circ> fst) ps)" "clients' = map snd ps"
    by (auto simp: collectAll_eq)
  from those_map [OF ps] have all: "list_all2 (\<lambda>c p. collectArray ops now c = Some p) clients ps" .
  show thesis
  proof
    show "snap = BuildSnapshot \<rho> (map Some (map fst ps))" using s by (simp add: comp_def)
    show "list_all2 (\<lambda>c as. \<exists>c'. collectArray ops now c = Some (as, c')) clients (map fst ps)"
      using all by (auto simp: list_all2_conv_all_nth) (metis prod.collapse)
    show "list_all2 (\<lambda>c c'. \<exists>as. collectArray ops now c = Some (as, c')) clients clients'"
      using all s by (auto simp: list_all2_conv_all_nth) (metis prod.collapse)
  qed
qed

lemma collectAll_keeps:
  assumes "collectAll \<rho> ops now clients = Some (snap, clients')"
  shows "map (opName ops) clients' = map (opName ops) clients" "list_all ok clients \<longrightarrow> list_all ok clients'"
proof -
  obtain rs where "list_all2 (\<lambda>c c'. \<exists>as. collectArray ops now c = Some (as, c')) clients clients'"
    using collectAll_results [OF assms] by blast
  then have "list_all2 (\<lambda>c c'. opName ops c' = opName ops c \<and> (ok c \<longrightarrow> ok c')) clients clients'"
    by (rule list_all2_mono) (use collect_sound in blast)
  then show "map (opName ops) clients' = map (opName ops) clients" "list_all ok clients \<longrightarrow> list_all ok clients'"
    by (induction rule: list_all2_induct) auto
qed

lemma last_of_name:
  "list_all2 (\<lambda>c as. key as = nm c) cs rs \<Longrightarrow> distinct (map nm cs) \<Longrightarrow> (c, as) \<in> set (zip cs rs) \<Longrightarrow>
    map_of (rev (map (\<lambda>as. (key as, as)) rs)) (nm c) = Some as"
proof -
  assume all: "list_all2 (\<lambda>c as. key as = nm c) cs rs" and d: "distinct (map nm cs)"
    and m: "(c, as) \<in> set (zip cs rs)"
  have keys: "map key rs = map nm cs" using all by (induction rule: list_all2_induct) auto
  from m all have "as \<in> set rs" "key as = nm c" by (auto dest: set_zip_rightD simp: list_all2_iff)
  moreover from keys d have "distinct (map fst (rev (map (\<lambda>as. (key as, as)) rs)))"
    by (simp add: rev_map [symmetric] comp_def)
  ultimately show ?thesis by (intro map_of_is_SomeI) (auto simp: image_iff)
qed

text \<open>
  The snapshot of a cycle has exactly one entry per client, the client's own result: what
  happens to the other arrays of the cycle does not appear in it.
\<close>

lemma cycle_entries:
  assumes "collectAll \<rho> ops now clients = Some (snap, clients')"
    and "distinct (map (opName ops) clients)" and "c \<in> set clients"
  shows "\<exists>as c'. collectArray ops now c = Some (as, c') \<and> amap_get (PerArray snap) (opName ops c) = Some as"
proof -
  obtain rs where snap: "snap = BuildSnapshot \<rho> (map Some rs)"
    and rs: "list_all2 (\<lambda>c as. \<exists>c'. collectArray ops now c = Some (as, c')) clients rs"
    using collectAll_results [OF assms(1)] by blast
  from assms(3) obtain i where i: "i < length clients" "clients ! i = c" by (auto simp: in_set_conv_nth)
  with rs obtain c' where c': "collectArray ops now c = Some (rs ! i, c')"
    by (auto simp: list_all2_conv_all_nth)
  have "list_all2 (\<lambda>c as. Array as = opName ops c) clients rs"
    by (rule list_all2_mono [OF rs]) (use collect_sound in \<open>auto simp: sound_result_def\<close>)
  moreover have "(c, rs ! i) \<in> set (zip clients rs)"
    using i rs by (auto simp: set_zip list_all2_lengthD)
  ultimately have "map_of (rev (map (\<lambda>as. (Array as, as)) rs)) (opName ops c) = Some (rs ! i)"
    using assms(2) by (intro last_of_name)
  with snap c' show ?thesis by (auto simp: PerArray_Build List.map_filter_def comp_def)
qed

lemma cycle_names:
  assumes "collectAll \<rho> ops now clients = Some (snap, clients')"
  shows "set (amap_keys (PerArray snap)) = opName ops ` set clients"
proof -
  obtain rs where snap: "snap = BuildSnapshot \<rho> (map Some rs)"
    and rs: "list_all2 (\<lambda>c as. \<exists>c'. collectArray ops now c = Some (as, c')) clients rs"
    using collectAll_results [OF assms] by blast
  have "list_all2 (\<lambda>c as. Array as = opName ops c) clients rs"
    by (rule list_all2_mono [OF rs]) (use collect_sound in \<open>auto simp: sound_result_def\<close>)
  then have "map Array rs = map (opName ops) clients" by (induction rule: list_all2_induct) auto
  then have "Array ` set rs = opName ops ` set clients" by (metis set_map)
  moreover have "set (amap_keys (PerArray snap)) = Array ` set rs"
    using al.keys_look [OF PerArray_Build(1), of \<rho> "map Some rs"]
    by (auto simp: snap PerArray_Build map_of_eq_None_iff List.map_filter_def comp_def image_image)
  ultimately show ?thesis by simp
qed

text \<open>Every sample a scrape can see is labelled with its array and conforms to the reference.\<close>

lemma cycle_samples:
  assumes "collectAll \<rho> ops now clients = Some (snap, clients')" and "s \<in> set (SamplesByName snap n)"
  shows "\<exists>c \<in> set clients. \<exists>topo. opGetTopology ops c = Some (Inr topo) \<and>
    labelled (opName ops c) (ClusterID topo) s \<and> conforms s"
proof -
  obtain rs where snap: "snap = BuildSnapshot \<rho> (map Some rs)"
    and rs: "list_all2 (\<lambda>c as. \<exists>c'. collectArray ops now c = Some (as, c')) clients rs"
    using collectAll_results [OF assms(1)] by blast
  from assms(2) obtain as where as: "as \<in> set rs" "s \<in> set (Samples as)"
    by (auto simp: snap SamplesByName_Build collected_def)
  from as(1) obtain i where i: "i < length rs" "rs ! i = as" by (auto simp: in_set_conv_nth)
  with rs obtain c c' where c: "c \<in> set clients" "collectArray ops now c = Some (as, c')"
    by (auto simp: list_all2_conv_all_nth) (metis nth_mem)
  from collect_sound [OF c(2)] as(2) have "Up as" and
    "Up as \<longrightarrow> (\<exists>topo. opGetTopology ops c = Some (Inr topo) \<and> samples_ok (opName ops c) (ClusterID topo) (Samples as))"
    by (auto simp: sound_result_def)
  with c(1) as(2) show ?thesis by (auto simp: samples_ok_def list_all_iff)
qed

end

subsection \<open>Clients that return\<close>

locale total_client = metric_client ops ok for ops :: "'c client_ops" and ok :: "'c \<Rightarrow> bool" +
  assumes topology_returns: "ok c \<Longrightarrow> \<exists>r. opGetTopology ops c = Some r"
    and per_entity_returns: "ok c \<Longrightarrow> \<exists>r. opPerEntityMetrics ops c topo = Some r"
    and bulk_returns: "ok c \<Longrightarrow> \<exists>r. opBulkMetrics ops c topo = Some r"
begin

lemma gathered_returns: "ok c \<Longrightarrow> \<exists>r. gathered c topo capable = Some r"
  using per_entity_returns [of c topo] bulk_returns [of c topo] by (auto simp: gathered_def split: sum.split)

lemma collect_returns: "ok c \<Longrightarrow> \<exists>r. collectArray ops now c = Some r"
proof -
  assume c: "ok c"
  then obtain t where t: "opGetTopology ops c = Some t" using topology_returns by blast
  show ?thesis
  proof (cases t)
    case (Inl e)
    with t show ?thesis by (simp add: collect_unreachable)
  next
    case (Inr topo)
    obtain capable d where d: "opBulkCapable ops c topo = (capable, d)" by force
    then obtain r where "gathered d topo capable = Some r"
      using gathered_returns [of d topo capable] ok_kept [OF c, of topo] by auto
    with t Inr d show ?thesis by (simp add: collect_reachable)
  qed
qed

lemma cycle_returns: "list_all ok clients \<Longrightarrow> \<exists>r. collectAll \<rho> ops now clients = Some r"
proof -
  assume "list_all ok clients"
  then have "\<exists>rs. those (map (collectArray ops now) clients) = Some rs"
  proof (induction clients)
    case (Cons c cs)
    then show ?case using collect_returns [of c now] by auto
  qed simp
  then show ?thesis by (auto simp: collectAll_eq)
qed

end

subsection \<open>ArrayClient\<close>

definition serving :: "(string \<Rightarrow> gp_client) \<Rightarrow> array_client \<Rightarrow> bool" where
  "serving gpOf c \<longleftrightarrow> client_ok c \<and> finite_inventory (gpOf (ClientName c))"

lemma array_ops_sel [simp]:
  "opName (array_ops \<rho> http gpOf) = ClientName"
  "opGetTopology (array_ops \<rho> http gpOf) c = GetTopology \<rho> (gpOf (ClientName c)) c"
  "opBulkCapable (array_ops \<rho> http gpOf) c topo = BulkCapable (gpOf (ClientName c)) c"
  "opPerEntityMetrics (array_ops \<rho> http gpOf) c topo = PerEntityMetrics \<rho> (gpOf (ClientName c)) c topo"
  "opBulkMetrics (array_ops \<rho> http gpOf) c topo = BulkMetrics \<rho> http (gpOf (ClientName c)) c topo"
  "opClose (array_ops \<rho> http gpOf) = CloseClient"
  by (simp_all add: array_ops_def)

interpretation ac: total_client "array_ops \<rho> http gpOf" "serving gpOf"
  for \<rho> :: "string list \<Rightarrow> string list" and http :: "archive http_env" and gpOf :: "string \<Rightarrow> gp_client"
proof
  fix c topo ss
  let ?ops = "array_ops \<rho> http gpOf"
  show "opName ?ops (snd (opBulkCapable ?ops c topo)) = opName ?ops c"
    by (simp add: BulkCapable_keeps)
  show "serving gpOf (snd (opBulkCapable ?ops c topo))" if "serving gpOf c"
    using that by (simp add: serving_def BulkCapable_keeps)
  show "samples_ok (opName ?ops c) (ClusterID topo) ss"
    if "opPerEntityMetrics ?ops c topo = Some (Inr ss)"
    using that samples_ok_per_entity by simp
  show "samples_ok (opName ?ops c) (ClusterID topo) ss" if "opBulkMetrics ?ops c topo = Some (Inr ss)"
    using that samples_ok_bulk by simp
  show "\<exists>r. opGetTopology ?ops c = Some r" if "serving gpOf c"
    using that GetTopology_returns by (simp add: serving_def)
  show "\<exists>r. opPerEntityMetrics ?ops c topo = Some r" if "serving gpOf c"
    using that PerEntityMetrics_returns by (auto simp: serving_def) blast
  show "\<exists>r. opBulkMetrics ?ops c topo = Some r" if "serving gpOf c"
    using that BulkMetrics_returns by (simp add: serving_def)
qed

text \<open>The fan-out cap of the clients is kept whatever the arrays serve.\<close>

interpretation capped: metric_client "array_ops \<rho> http gpOf" client_ok
  for \<rho> :: "string list \<Rightarrow> string list" and http :: "archive http_env" and gpOf :: "string \<Rightarrow> gp_client"
  by unfold_locales (simp_all add: BulkCapable_keeps samples_ok_per_entity samples_ok_bulk)

text \<open>The per-entity path never fails as a whole, so an array is up when its topology was fetched.\<close>

lemma gathered_ok: "metric_client.gathered (array_ops \<rho> http gpOf) c topo capable = Some r \<Longrightarrow> \<exists>ss. r = Inr ss"
  by (auto simp: ac.gathered_def dest: PerEntityMetrics_no_error split: if_splits option.splits sum.splits)

lemma array_up:
  assumes "collectArray (array_ops \<rho> http gpOf) now c = Some (as, c')"
  shows "Up as \<longleftrightarrow> (\<exists>cl. gpGetCluster (gpOf (ClientName c)) = Inr cl)"
proof -
  let ?ops = "array_ops \<rho> http gpOf" and ?gp = "gpOf (ClientName c)"
  from assms obtain t where t: "GetTopology \<rho> ?gp c = Some t"
    by (cases "GetTopology \<rho> ?gp c") (auto simp: collectArray_def)
  show ?thesis
  proof (cases t)
    case (Inl e)
    with t have "\<not> (\<exists>cl. gpGetCluster ?gp = Inr cl)" using GetTopology_error [of \<rho> ?gp c e] by auto
    moreover have "collectArray ?ops now c = Some ((down (ClientName c) (now (ClientName c)))\<lparr>ScrapeError := Some e\<rparr>, c)"
      using ac.collect_unreachable [of \<rho> http gpOf c e now] t Inl by simp
    ultimately show ?thesis using assms by (auto simp: down_def)
  next
    case (Inr topo)
    obtain capable d where d: "opBulkCapable ?ops c topo = (capable, d)" by force
    let ?res = "\<lambda>r. let as = (down (ClientName c) (now (ClientName c)))\<lparr>IsBulkCapable := capable\<rparr>
        in case r of Inl e \<Rightarrow> (as\<lparr>ScrapeError := Some e\<rparr>, d) | Inr ss \<Rightarrow> (as\<lparr>Samples := ss, Up := True\<rparr>, d)"
    have "collectArray ?ops now c = map_option ?res (metric_client.gathered ?ops d topo capable)"
      using ac.collect_reachable [OF _ d, of now] t Inr by simp
    with assms have "map_option ?res (metric_client.gathered ?ops d topo capable) = Some (as, c')" by simp
    then obtain r where r: "metric_client.gathered ?ops d topo capable = Some r" and "?res r = (as, c')"
      unfolding map_option_eq_Some by blast
    with gathered_ok [OF r] have "Up as" by (auto simp: Let_def)
    moreover have "\<exists>cl. gpGetCluster ?gp = Inr cl"
      using GetTopology_cluster [of \<rho> ?gp c topo] t Inr by auto
    ultimately show ?thesis by simp
  qed
qed

end
