(* ===== verification/Prometheus.thy ===== *)
theory Prometheus
  imports CollectorFacts
begin

text \<open>
  \<open>internal/powerstore/prometheus.go\<close> and \<open>buildinfo.go\<close>: the scrape path. \<open>Collect\<close> turns the published
  snapshot into metrics: the health metrics of each array, then every sample, with duplicate
  label tuples of one name dropped. The client library's check of a metric (label count, valid
  UTF-8, metric name) is the parameter \<open>accepts\<close>; a rejected health metric panics
  (\<open>MustNewConstMetric\<close>, result \<open>None\<close>), a rejected sample is skipped.

  Lemmas: on label values without NUL the duplicate filter keeps exactly the first sample of each
  label tuple (\<open>emit_samples_spec\<close>); the output never contains one series twice; on conforming
  samples each metric has the name, labels and value of the sample it comes from.
\<close>

record prom_metric =
  MetricName :: string
  LabelNames :: "string list"
  LabelValues :: "string list"
  MetricValue :: float64

type_synonym prom_check = "string \<Rightarrow> string list \<Rightarrow> string list \<Rightarrow> bool"

definition NewConstMetric :: "prom_check \<Rightarrow> string \<Rightarrow> string list \<Rightarrow> float64 \<Rightarrow> string list \<Rightarrow> prom_metric option" where
  "NewConstMetric accepts name labels v values =
    (if accepts name labels values
     then Some \<lparr>MetricName = name, LabelNames = labels, LabelValues = values, MetricValue = v\<rparr> else None)"

definition sampleLabelNames :: "sample \<Rightarrow> string list" where
  "sampleLabelNames s = map LName (Labels s)"

definition sampleLabelValues :: "sample \<Rightarrow> string list" where
  "sampleLabelValues s = map LValue (Labels s)"

definition up_name :: string where "up_name = ''powerstore_up''"

definition last_scrape_name :: string where
  "last_scrape_name = ''powerstore_last_scrape_timestamp_seconds''"

definition bulk_api_name :: string where "bulk_api_name = ''powerstore_array_bulk_api''"

text \<open>
  The descriptors of the health metrics and the collector itself, which is unchecked: it describes nothing in
  advance.
\<close>

record prom_desc =
  DescName :: string
  DescHelp :: string
  DescLabels :: "string list"

record prom_collector =
  PcStore :: snapshot_store
  PcUp :: prom_desc
  PcLastScrape :: prom_desc
  PcBulkAPI :: prom_desc

definition NewPromCollector :: "snapshot_store \<Rightarrow> prom_collector" where
  "NewPromCollector st =
    \<lparr>PcStore = st,
     PcUp = \<lparr>DescName = up_name, DescHelp = ''1 if the array was scraped successfully, 0 otherwise'',
       DescLabels = [''array'']\<rparr>,
     PcLastScrape = \<lparr>DescName = last_scrape_name,
       DescHelp = ''Unix timestamp of the last successful collection for the array'', DescLabels = [''array'']\<rparr>,
     PcBulkAPI = \<lparr>DescName = bulk_api_name,
       DescHelp = ''1 if the array supports the bulk five-minute metrics API, 0 otherwise'', DescLabels = [''array'']\<rparr>\<rparr>"

definition Describe :: "prom_collector \<Rightarrow> prom_desc list" where
  "Describe c = []"

definition health_metrics :: "prom_check \<Rightarrow> string \<Rightarrow> array_snapshot \<Rightarrow> prom_metric option list" where
  "health_metrics accepts name as =
    [NewConstMetric accepts up_name [''array''] (b2f (Up as)) [name]] @
    (case (Up as, LastScrape as) of
       (True, Some t) \<Rightarrow> [NewConstMetric accepts last_scrape_name [''array''] (of_int64 t) [name]]
     | _ \<Rightarrow> []) @
    [NewConstMetric accepts bulk_api_name [''array''] (b2f (IsBulkCapable as)) [name]]"

definition NUL :: char where "NUL = CHR 0x00"

definition signature :: "string \<Rightarrow> string list \<Rightarrow> string" where
  "signature name values = name @ [NUL] @ join [NUL] values"

fun emit_samples :: "prom_check \<Rightarrow> string \<Rightarrow> string list \<Rightarrow> string list \<Rightarrow> sample list \<Rightarrow> prom_metric list" where
  "emit_samples accepts name labelNames seen [] = []"
| "emit_samples accepts name labelNames seen (s # ss) =
    (let values = sampleLabelValues s; sig = signature name values
     in if sig \<in> set seen then emit_samples accepts name labelNames seen ss
        else (case NewConstMetric accepts name labelNames (Value s) values of
            None \<Rightarrow> emit_samples accepts name labelNames (sig # seen) ss
          | Some m \<Rightarrow> m # emit_samples accepts name labelNames (sig # seen) ss))"

definition emit_name :: "prom_check \<Rightarrow> snapshot \<Rightarrow> string \<Rightarrow> prom_metric list" where
  "emit_name accepts snap name =
    (case SamplesByName snap name of
       [] \<Rightarrow> []
     | s # ss \<Rightarrow> emit_samples accepts name (sampleLabelNames s) [] (s # ss))"

definition Collect ::
  "(string list \<Rightarrow> string list) \<Rightarrow> prom_check \<Rightarrow> snapshot_store \<Rightarrow> prom_metric list option" where
  "Collect \<rho> accepts st =
    (let snap = LoadSnapshot st
     in map_option (\<lambda>health. health @ concat (map (emit_name accepts snap) (MetricNames snap)))
          (those (concat (map (\<lambda>(name, as). health_metrics accepts name as) (amap_range \<rho> (PerArray snap))))))"

definition build_info :: "string \<Rightarrow> string \<Rightarrow> prom_metric" where
  "build_info version goversion =
    \<lparr>MetricName = ''pstore_exporter_build_info'', LabelNames = [''goversion'', ''version''],
     LabelValues = [goversion, version], MetricValue = one64\<rparr>"

subsection \<open>The duplicate filter\<close>

text \<open>Reference definition: the first element of every key.\<close>

function keep_first :: "('a \<Rightarrow> 'b) \<Rightarrow> 'a list \<Rightarrow> 'a list" where
  "keep_first f [] = []"
| "keep_first f (x # xs) = x # keep_first f (filter (\<lambda>y. f y \<noteq> f x) xs)"
  by pat_completeness auto
termination
  by (relation "measure (\<lambda>(f, xs). length xs)") (auto simp: le_imp_less_Suc)

lemma keep_first_subset: "set (keep_first f xs) \<subseteq> set xs"
  by (induction f xs rule: keep_first.induct) auto

lemma keep_first_keys: "f ` set (keep_first f xs) = f ` set xs"
proof (induction f xs rule: keep_first.induct)
  case (2 f x xs)
  then show ?case by auto
qed simp

lemma keep_first_distinct: "distinct (map f (keep_first f xs))"
proof (induction f xs rule: keep_first.induct)
  case (2 f x xs)
  have "f x \<notin> f ` set (keep_first f (filter (\<lambda>y. f y \<noteq> f x) xs))"
    unfolding keep_first_keys by auto
  with 2 show ?case by simp
qed simp

lemma keep_first_inj: "distinct (map f xs) \<Longrightarrow> keep_first f xs = xs"
proof (induction xs)
  case (Cons x xs)
  then have "\<forall>y \<in> set xs. f y \<noteq> f x" by (metis distinct.simps(2) image_eqI list.simps(9) set_map)
  then have "filter (\<lambda>y. f y \<noteq> f x) xs = xs" by (simp add: filter_id_conv)
  with Cons show ?case by simp
qed simp

definition sample_metric :: "string \<Rightarrow> string list \<Rightarrow> sample \<Rightarrow> prom_metric" where
  "sample_metric name labelNames s =
    \<lparr>MetricName = name, LabelNames = labelNames, LabelValues = sampleLabelValues s, MetricValue = Value s\<rparr>"

lemma emit_samples_keep_first:
  "emit_samples accepts name ls seen ss =
    map (sample_metric name ls) (filter (\<lambda>s. accepts name ls (sampleLabelValues s))
      (keep_first (\<lambda>s. signature name (sampleLabelValues s))
        (filter (\<lambda>s. signature name (sampleLabelValues s) \<notin> set seen) ss)))"
proof (induction accepts name ls seen ss rule: emit_samples.induct)
  case (2 accepts name ls seen s ss)
  let ?sig = "\<lambda>s. signature name (sampleLabelValues s)"
  have "filter (\<lambda>y. ?sig y \<noteq> ?sig s) (filter (\<lambda>s. ?sig s \<notin> set seen) ss) =
      filter (\<lambda>y. ?sig y \<notin> set (?sig s # seen)) ss"
    by (auto intro: filter_cong)
  with 2 show ?case by (simp add: Let_def NewConstMetric_def sample_metric_def)
qed simp

definition clean :: "sample \<Rightarrow> bool" where
  "clean s \<longleftrightarrow> list_all (\<lambda>l. NUL \<notin> set (LValue l)) (Labels s)"

lemma signature_inject:
  assumes "clean s" "clean t" and "length (Labels s) = length (Labels t)"
  shows "signature n (sampleLabelValues s) = signature n (sampleLabelValues t) \<longleftrightarrow>
    sampleLabelValues s = sampleLabelValues t"
proof
  assume "signature n (sampleLabelValues s) = signature n (sampleLabelValues t)"
  then have "join [NUL] (sampleLabelValues s) = join [NUL] (sampleLabelValues t)"
    by (simp add: signature_def)
  then show "sampleLabelValues s = sampleLabelValues t"
    by (intro join_inject [where c = NUL]) (use assms in \<open>auto simp: sampleLabelValues_def clean_def list_all_iff\<close>)
qed simp

lemma keep_first_cong:
  "(\<And>x y. x \<in> set xs \<Longrightarrow> y \<in> set xs \<Longrightarrow> f x = f y \<longleftrightarrow> g x = g y) \<Longrightarrow> keep_first f xs = keep_first g xs"
proof (induction f xs rule: keep_first.induct)
  case (2 f x xs)
  have "filter (\<lambda>y. f y \<noteq> f x) xs = filter (\<lambda>y. g y \<noteq> g x) xs"
    using 2(2) by (auto intro!: filter_cong)
  moreover have "keep_first f (filter (\<lambda>y. f y \<noteq> f x) xs) = keep_first g (filter (\<lambda>y. f y \<noteq> f x) xs)"
    by (rule 2(1)) (use 2(2) in auto)
  ultimately show ?case by simp
qed simp

text \<open>Without NUL in the label values the filter keeps the first sample of each label tuple.\<close>

lemma emit_samples_spec:
  assumes "list_all clean ss" and "\<And>s t. s \<in> set ss \<Longrightarrow> t \<in> set ss \<Longrightarrow> length (Labels s) = length (Labels t)"
  shows "emit_samples accepts name ls [] ss =
    map (sample_metric name ls) (filter (\<lambda>s. accepts name ls (sampleLabelValues s)) (keep_first sampleLabelValues ss))"
proof -
  have cl: "clean s" if "s \<in> set ss" for s using that assms(1) by (simp add: list_all_iff)
  have "keep_first (\<lambda>s. signature name (sampleLabelValues s)) ss = keep_first sampleLabelValues ss"
    by (rule keep_first_cong, rule signature_inject; (rule cl | rule assms(2)); assumption)
  then show ?thesis by (simp add: emit_samples_keep_first)
qed

subsection \<open>The output\<close>

definition series :: "prom_metric \<Rightarrow> string \<times> string list" where
  "series m = (MetricName m, LabelValues m)"

lemma distinct_map_filter_key: "distinct (map f xs) \<Longrightarrow> distinct (map f (filter P xs))"
  by (induction xs) auto

lemma emit_samples_series:
  "distinct (map series (emit_samples accepts name ls seen ss)) \<and>
   (\<forall>m \<in> set (emit_samples accepts name ls seen ss). MetricName m = name)"
proof -
  let ?sig = "\<lambda>s. signature name (sampleLabelValues s)"
  let ?kept = "filter (\<lambda>s. accepts name ls (sampleLabelValues s)) (keep_first ?sig (filter (\<lambda>s. ?sig s \<notin> set seen) ss))"
  have "distinct (map ?sig ?kept)" by (rule distinct_map_filter_key [OF keep_first_distinct])
  then have "distinct (map (\<lambda>p. signature (fst p) (snd p)) (map (\<lambda>s. (name, sampleLabelValues s)) ?kept))"
    by (simp only: map_map comp_def fst_conv snd_conv)
  then have "distinct (map (\<lambda>s. (name, sampleLabelValues s)) ?kept)" by (rule distinct_map [THEN iffD1, THEN conjunct1])
  then show ?thesis by (simp add: emit_samples_keep_first comp_def series_def sample_metric_def)
qed

lemma emit_name_series:
  "distinct (map series (emit_name accepts snap n)) \<and> (\<forall>m \<in> set (emit_name accepts snap n). MetricName m = n)"
proof (cases "SamplesByName snap n")
  case (Cons s ss)
  show ?thesis unfolding emit_name_def Cons list.case by (rule emit_samples_series)
qed (simp add: emit_name_def)

lemma emit_names_names:
  "m \<in> set (concat (map (emit_name accepts snap) ns)) \<Longrightarrow> MetricName m \<in> set ns"
  using emit_name_series by fastforce

lemma emit_names_distinct:
  "distinct ns \<Longrightarrow> distinct (map series (concat (map (emit_name accepts snap) ns)))"
proof (induction ns)
  case (Cons n ns)
  have "series m \<noteq> series m'"
    if "m \<in> set (emit_name accepts snap n)" "m' \<in> set (concat (map (emit_name accepts snap) ns))" for m m'
    using that emit_name_series emit_names_names [OF that(2)] Cons.prems by (auto simp: series_def)
  then have "series ` set (emit_name accepts snap n) \<inter> series ` set (concat (map (emit_name accepts snap) ns)) = {}"
    by blast
  with Cons emit_name_series [of accepts snap n] show ?case
    by (simp del: set_concat add: map_concat [symmetric])
qed simp

lemma health_metrics_series:
  "those (health_metrics accepts name as) = Some ms \<Longrightarrow>
    distinct (map series ms) \<and> (\<forall>m \<in> set ms. LabelValues m = [name] \<and>
      MetricName m \<in> {up_name, last_scrape_name, bulk_api_name})"
  by (auto simp: health_metrics_def NewConstMetric_def series_def up_name_def last_scrape_name_def
      bulk_api_name_def split: if_splits option.splits bool.splits)

text \<open>Every health metric is an instance of a descriptor of the collector.\<close>

lemma health_metrics_described:
  assumes "those (health_metrics accepts name as) = Some ms" and "m \<in> set ms"
  shows "\<exists>d \<in> {PcUp (NewPromCollector st), PcLastScrape (NewPromCollector st), PcBulkAPI (NewPromCollector st)}.
    MetricName m = DescName d \<and> LabelNames m = DescLabels d"
  using assms
  by (auto simp: health_metrics_def NewConstMetric_def NewPromCollector_def split: if_splits option.splits bool.splits)

lemma those_append:
  "those (xs @ ys) = Some zs \<longleftrightarrow> (\<exists>as bs. those xs = Some as \<and> those ys = Some bs \<and> zs = as @ bs)"
proof -
  have "those (xs @ ys) = (case those xs of None \<Rightarrow> None | Some as \<Rightarrow> map_option ((@) as) (those ys))"
  proof (induction xs)
    case Nil
    then show ?case by (cases "those ys") simp_all
  next
    case (Cons x xs)
    then show ?case by (cases x; cases "those xs"; cases "those ys") simp_all
  qed
  then show ?thesis by (auto split: option.split)
qed

lemma health_distinct:
  assumes "distinct (map fst entries)"
    and "those (concat (map (\<lambda>(name, as). health_metrics accepts name as) entries)) = Some ms"
  shows "distinct (map series ms) \<and> (\<forall>m \<in> set ms. \<exists>name \<in> fst ` set entries. LabelValues m = [name] \<and>
    MetricName m \<in> {up_name, last_scrape_name, bulk_api_name})"
  using assms
proof (induction entries arbitrary: ms)
  case (Cons e entries)
  obtain name st where e: "e = (name, st)" by force
  with Cons.prems obtain as bs where as: "those (health_metrics accepts name st) = Some as"
    and bs: "those (concat (map (\<lambda>(name, as). health_metrics accepts name as) entries)) = Some bs"
    and ms: "ms = as @ bs" by (auto simp: those_append)
  from Cons.prems(1) e have d: "distinct (map fst entries)" and fresh: "name \<notin> fst ` set entries" by auto
  note A = health_metrics_series [OF as] and B = Cons.IH [OF d bs]
  have "series m \<noteq> series m'" if "m \<in> set as" "m' \<in> set bs" for m m'
  proof -
    from B that(2) obtain n where "n \<in> fst ` set entries" "LabelValues m' = [n]" by blast
    moreover from A that(1) have "LabelValues m = [name]" by blast
    ultimately show ?thesis using fresh by (auto simp: series_def)
  qed
  then have "series ` set as \<inter> series ` set bs = {}" by blast
  with A B have "distinct (map series ms)" by (simp add: ms)
  moreover have "\<exists>n \<in> fst ` set (e # entries). LabelValues m = [n] \<and>
      MetricName m \<in> {up_name, last_scrape_name, bulk_api_name}" if "m \<in> set ms" for m
    using that A B e by (auto simp: ms)
  ultimately show ?case by blast
qed simp

text \<open>The names of the health metrics are not metric names of the reference.\<close>

lemma health_names_reserved:
  "metric_schema up_name = None" "metric_schema last_scrape_name = None" "metric_schema bulk_api_name = None"
  by code_simp+

lemma Collect_series_distinct:
  assumes "range_order \<rho>" and "amap_ok (PerArray (LoadSnapshot st))" and "distinct (MetricNames (LoadSnapshot st))"
    and "\<And>n. n \<in> set (MetricNames (LoadSnapshot st)) \<Longrightarrow> metric_schema n \<noteq> None"
    and "Collect \<rho> accepts st = Some ms"
  shows "distinct (map series ms)"
proof -
  let ?snap = "LoadSnapshot st"
  let ?dyn = "concat (map (emit_name accepts ?snap) (MetricNames ?snap))"
  from assms(5) obtain hs where hs: "those (concat (map (\<lambda>(name, as). health_metrics accepts name as)
      (amap_range \<rho> (PerArray ?snap)))) = Some hs" and ms: "ms = hs @ ?dyn"
    by (auto simp: Collect_def Let_def)
  note H = health_distinct [OF amap_range_distinct [OF assms(1,2)] hs]
  have "series m \<noteq> series m'" if "m \<in> set hs" "m' \<in> set ?dyn" for m m'
  proof -
    from assms(4) [OF emit_names_names [OF that(2)]] have "metric_schema (MetricName m') \<noteq> None" .
    moreover have "metric_schema (MetricName m) = None"
      using H that(1) health_names_reserved by auto
    ultimately show ?thesis by (auto simp: series_def)
  qed
  then have "series ` set hs \<inter> series ` set ?dyn = {}" by blast
  with H emit_names_distinct [OF assms(3), of accepts ?snap] show ?thesis by (simp add: ms)
qed

text \<open>A metric is the sample it comes from: name, labels and value.\<close>

lemma emit_name_sample:
  assumes "m \<in> set (emit_name accepts snap n)"
    and "\<And>s. s \<in> set (SamplesByName snap n) \<Longrightarrow> Name s = n \<and> conforms s"
  shows "\<exists>s \<in> set (SamplesByName snap n). MetricName m = Name s \<and> MetricValue m = Value s \<and>
    zip (LabelNames m) (LabelValues m) = map (\<lambda>l. (LName l, LValue l)) (Labels s) \<and>
    accepts (MetricName m) (LabelNames m) (LabelValues m)"
proof -
  from assms(1) obtain s0 ss where ss: "SamplesByName snap n = s0 # ss"
    by (cases "SamplesByName snap n") (auto simp: emit_name_def)
  let ?kept = "keep_first (\<lambda>s. signature n (sampleLabelValues s)) (s0 # ss)"
  have "emit_name accepts snap n = map (sample_metric n (sampleLabelNames s0))
      (filter (\<lambda>s. accepts n (sampleLabelNames s0) (sampleLabelValues s)) ?kept)"
    unfolding emit_name_def ss list.case emit_samples_keep_first by simp
  with assms(1) obtain s where kept: "s \<in> set ?kept" and m: "m = sample_metric n (sampleLabelNames s0) s"
    and ok: "accepts n (sampleLabelNames s0) (sampleLabelValues s)"
    by (auto simp del: keep_first.simps)
  from keep_first_subset kept have "s \<in> set (SamplesByName snap n)" unfolding ss by (rule subsetD)
  note s = this m
  have "label_keys (Labels s) = label_keys (Labels s0)"
    by (rule conforms_keys) (use assms(2) s(1) ss in auto)
  then have "sampleLabelNames s0 = map LName (Labels s)" by (simp add: sampleLabelNames_def label_keys_def)
  moreover have "Name s = n" using assms(2) [OF s(1)] by simp
  moreover have "zip (map LName ls) (map LValue ls) = map (\<lambda>l. (LName l, LValue l)) ls" for ls
    by (induction ls) auto
  ultimately show ?thesis using s ok
    by (auto simp: sample_metric_def sampleLabelValues_def intro!: bexI [of _ s])
qed

end
