(* ===== verification/Otlp.thy ===== *)
theory Otlp
  imports CollectorFacts
begin

text \<open>
  \<open>internal/powerstore/otlp.go\<close>: the push path. The meter of the OpenTelemetry SDK is the parameter
  \<open>gauge\<close>, the error (if any) of registering an instrument of a given name; the instruments
  registered so far are the exporter's state. Each instrument's callback reads the store when
  the periodic reader runs (\<open>observe\<close>).

  Lemmas: \<open>EnsureInstruments\<close> registers each name at most once, is idempotent, keeps what it has
  registered when it fails midway and continues on the next call; after a success every
  sample of the snapshot is observed exactly once.
\<close>

record otlp_exporter =
  registered :: "string list"
  PushInterval :: int
  ServiceVersion :: string

text \<open>The provider is kept as what it was built from: the reader's interval and the service version.\<close>

definition newOTLPExporter :: "int \<Rightarrow> string \<Rightarrow> otlp_exporter" where
  "newOTLPExporter interval serviceVersion =
    \<lparr>registered = [], PushInterval = interval, ServiceVersion = serviceVersion\<rparr>"

text \<open>The push interval of \<open>NewOTLPExporter\<close>: ten seconds unless the setting is a positive duration.\<close>

definition push_interval :: "otel_export \<Rightarrow> int" where
  "push_interval oc =
    (case ParseDuration (OtelInterval oc) of
       None \<Rightarrow> 10 * 10 ^ 9
     | Some i \<Rightarrow> if i \<le> 0 then 10 * 10 ^ 9 else i)"

datatype push_option = PushEndpoint string | PushInsecure

definition push_options :: "otel_export \<Rightarrow> push_option list" where
  "push_options oc = PushEndpoint (OtelEndpoint oc) # (if OtelInsecure oc then [PushInsecure] else [])"

definition NewOTLPExporter ::
  "(push_option list \<Rightarrow> err option) \<Rightarrow> otel_export \<Rightarrow> string \<Rightarrow> err + otlp_exporter" where
  "NewOTLPExporter grpc_new oc serviceVersion =
    (case grpc_new (push_options oc) of
       Some e \<Rightarrow> Inl e
     | None \<Rightarrow> Inr (newOTLPExporter (push_interval oc) serviceVersion))"

lemma push_interval_positive: "0 < push_interval oc"
  by (simp add: push_interval_def split: option.split)

fun ensure_loop :: "(string \<Rightarrow> err option) \<Rightarrow> string list \<Rightarrow> string list \<Rightarrow> string list \<times> err option" where
  "ensure_loop gauge reg [] = (reg, None)"
| "ensure_loop gauge reg (n # ns) =
    (if n \<in> set reg then ensure_loop gauge reg ns
     else (case gauge n of Some e \<Rightarrow> (reg, Some e) | None \<Rightarrow> ensure_loop gauge (reg @ [n]) ns))"

definition EnsureInstruments ::
  "(string \<Rightarrow> err option) \<Rightarrow> snapshot_store \<Rightarrow> otlp_exporter \<Rightarrow> otlp_exporter \<times> err option" where
  "EnsureInstruments gauge st e =
    (let snap = LoadSnapshot st; (reg, err) = ensure_loop gauge (registered e) (MetricNames snap)
     in (e\<lparr>registered := reg\<rparr>, err))"

definition attrsFor :: "label list \<Rightarrow> (string \<times> string) list" where
  "attrsFor labels = map (\<lambda>l. (LName l, LValue l)) labels"

text \<open>One export: every instrument with the values and attributes its callback observes.\<close>

definition observe :: "snapshot_store \<Rightarrow> otlp_exporter \<Rightarrow> (string \<times> (float64 \<times> (string \<times> string) list) list) list" where
  "observe st e =
    map (\<lambda>n. (n, map (\<lambda>s. (Value s, attrsFor (Labels s))) (SamplesByName (LoadSnapshot st) n))) (registered e)"

text \<open>\<open>Shutdown\<close> flushes and stops the provider; what that reports is the library's answer.\<close>

definition ShutdownOTLPExporter :: "(otlp_exporter \<Rightarrow> err option) \<Rightarrow> otlp_exporter \<Rightarrow> err option" where
  "ShutdownOTLPExporter provider_stop e = provider_stop e"

subsection \<open>Registration\<close>

lemma ensure_loop_prefix: "\<exists>more. fst (ensure_loop gauge reg ns) = reg @ more \<and> set more \<subseteq> set ns"
  by (induction gauge reg ns rule: ensure_loop.induct) (fastforce split: option.split)+

lemma ensure_loop_distinct: "distinct reg \<Longrightarrow> distinct (fst (ensure_loop gauge reg ns))"
  by (induction gauge reg ns rule: ensure_loop.induct) (auto split: option.split)

lemma ensure_loop_done: "set ns \<subseteq> set reg \<Longrightarrow> ensure_loop gauge reg ns = (reg, None)"
  by (induction ns) auto

lemma ensure_loop_success:
  "snd (ensure_loop gauge reg ns) = None \<Longrightarrow> set (fst (ensure_loop gauge reg ns)) = set reg \<union> set ns"
  by (induction gauge reg ns rule: ensure_loop.induct) (auto split: option.splits)

lemma ensure_loop_succeeds:
  "(\<And>n. n \<in> set ns - set reg \<Longrightarrow> gauge n = None) \<Longrightarrow> snd (ensure_loop gauge reg ns) = None"
  by (induction gauge reg ns rule: ensure_loop.induct) (auto split: option.splits)

lemma ensure_loop_error:
  "snd (ensure_loop gauge reg ns) = Some e \<Longrightarrow> \<exists>n \<in> set ns - set (fst (ensure_loop gauge reg ns)). gauge n = Some e"
proof (induction gauge reg ns rule: ensure_loop.induct)
  case (2 gauge reg n ns)
  then show ?case by (cases "gauge n") (auto split: if_splits)
qed simp

lemma EnsureInstruments_fst:
  "registered (fst (EnsureInstruments gauge st e)) = fst (ensure_loop gauge (registered e) (MetricNames (LoadSnapshot st)))"
  "snd (EnsureInstruments gauge st e) = snd (ensure_loop gauge (registered e) (MetricNames (LoadSnapshot st)))"
  by (simp_all add: EnsureInstruments_def Let_def split_beta)

lemma EnsureInstruments_idem:
  "snd (EnsureInstruments gauge st e) = None \<Longrightarrow>
    EnsureInstruments gauge' st (fst (EnsureInstruments gauge st e)) = (fst (EnsureInstruments gauge st e), None)"
  using ensure_loop_success [of gauge "registered e" "MetricNames (LoadSnapshot st)"]
  by (simp add: EnsureInstruments_def Let_def split_beta ensure_loop_done)

text \<open>What a registered set observes, name by name.\<close>

lemma observe_samples:
  assumes "range_order \<rho>" and "LoadSnapshot st = BuildSnapshot \<rho> arrays"
    and "distinct (registered e)" and "set (MetricNames (LoadSnapshot st)) \<subseteq> set (registered e)"
  shows "mset (concat (map (\<lambda>(n, obs). map (\<lambda>(v, attrs). (n, v, attrs)) obs) (observe st e))) =
    mset (map (\<lambda>s. (Name s, Value s, attrsFor (Labels s))) (collected arrays))"
proof -
  let ?f = "\<lambda>s. (Name s, Value s, attrsFor (Labels s))"
  have at: "map (\<lambda>s. (n, Value s, attrsFor (Labels s))) (filter (\<lambda>s. Name s = n) (collected arrays)) =
      map ?f (filter (\<lambda>s. Name s = n) (collected arrays))" for n
    by simp
  have "concat (map (\<lambda>(n, obs). map (\<lambda>(v, attrs). (n, v, attrs)) obs) (observe st e)) =
      concat (map (\<lambda>n. map ?f (filter (\<lambda>s. Name s = n) (collected arrays))) (registered e))"
    unfolding at [symmetric] by (simp add: observe_def comp_def assms(2) SamplesByName_Build)
  then have "concat (map (\<lambda>(n, obs). map (\<lambda>(v, attrs). (n, v, attrs)) obs) (observe st e)) =
      map ?f (concat (map (\<lambda>n. filter (\<lambda>s. Name s = n) (collected arrays)) (registered e)))"
    by (simp add: map_concat comp_def)
  moreover have "Name ` set (collected arrays) \<subseteq> set (registered e)"
    using assms(2,4) MetricNames_Build(2) [OF assms(1), of arrays] by simp
  ultimately show ?thesis
    using filter_by_key_mset [OF assms(3), of Name "collected arrays"] by (simp del: map_concat mset_concat)
qed

end
