(* ===== verification/ConfigFacts.thy ===== *)
theory ConfigFacts
  imports Config
begin

text \<open>
  Lemmas about the configuration: a declarative specification of the accepted ones
  (\<open>config_ok\<close>) and that \<open>Validate\<close> decides it; what the accepted ones promise to the program.
\<close>

subsection \<open>Defaults\<close>

lemma or_default_idem [simp]: "or_default (or_default s d) d' = (if s = [] then or_default d d' else s)"
  by (simp add: or_default_def)

lemma or_default_nonempty [simp]: "s \<noteq> [] \<Longrightarrow> or_default s d = s"
  by (simp add: or_default_def)

lemma SetDefaults_idem: "SetDefaults (SetDefaults c) = SetDefaults c"
  by (simp add: SetDefaults_def Let_def or_default_def)

lemma SetDefaults_Arrays [simp]: "Arrays (SetDefaults c) = Arrays c"
  by (simp add: SetDefaults_def Let_def)

subsection \<open>What validation accepts\<close>

definition port_ok :: "string \<Rightarrow> bool" where
  "port_ok p \<longleftrightarrow> (\<exists>n. Atoi p = Some n \<and> 1 \<le> n \<and> n \<le> 65535)"

definition array_ok :: "array_config \<Rightarrow> bool" where
  "array_ok a \<longleftrightarrow> ArrayName a \<noteq> [] \<and> Endpoint a \<noteq> [] \<and> Username a \<noteq> [] \<and> Password a \<noteq> [] \<and>
    ArrayMaxConcurrency a \<ge> 0"

text \<open>An OTLP endpoint is \<open>host:port\<close> with the port after the last colon.\<close>

definition endpoint_ok :: "string \<Rightarrow> bool" where
  "endpoint_ok e \<longleftrightarrow> (\<exists>h p. e = h @ '':'' @ p \<and> h \<noteq> [] \<and> CHR '':'' \<notin> set p \<and> port_ok p)"

definition otel_ok :: "string \<Rightarrow> otel_export \<Rightarrow> bool" where
  "otel_ok name ot \<longleftrightarrow> (OtelEnabled ot \<longrightarrow> endpoint_ok (OtelEndpoint ot) \<and>
    (name = ''metrics'' \<longrightarrow> ParseDuration (OtelInterval ot) \<noteq> None) \<and>
    (name = ''tracing'' \<longrightarrow> \<not> lt_const (SamplingRate ot) 0 \<and> \<not> gt_const (SamplingRate ot) 1))"

definition config_ok :: "config \<Rightarrow> bool" where
  "config_ok c \<longleftrightarrow>
    port_ok (Port (Server c)) \<and>
    ParseDuration (CollInterval (Collection c)) \<noteq> None \<and> ParseDuration (CollTimeout (Collection c)) \<noteq> None \<and>
    CollMaxConcurrency (Collection c) \<ge> 0 \<and>
    Arrays c \<noteq> [] \<and> list_all array_ok (Arrays c) \<and> distinct (map ArrayName (Arrays c)) \<and>
    otel_ok ''metrics'' (OTelMetrics c) \<and> otel_ok ''tracing'' (OTelTracing c)"

lemma validatePort_ok: "validatePort p = None \<longleftrightarrow> port_ok p"
  by (auto simp: validatePort_def port_ok_def split: option.split)

lemma validate_arrays_loop_ok:
  "validate_arrays_loop i seen as = None \<longleftrightarrow>
    list_all array_ok as \<and> distinct (map ArrayName as) \<and> ArrayName ` set as \<inter> seen = {}"
  by (induction i seen as rule: validate_arrays_loop.induct) (auto simp: array_ok_def)

lemma splitHostPort_Inr:
  "splitHostPort e = Inr (h, p) \<longleftrightarrow> e = h @ '':'' @ p \<and> h \<noteq> [] \<and> p \<noteq> [] \<and> CHR '':'' \<notin> set p"
proof
  assume e: "splitHostPort e = Inr (h, p)"
  define after where "after = takeWhile (\<lambda>c. c \<noteq> CHR '':'') (rev e)"
  from e obtain c h' where d: "dropWhile (\<lambda>c. c \<noteq> CHR '':'') (rev e) = c # h'"
    and hp: "h = rev h'" "p = rev after" "h \<noteq> []" "p \<noteq> []"
    by (auto simp: splitHostPort_def Let_def after_def split: list.splits if_splits)
  from d have "c = CHR '':''" by (simp add: dropWhile_eq_Cons_conv)
  with d have "rev e = after @ CHR '':'' # h'"
    unfolding after_def by (metis takeWhile_dropWhile_id)
  then have "e = rev h' @ '':'' @ rev after"
    by (metis append.assoc append_Cons append_Nil rev.simps(2) rev_append rev_rev_ident)
  moreover have "CHR '':'' \<notin> set after" by (auto simp: after_def dest: set_takeWhileD)
  ultimately show "e = h @ '':'' @ p \<and> h \<noteq> [] \<and> p \<noteq> [] \<and> CHR '':'' \<notin> set p"
    using hp by simp
next
  assume e: "e = h @ '':'' @ p \<and> h \<noteq> [] \<and> p \<noteq> [] \<and> CHR '':'' \<notin> set p"
  then have "takeWhile (\<lambda>c. c \<noteq> CHR '':'') (rev e) = rev p" "dropWhile (\<lambda>c. c \<noteq> CHR '':'') (rev e) = CHR '':'' # rev h"
    by (simp_all add: takeWhile_append dropWhile_append)
  with e show "splitHostPort e = Inr (h, p)" by (simp add: splitHostPort_def)
qed

lemma Atoi_Nil [simp]: "Atoi [] = None"
  by (simp add: Atoi_def sign_def)

lemma endpoint_ok_split: "endpoint_ok e \<longleftrightarrow> (\<exists>h p. splitHostPort e = Inr (h, p) \<and> validatePort p = None)"
proof
  assume "endpoint_ok e"
  then obtain h p where e: "e = h @ '':'' @ p" "h \<noteq> []" "CHR '':'' \<notin> set p" and p: "port_ok p"
    by (auto simp: endpoint_ok_def)
  from p have "p \<noteq> []" by (auto simp: port_ok_def)
  with e have "splitHostPort e = Inr (h, p)" by (simp add: splitHostPort_Inr)
  with p show "\<exists>h p. splitHostPort e = Inr (h, p) \<and> validatePort p = None" by (simp add: validatePort_ok)
next
  assume "\<exists>h p. splitHostPort e = Inr (h, p) \<and> validatePort p = None"
  then show "endpoint_ok e" by (auto simp: endpoint_ok_def splitHostPort_Inr validatePort_ok)
qed

lemma splitHostPort_nonempty: "splitHostPort e = Inr (h, p) \<Longrightarrow> e \<noteq> [] \<and> h \<noteq> []"
  by (auto simp: splitHostPort_Inr)

lemma splitHostPort_Nil: "splitHostPort [] \<noteq> Inr (h, p)"
  by (simp add: splitHostPort_def)

lemma validateOTel_ok: "validateOTel name ot = None \<longleftrightarrow> otel_ok name ot"
proof (cases "splitHostPort (OtelEndpoint ot)")
  case (Inl e)
  then have "\<not> endpoint_ok (OtelEndpoint ot)" by (simp add: endpoint_ok_split)
  with Inl show ?thesis by (simp add: validateOTel_def otel_ok_def)
next
  case (Inr hp)
  then obtain h p where hp: "splitHostPort (OtelEndpoint ot) = Inr (h, p)" by (cases hp) auto
  then have "endpoint_ok (OtelEndpoint ot) \<longleftrightarrow> validatePort p = None" by (simp add: endpoint_ok_split)
  with hp splitHostPort_nonempty [OF hp] show ?thesis by (simp add: validateOTel_def otel_ok_def)
qed

lemma first_error_None: "first_error es = None \<longleftrightarrow> list_all (\<lambda>e. e = None) es"
  by (induction es rule: first_error.induct) auto

lemma Validate_fst: "fst (Validate c) = SetDefaults c"
  by (simp add: Validate_def Let_def)

lemma SetDefaults_filled: "Host (Server (SetDefaults c)) \<noteq> []" "URI (Server (SetDefaults c)) \<noteq> []"
  by (simp_all add: SetDefaults_def Let_def or_default_def)

lemma Validate_ok: "snd (Validate c) = None \<longleftrightarrow> config_ok (SetDefaults c)"
  by (simp add: Validate_def Let_def first_error_None validateServer_def validateCollection_def
      validateArrays_def validatePort_ok validate_arrays_loop_ok validateOTel_ok config_ok_def
      SetDefaults_filled not_less)

lemma concurrency_positive:
  "MaxConcurrencyOr a (GetMaxConcurrency c) \<ge> 1"
  by (auto simp: MaxConcurrencyOr_def GetMaxConcurrency_def defaultMaxConcurrency_def)

end
