(* ===== verification/Secrets.thy ===== *)
theory Secrets
  imports ConfigFacts
begin

text \<open>
  \<open>internal/utils/env.go\<close>: expansion of \<open>${VAR}\<close> and \<open>${VAR:-default}\<close> and the resolution of the arrays'
  secrets. The process environment is the parameter \<open>env\<close> (\<open>os.LookupEnv\<close>), the file system
  the parameter \<open>read_file\<close> (\<open>os.ReadFile\<close>). The regular expression of the references is
  written out as a scanner (\<open>match_ref\<close>); it is unambiguous, so the leftmost match at a position
  is the only one.

  Lemmas: what expansion does to a reference and to text without one; expansion fails exactly
  when a reference without a default names an unset variable; a credential given by a
  reference is never empty; resolution keeps everything but the secrets.
\<close>

subsection \<open>References\<close>

definition name_start :: "char \<Rightarrow> bool" where
  "name_start c \<longleftrightarrow> 65 \<le> code c \<and> code c \<le> 90 \<or> 97 \<le> code c \<and> code c \<le> 122 \<or> c = CHR ''_''"

definition name_char :: "char \<Rightarrow> bool" where
  "name_char c \<longleftrightarrow> name_start c \<or> is_digit c"

text \<open>
  A reference at the head of the text: its name, its second group (the default with its \<open>:-\<close>
  prefix, empty when absent) and the text after it.
\<close>

definition match_ref :: "string \<Rightarrow> (string \<times> string \<times> string) option" where
  "match_ref s =
    (case s of
       d # b # r \<Rightarrow>
         if d \<noteq> CHR ''$'' \<or> b \<noteq> CHR ''{'' then None
         else let n = takeWhile name_char r; r1 = dropWhile name_char r
           in if n = [] \<or> \<not> name_start (hd n) then None
              else (case r1 of
                  [] \<Rightarrow> None
                | c # r2 \<Rightarrow>
                    if c = CHR ''}'' then Some (n, [], r2)
                    else if c = CHR '':'' \<and> r2 \<noteq> [] \<and> hd r2 = CHR ''-'' then
                      (case dropWhile (\<lambda>c. c \<noteq> CHR ''}'') (tl r2) of
                         [] \<Rightarrow> None
                       | _ # rest \<Rightarrow> Some (n, '':-'' @ takeWhile (\<lambda>c. c \<noteq> CHR ''}'') (tl r2), rest))
                    else None)
     | _ \<Rightarrow> None)"



text \<open>The replacement of one match and the names it reports missing.\<close>

definition ref_value :: "environ \<Rightarrow> string \<Rightarrow> string \<Rightarrow> string \<times> string list" where
  "ref_value env name fallback =
    (case env name of
       Some v \<Rightarrow>
         if v \<noteq> [] then (v, []) else if fallback \<noteq> [] then (drop 2 fallback, []) else ([], [])
     | None \<Rightarrow> if fallback \<noteq> [] then (drop 2 fallback, []) else ([], [name]))"

lemma match_ref_shorter: "match_ref s = Some (n, fb, rest) \<Longrightarrow> length rest < length s"
proof -
  assume m: "match_ref s = Some (n, fb, rest)"
  then obtain d b r where s: "s = d # b # r"
    by (auto simp: match_ref_def split: list.splits)
  from m s obtain c r2 where r1: "dropWhile name_char r = c # r2"
    and "rest = r2 \<or> (\<exists>x. dropWhile (\<lambda>c. c \<noteq> CHR ''}'') (tl r2) = x # rest)"
    by (auto simp: match_ref_def Let_def split: list.splits if_splits)
  moreover have "length (dropWhile (\<lambda>c. c \<noteq> CHR ''}'') (tl r2)) \<le> length r2"
    by (rule le_trans [OF length_dropWhile_le]) simp
  moreover have "Suc (length r2) \<le> length r"
    using length_dropWhile_le [of name_char r] r1 by simp
  ultimately show ?thesis using s by auto
qed

function expand :: "environ \<Rightarrow> string \<Rightarrow> string \<times> string list" where
  "expand env s =
    (case s of
       [] \<Rightarrow> ([], [])
     | c # cs \<Rightarrow>
         (case match_ref s of
            None \<Rightarrow> (let (out, missing) = expand env cs in (c # out, missing))
          | Some (name, fallback, rest) \<Rightarrow>
              let (v, m) = ref_value env name fallback; (out, missing) = expand env rest
              in (v @ out, m @ missing)))"
  by pat_completeness auto
termination
  by (relation "measure (\<lambda>(env, s). length s)") (auto dest: match_ref_shorter)

declare expand.simps [simp del]

definition ExpandEnv :: "environ \<Rightarrow> string \<Rightarrow> err + string" where
  "ExpandEnv env s =
    (let (out, missing) = expand env s
     in if missing \<noteq> []
        then Inl (Msg (''environment variable(s) referenced in config but not set: '' @ join '', '' missing))
        else Inr out)"

text \<open>\<open>envRefPattern.MatchString\<close>: some position starts a reference.\<close>

fun has_ref :: "string \<Rightarrow> bool" where
  "has_ref [] = False"
| "has_ref (c # cs) = (match_ref (c # cs) \<noteq> None \<or> has_ref cs)"

definition ExpandEnvSecret :: "environ \<Rightarrow> string \<Rightarrow> string \<Rightarrow> err + string" where
  "ExpandEnvSecret env field s =
    (case ExpandEnv env s of
       Inl e \<Rightarrow> Inl e
     | Inr out \<Rightarrow>
         if out = [] \<and> has_ref s
         then Inl (Msg (field @ '' is set from an environment reference that resolved to an empty value''))
         else Inr out)"

subsection \<open>Resolution\<close>

definition resolve_array :: "environ \<Rightarrow> (string \<Rightarrow> err + string) \<Rightarrow> array_config \<Rightarrow> err + array_config" where
  "resolve_array env read_file a =
    (case ExpandEnvSecret env ''endpoint'' (Endpoint a) of
       Inl e \<Rightarrow> Inl (Wrap (''array '' @ ArrayName a @ '' endpoint'') e)
     | Inr endpoint \<Rightarrow>
         (let a = a\<lparr>Endpoint := endpoint\<rparr>
          in case ExpandEnvSecret env ''username'' (Username a) of
               Inl e \<Rightarrow> Inl (Wrap (''array '' @ ArrayName a @ '' username'') e)
             | Inr username \<Rightarrow>
                 (let a = a\<lparr>Username := username\<rparr>
                  in if Password a = [] \<and> PasswordFile a \<noteq> [] then
                       (case read_file (PasswordFile a) of
                          Inl e \<Rightarrow> Inl (Wrap (''array '' @ ArrayName a @ '' passwordFile'') e)
                        | Inr data \<Rightarrow> Inr (a\<lparr>Password := TrimSpace data\<rparr>))
                     else
                       (case ExpandEnvSecret env ''password'' (Password a) of
                          Inl e \<Rightarrow> Inl (Wrap (''array '' @ ArrayName a @ '' password'') e)
                        | Inr password \<Rightarrow>
                            (let a = a\<lparr>Password := password\<rparr>
                             in case Resolve (ExpandEnv env) (InsecureSkipVerify a) of
                                  Inl e \<Rightarrow> Inl (Wrap (''array '' @ ArrayName a @ '' insecureSkipVerify'') e)
                                | Inr b \<Rightarrow> Inr (a\<lparr>InsecureSkipVerify := b\<rparr>))))))"

fun resolve_arrays ::
  "environ \<Rightarrow> (string \<Rightarrow> err + string) \<Rightarrow> array_config list \<Rightarrow> err + array_config list" where
  "resolve_arrays env read_file [] = Inr []"
| "resolve_arrays env read_file (a # as) =
    (case resolve_array env read_file a of
       Inl e \<Rightarrow> Inl e
     | Inr a' \<Rightarrow> (case resolve_arrays env read_file as of Inl e \<Rightarrow> Inl e | Inr as' \<Rightarrow> Inr (a' # as')))"

definition ResolveSecrets :: "environ \<Rightarrow> (string \<Rightarrow> err + string) \<Rightarrow> config \<Rightarrow> err + config" where
  "ResolveSecrets env read_file cfg =
    (case resolve_arrays env read_file (Arrays cfg) of
       Inl e \<Rightarrow> Inl e
     | Inr as \<Rightarrow> Inr (cfg\<lparr>Arrays := as\<rparr>))"

subsection \<open>Expansion\<close>

lemma match_ref_dollar: "match_ref (c # cs) \<noteq> None \<Longrightarrow> c = CHR ''$''"
  by (auto simp: match_ref_def split: list.splits if_splits)

lemma expand_Nil [simp]: "expand env [] = ([], [])"
  by (simp add: expand.simps)

lemma expand_lit: "match_ref (c # cs) = None \<Longrightarrow> expand env (c # cs) = (c # fst (expand env cs), snd (expand env cs))"
  by (subst expand.simps) (simp add: split_beta)

lemma expand_ref:
  "match_ref s = Some (n, fb, rest) \<Longrightarrow>
    expand env s = (fst (ref_value env n fb) @ fst (expand env rest), snd (ref_value env n fb) @ snd (expand env rest))"
  by (cases s) (simp add: match_ref_def, subst expand.simps, simp add: split_beta)

lemma expand_text: "CHR ''$'' \<notin> set t \<Longrightarrow>
    expand env (t @ s) = (t @ fst (expand env s), snd (expand env s))"
proof (induction t)
  case (Cons c t)
  then have "match_ref (c # t @ s) = None" using match_ref_dollar by force
  with Cons show ?case by (simp add: expand_lit)
qed simp

lemma match_ref_var:
  assumes "n \<noteq> []" "name_start (hd n)" "list_all name_char n"
  shows "match_ref (''${'' @ n @ ''}'' @ rest) = Some (n, [], rest)"
    and "CHR ''}'' \<notin> set dflt \<Longrightarrow>
      match_ref (''${'' @ n @ '':-'' @ dflt @ ''}'' @ rest) = Some (n, '':-'' @ dflt, rest)"
proof -
  have nc: "\<not> name_char CHR ''}''" "\<not> name_char CHR '':''"
    by (simp_all add: name_char_def name_start_def is_digit_def code_def)
  have n: "takeWhile name_char (n @ c # r) = n" "dropWhile name_char (n @ c # r) = c # r"
    if "\<not> name_char c" for c r
    using that assms(3) by (simp_all add: takeWhile_append2 list_all_iff dropWhile_append2)
  show "match_ref (''${'' @ n @ ''}'' @ rest) = Some (n, [], rest)"
    using assms nc by (simp add: match_ref_def n)
  assume "CHR ''}'' \<notin> set dflt"
  then have "takeWhile (\<lambda>c. c \<noteq> CHR ''}'') (dflt @ CHR ''}'' # rest) = dflt"
    "dropWhile (\<lambda>c. c \<noteq> CHR ''}'') (dflt @ CHR ''}'' # rest) = CHR ''}'' # rest"
    by (auto simp: takeWhile_append dropWhile_append)
  with assms nc show "match_ref (''${'' @ n @ '':-'' @ dflt @ ''}'' @ rest) = Some (n, '':-'' @ dflt, rest)"
    by (simp add: match_ref_def n)
qed

text \<open>The references a text contains, left to right.\<close>

function refs :: "string \<Rightarrow> (string \<times> string) list" where
  "refs s = (case s of [] \<Rightarrow> [] | c # cs \<Rightarrow>
    (case match_ref s of None \<Rightarrow> refs cs | Some (n, fb, rest) \<Rightarrow> (n, fb) # refs rest))"
  by pat_completeness auto
termination
  by (relation "measure length") (auto dest: match_ref_shorter)

declare refs.simps [simp del]

lemma refs_Nil [simp]: "refs [] = []"
  by (simp add: refs.simps)

lemma refs_lit: "match_ref (c # cs) = None \<Longrightarrow> refs (c # cs) = refs cs"
  by (subst refs.simps) simp

lemma refs_ref: "match_ref s = Some (n, fb, rest) \<Longrightarrow> refs s = (n, fb) # refs rest"
  by (cases s) (simp add: match_ref_def, subst refs.simps, simp)

text \<open>Induction over a text: its end, a literal character, a reference.\<close>

lemma text_induct [case_names Nil lit ref]:
  assumes "P []" and "\<And>c cs. match_ref (c # cs) = None \<Longrightarrow> P cs \<Longrightarrow> P (c # cs)"
    and "\<And>s n fb rest. match_ref s = Some (n, fb, rest) \<Longrightarrow> P rest \<Longrightarrow> P s"
  shows "P s"
proof (induction s rule: length_induct)
  case (1 s)
  show ?case
  proof (cases "match_ref s")
    case None
    with 1 assms(1,2) show ?thesis by (cases s) auto
  next
    case (Some m)
    with 1 assms(3) match_ref_shorter show ?thesis by (cases m) blast
  qed
qed

lemma expand_missing:
  "snd (expand env s) = map fst (filter (\<lambda>(n, fb). env n = None \<and> fb = []) (refs s))"
  by (induction s rule: text_induct)
    (auto simp: expand_lit refs_lit expand_ref refs_ref ref_value_def split: option.split)

lemma has_ref_refs: "has_ref s \<longleftrightarrow> refs s \<noteq> []"
proof (induction s)
  case (Cons c cs)
  then show ?case
    by (cases "match_ref (c # cs)") (auto simp: refs_lit refs_ref)
qed simp

text \<open>The result depends on the environment only through the referenced variables.\<close>

lemma expand_local: "(\<And>n. n \<in> fst ` set (refs s) \<Longrightarrow> env n = env' n) \<Longrightarrow> expand env s = expand env' s"
  by (induction s rule: text_induct)
    (auto simp: expand_lit refs_lit expand_ref refs_ref ref_value_def split: option.split)

lemma ExpandEnv_iff:
  "ExpandEnv env s =
    (let missing = map fst (filter (\<lambda>(n, fb). env n = None \<and> fb = []) (refs s))
     in if missing = [] then Inr (fst (expand env s))
        else Inl (Msg (''environment variable(s) referenced in config but not set: '' @ join '', '' missing)))"
  unfolding ExpandEnv_def expand_missing [symmetric] by (simp add: split_beta Let_def)

lemma ExpandEnv_ok: "(\<exists>v. ExpandEnv env s = Inr v) \<longleftrightarrow> (\<forall>(n, fb) \<in> set (refs s). env n = None \<longrightarrow> fb \<noteq> [])"
  by (auto simp: ExpandEnv_iff Let_def filter_empty_conv)

lemma ExpandEnvSecret_nonempty:
  "ExpandEnvSecret env field s = Inr v \<Longrightarrow> v = [] \<Longrightarrow> refs s = [] \<and> ExpandEnv env s = Inr []"
  by (auto simp: ExpandEnvSecret_def has_ref_refs split: sum.splits if_splits)

text \<open>The error for an empty credential names the field and nothing of the credential.\<close>

lemma ExpandEnvSecret_error:
  "ExpandEnv env s = Inr [] \<Longrightarrow> refs s \<noteq> [] \<Longrightarrow>
    ExpandEnvSecret env field s =
      Inl (Msg (field @ '' is set from an environment reference that resolved to an empty value''))"
  by (simp add: ExpandEnvSecret_def has_ref_refs)

lemma no_dollar: "c \<noteq> CHR ''$'' \<Longrightarrow> match_ref (c # cs) = None"
  using match_ref_dollar by blast

lemma no_ref_text: "CHR ''$'' \<notin> set s \<Longrightarrow> refs s = [] \<and> expand env s = (s, [])"
  by (induction s) (auto simp: refs_lit expand_lit no_dollar)

subsection \<open>Resolution\<close>

definition same_but_secrets :: "array_config \<Rightarrow> array_config \<Rightarrow> bool" where
  "same_but_secrets a b \<longleftrightarrow>
    b = a\<lparr>Endpoint := Endpoint b, Username := Username b, Password := Password b,
          InsecureSkipVerify := InsecureSkipVerify b\<rparr>"

lemma resolve_array_frame: "resolve_array env read_file a = Inr b \<Longrightarrow> same_but_secrets a b"
  by (auto simp: resolve_array_def same_but_secrets_def Let_def split: sum.splits if_splits)

lemma same_but_secrets_name: "same_but_secrets a b \<Longrightarrow> ArrayName b = ArrayName a"
  by (cases a, cases b) (simp add: same_but_secrets_def)

lemma resolve_arrays_all2:
  "resolve_arrays env read_file as = Inr bs \<longleftrightarrow> list_all2 (\<lambda>a b. resolve_array env read_file a = Inr b) as bs"
proof (induction as arbitrary: bs)
  case (Cons a as)
  show ?case
  proof (cases "resolve_array env read_file a")
    case (Inr b)
    show ?thesis
    proof (cases "resolve_arrays env read_file as")
      case (Inl e)
      with Cons.IH have "\<not> list_all2 (\<lambda>a b. resolve_array env read_file a = Inr b) as cs" for cs
        by (metis Inl_Inr_False)
      with Inl Inr show ?thesis by (auto simp: list_all2_Cons1)
    next
      case rest: (Inr cs)
      with Cons.IH [of cs] Cons.IH show ?thesis using Inr by (auto simp: list_all2_Cons1)
    qed
  qed (auto simp: list_all2_Cons1)
qed auto

text \<open>The first array that cannot be resolved decides the error.\<close>

lemma resolve_arrays_first:
  "list_all (\<lambda>x. \<exists>b. resolve_array env read_file x = Inr b) pre \<Longrightarrow> resolve_array env read_file a = Inl e \<Longrightarrow>
    resolve_arrays env read_file (pre @ a # post) = Inl e"
  by (induction pre) auto

lemma ResolveSecrets_all2:
  "ResolveSecrets env read_file cfg = Inr cfg' \<longleftrightarrow>
    (\<exists>as. cfg' = cfg\<lparr>Arrays := as\<rparr> \<and> list_all2 (\<lambda>a b. resolve_array env read_file a = Inr b) (Arrays cfg) as)"
  unfolding resolve_arrays_all2 [symmetric] by (auto simp: ResolveSecrets_def split: sum.split)

lemma ResolveSecrets_names:
  assumes "ResolveSecrets env read_file cfg = Inr cfg'"
  shows "map ArrayName (Arrays cfg') = map ArrayName (Arrays cfg)"
proof -
  from assms have "list_all2 (\<lambda>a b. resolve_array env read_file a = Inr b) (Arrays cfg) (Arrays cfg')"
    by (auto simp: ResolveSecrets_all2)
  then have "list_all2 (\<lambda>a b. ArrayName b = ArrayName a) (Arrays cfg) (Arrays cfg')"
    by (rule list_all2_mono) (blast dest: resolve_array_frame same_but_secrets_name)
  then show ?thesis by (induction rule: list_all2_induct) auto
qed

text \<open>A password file ends the resolution of its array: the TLS reference stays unresolved.\<close>

lemma password_file_skips_tls:
  "resolve_array env read_file a = Inr b \<Longrightarrow> Password a = [] \<Longrightarrow> PasswordFile a \<noteq> [] \<Longrightarrow>
    InsecureSkipVerify b = InsecureSkipVerify a"
  by (auto simp: resolve_array_def Let_def split: sum.splits if_splits)

subsection \<open>Texts of literals and references\<close>

text \<open>A text as the configuration's author writes it, piece by piece, and what each piece stands for.\<close>

datatype piece = Lit string | Var string | VarOr string string

fun render :: "piece \<Rightarrow> string" where
  "render (Lit t) = t"
| "render (Var n) = ''${'' @ n @ ''}''"
| "render (VarOr n dflt) = ''${'' @ n @ '':-'' @ dflt @ ''}''"

definition var_name :: "string \<Rightarrow> bool" where
  "var_name n \<longleftrightarrow> n \<noteq> [] \<and> name_start (hd n) \<and> list_all name_char n"

fun piece_ok :: "piece \<Rightarrow> bool" where
  "piece_ok (Lit t) = (CHR ''$'' \<notin> set t)"
| "piece_ok (Var n) = var_name n"
| "piece_ok (VarOr n dflt) = (var_name n \<and> CHR ''}'' \<notin> set dflt)"

fun piece_value :: "environ \<Rightarrow> piece \<Rightarrow> string" where
  "piece_value env (Lit t) = t"
| "piece_value env (Var n) = (case env n of None \<Rightarrow> [] | Some v \<Rightarrow> v)"
| "piece_value env (VarOr n dflt) = (case env n of None \<Rightarrow> dflt | Some v \<Rightarrow> if v = [] then dflt else v)"

fun unset :: "environ \<Rightarrow> piece \<Rightarrow> string list" where
  "unset env (Var n) = (if env n = None then [n] else [])"
| "unset env _ = []"

lemma match_render:
  assumes "piece_ok p" and "\<And>t. p \<noteq> Lit t"
  shows "\<exists>n fb. match_ref (render p @ rest) = Some (n, fb, rest) \<and>
    ref_value env n fb = (piece_value env p, unset env p) \<and> ((n, fb) \<noteq> ([], []))"
proof (cases p)
  case (Lit t)
  with assms(2) show ?thesis by blast
next
  case (Var n)
  with assms(1) have "match_ref (render p @ rest) = Some (n, [], rest)" "n \<noteq> []"
    using match_ref_var(1) [of n rest] by (simp_all add: var_name_def)
  with Var show ?thesis by (auto simp: ref_value_def split: option.split)
next
  case (VarOr n dflt)
  with assms(1) have "match_ref (render p @ rest) = Some (n, '':-'' @ dflt, rest)"
    using match_ref_var(2) [of n dflt rest] by (simp add: var_name_def)
  with VarOr show ?thesis by (auto simp: ref_value_def split: option.split)
qed

lemma expand_pieces:
  "list_all piece_ok ps \<Longrightarrow>
    expand env (concat (map render ps)) = (concat (map (piece_value env) ps), concat (map (unset env) ps))"
proof (induction ps)
  case (Cons p ps)
  show ?case
  proof (cases "\<exists>t. p = Lit t")
    case True
    with Cons show ?thesis by (auto simp: expand_text)
  next
    case False
    with Cons.prems match_render [of p "concat (map render ps)" env] obtain n fb where
      "match_ref (render p @ concat (map render ps)) = Some (n, fb, concat (map render ps))"
      "ref_value env n fb = (piece_value env p, unset env p)"
      by auto
    from expand_ref [OF this(1), of env] this(2) Cons show ?thesis by simp
  qed
qed simp

lemma ExpandEnv_pieces:
  "list_all piece_ok ps \<Longrightarrow>
    ExpandEnv env (concat (map render ps)) =
      (let missing = concat (map (unset env) ps)
       in if missing = [] then Inr (concat (map (piece_value env) ps))
          else Inl (Msg (''environment variable(s) referenced in config but not set: '' @ join '', '' missing)))"
  by (simp add: ExpandEnv_def expand_pieces)

subsection \<open>What a resolved configuration promises\<close>

definition credentials_filled :: "array_config \<Rightarrow> array_config \<Rightarrow> bool" where
  "credentials_filled a b \<longleftrightarrow>
    (refs (Endpoint a) \<noteq> [] \<longrightarrow> Endpoint b \<noteq> []) \<and> (refs (Username a) \<noteq> [] \<longrightarrow> Username b \<noteq> []) \<and>
    (refs (Password a) \<noteq> [] \<longrightarrow> Password b \<noteq> [])"

lemma ExpandEnvSecret_filled: "ExpandEnvSecret env field s = Inr v \<Longrightarrow> refs s \<noteq> [] \<Longrightarrow> v \<noteq> []"
  using ExpandEnvSecret_nonempty by blast

lemma resolve_array_filled: "resolve_array env read_file a = Inr b \<Longrightarrow> credentials_filled a b"
  by (auto simp: resolve_array_def credentials_filled_def Let_def dest: ExpandEnvSecret_filled
      split: sum.splits if_splits)

lemma ResolveSecrets_filled:
  assumes "ResolveSecrets env read_file cfg = Inr cfg'"
  shows "cfg' = cfg\<lparr>Arrays := Arrays cfg'\<rparr> \<and>
    list_all2 (\<lambda>a b. same_but_secrets a b \<and> credentials_filled a b) (Arrays cfg) (Arrays cfg')"
  using assms by (auto simp: ResolveSecrets_all2 elim!: list_all2_mono dest: resolve_array_frame resolve_array_filled)

text \<open>Without a password file the TLS flag is the referenced variable.\<close>

lemma resolve_array_tls:
  assumes "resolve_array env read_file a = Inr b" and "raw (InsecureSkipVerify a) = render (Var n)" and "var_name n"
    and "env n = Some v" and "ParseBool (TrimSpace v) = Some f" and "TrimSpace v \<noteq> []"
  shows "val (InsecureSkipVerify b) =
    (if Password a = [] \<and> PasswordFile a \<noteq> [] then val (InsecureSkipVerify a) else f)"
proof -
  have "ExpandEnv env (render (Var n)) = Inr v"
    using ExpandEnv_pieces [of "[Var n]" env] assms(3,4) by simp
  then have "Resolve (ExpandEnv env) (InsecureSkipVerify a) = Inr ((InsecureSkipVerify a)\<lparr>val := f\<rparr>)"
    using assms(2,5,6) by (simp add: Resolve_def)
  with assms(1) show ?thesis
    by (auto simp: resolve_array_def Let_def split: sum.splits if_splits)
qed

end
