(* ===== verification/SafeConfig.thy ===== *)
theory SafeConfig
  imports Secrets
begin

text \<open>
  \<open>internal/models/safe_config.go\<close>, \<open>internal/utils/file.go\<close> and \<open>validateConfig\<close> of \<open>main.go\<close>: loading a
  configuration and replacing the running one. The file system and the YAML decoder are the
  parameter \<open>files\<close>. The secret resolver is injected, as in the code; the locale
  \<open>secret_resolver\<close> states what a reload relies on, and \<open>ResolveSecrets\<close> is its instance.

  Lemmas: a reload that fails leaves the configuration as it was; one that succeeds installs the
  resolved and validated file; \<open>arraysChanged\<close> tells exactly whether the sets of array names differ.
\<close>

record files =
  file_missing :: "string \<Rightarrow> bool"
  open_file :: "string \<Rightarrow> err + string"
  decode_yaml :: "string \<Rightarrow> err + config"

record safe_config =
  C :: config
  resolver :: "(config \<Rightarrow> err + config) option"

definition NewSafeConfig :: "config \<Rightarrow> (config \<Rightarrow> err + config) option \<Rightarrow> safe_config" where
  "NewSafeConfig cfg res = \<lparr>C = cfg, resolver = res\<rparr>"

definition GetConfig :: "safe_config \<Rightarrow> config" where
  "GetConfig sc = C sc"

definition name_set :: "config \<Rightarrow> (string, unit) amap" where
  "name_set cfg = foldl (\<lambda>m a. amap_put (ArrayName a) () m) [] (Arrays cfg)"

definition nameSetsEqual :: "(string, unit) amap \<Rightarrow> (string, unit) amap \<Rightarrow> bool" where
  "nameSetsEqual a b \<longleftrightarrow> length a = length b \<and> list_all (\<lambda>k. amap_get b k \<noteq> None) (amap_keys a)"

text \<open>Everything \<open>ReloadConfig\<close> does before it takes the write lock.\<close>

definition load_config :: "files \<Rightarrow> safe_config \<Rightarrow> string \<Rightarrow> err + config" where
  "load_config fs sc path =
    (if file_missing fs path then Inl (Msg (''config file not found: '' @ path))
     else (case open_file fs path of
         Inl e \<Rightarrow> Inl (Wrap ''failed to open config'' e)
       | Inr content \<Rightarrow>
           (case decode_yaml fs content of
              Inl e \<Rightarrow> Inl (Wrap ''failed to decode config'' e)
            | Inr newCfg \<Rightarrow>
                (case (case resolver sc of None \<Rightarrow> Inr newCfg | Some resolve \<Rightarrow> resolve newCfg) of
                   Inl e \<Rightarrow> Inl (Wrap ''failed to resolve secrets'' e)
                 | Inr newCfg \<Rightarrow>
                     (case Validate newCfg of
                        (newCfg, Some e) \<Rightarrow> Inl (Wrap ''config validation failed'' e)
                      | (newCfg, None) \<Rightarrow> Inr newCfg)))))"

definition ReloadSafeConfig :: "files \<Rightarrow> safe_config \<Rightarrow> string \<Rightarrow> safe_config \<times> (err + bool)" where
  "ReloadSafeConfig fs sc path =
    (case load_config fs sc path of
       Inl e \<Rightarrow> (sc, Inl e)
     | Inr newCfg \<Rightarrow>
         let oldNames = name_set (C sc); newNames = name_set newCfg
         in (sc\<lparr>C := newCfg\<rparr>, Inr (\<not> nameSetsEqual oldNames newNames)))"

definition FileExists :: "files \<Rightarrow> string \<Rightarrow> bool" where
  "FileExists fs path \<longleftrightarrow> \<not> file_missing fs path"

definition ReadConfigFile :: "environ \<Rightarrow> files \<Rightarrow> string \<Rightarrow> err + config" where
  "ReadConfigFile env fs path =
    (case open_file fs path of
       Inl e \<Rightarrow> Inl (Wrap (''failed to open config file '' @ path) e)
     | Inr content \<Rightarrow>
         (case decode_yaml fs content of
            Inl e \<Rightarrow> Inl (Wrap (''failed to decode config file '' @ path) e)
          | Inr cfg \<Rightarrow> ResolveSecrets env (open_file fs) cfg))"

definition validateConfig :: "environ \<Rightarrow> files \<Rightarrow> string \<Rightarrow> err + config" where
  "validateConfig env fs path =
    (if \<not> FileExists fs path then Inl (Msg (''config file not found: '' @ path))
     else (case ReadConfigFile env fs path of
         Inl e \<Rightarrow> Inl e
       | Inr cfg \<Rightarrow>
           (case Validate cfg of
              (cfg, Some e) \<Rightarrow> Inl (Wrap ''invalid configuration'' e)
            | (cfg, None) \<Rightarrow> Inr cfg)))"

subsection \<open>Name sets\<close>

lemma name_set_ok: "amap_ok (name_set cfg)"
  unfolding name_set_def by (rule al.invar_fill [OF al.invar_emp])

lemma name_set_keys: "set (amap_keys (name_set cfg)) = ArrayName ` set (Arrays cfg)"
  unfolding name_set_def by (rule al.keys_fill)

lemma nameSetsEqual_iff:
  assumes "amap_ok a" and "amap_ok b"
  shows "nameSetsEqual a b \<longleftrightarrow> set (amap_keys a) = set (amap_keys b)"
proof
  assume eq: "nameSetsEqual a b"
  then have sub: "set (amap_keys a) \<subseteq> set (amap_keys b)"
    using al.keys_look [OF assms(2)] by (auto simp: nameSetsEqual_def list_all_iff)
  have "card (set (amap_keys m)) = length m" if "amap_ok m" for m :: "(string, unit) amap"
    unfolding amap_keys_def using that by (metis amap_ok_def distinct_card length_map)
  with eq assms have "card (set (amap_keys a)) = card (set (amap_keys b))" by (simp add: nameSetsEqual_def)
  with sub show "set (amap_keys a) = set (amap_keys b)" by (simp add: card_subset_eq)
next
  assume eq: "set (amap_keys a) = set (amap_keys b)"
  then have "list_all (\<lambda>k. amap_get b k \<noteq> None) (amap_keys a)"
    using al.keys_look [OF assms(2)] by (auto simp: list_all_iff)
  moreover have "length (amap_keys m) = card (set (amap_keys m))" if "amap_ok m" for m :: "(string, unit) amap"
    unfolding amap_keys_def using that by (metis amap_ok_def distinct_card)
  with eq assms have "length a = length b" by (metis amap_keys_def length_map)
  ultimately show "nameSetsEqual a b" by (simp add: nameSetsEqual_def)
qed

lemma names_changed:
  "nameSetsEqual (name_set a) (name_set b) \<longleftrightarrow> ArrayName ` set (Arrays a) = ArrayName ` set (Arrays b)"
  by (simp add: nameSetsEqual_iff name_set_ok name_set_keys)

subsection \<open>Loading\<close>

lemma Validate_result: "Validate cfg = (cfg', None) \<longleftrightarrow> cfg' = SetDefaults cfg \<and> config_ok cfg'"
  using Validate_fst [of cfg] Validate_ok [of cfg] by (cases "Validate cfg") auto

lemma validateConfig_ok: "validateConfig env fs path = Inr cfg \<Longrightarrow> config_ok cfg"
  by (auto simp: validateConfig_def Validate_result split: if_splits sum.splits option.splits prod.splits)

lemma load_config_ok: "load_config fs sc path = Inr cfg \<Longrightarrow> config_ok cfg"
  by (auto simp: load_config_def Validate_result split: if_splits sum.splits option.splits prod.splits)

lemma load_config_frame [simp]: "load_config fs (sc\<lparr>C := c\<rparr>) path = load_config fs sc path"
  unfolding load_config_def by (cases sc) (simp only: safe_config.update_convs safe_config.select_convs)

lemma reload_fails: "snd (ReloadSafeConfig fs sc path) = Inl e \<Longrightarrow> fst (ReloadSafeConfig fs sc path) = sc"
  by (auto simp: ReloadSafeConfig_def Let_def split: sum.splits)

lemma reload_succeeds:
  assumes "ReloadSafeConfig fs sc path = (sc', Inr changed)"
  shows "load_config fs sc path = Inr (C sc')" and "config_ok (C sc')" and "resolver sc' = resolver sc"
    and "changed \<longleftrightarrow> ArrayName ` set (Arrays (C sc)) \<noteq> ArrayName ` set (Arrays (C sc'))"
proof -
  from assms obtain cfg where cfg: "load_config fs sc path = Inr cfg" and sc': "sc' = sc\<lparr>C := cfg\<rparr>"
    and ch: "changed = (\<not> nameSetsEqual (name_set (C sc)) (name_set cfg))"
    by (cases "load_config fs sc path") (auto simp: ReloadSafeConfig_def Let_def)
  show "load_config fs sc path = Inr (C sc')" "resolver sc' = resolver sc" using cfg sc' by simp_all
  show "config_ok (C sc')" using load_config_ok [OF cfg] sc' by simp
  show "changed \<longleftrightarrow> ArrayName ` set (Arrays (C sc)) \<noteq> ArrayName ` set (Arrays (C sc'))"
    unfolding ch names_changed using sc' by simp
qed

subsection \<open>The injected resolver\<close>

locale secret_resolver =
  fixes resolve :: "config \<Rightarrow> err + config"
  assumes names_kept: "resolve cfg = Inr cfg' \<Longrightarrow> map ArrayName (Arrays cfg') = map ArrayName (Arrays cfg)"
begin

text \<open>The names compared by a reload are the names written in the file.\<close>

lemma load_names:
  assumes "resolver sc = Some resolve" and "load_config fs sc path = Inr cfg"
  shows "\<exists>content cfg0. open_file fs path = Inr content \<and> decode_yaml fs content = Inr cfg0 \<and>
    map ArrayName (Arrays cfg) = map ArrayName (Arrays cfg0)"
proof -
  from assms obtain content cfg0 cfg1 where "open_file fs path = Inr content" "decode_yaml fs content = Inr cfg0"
    and r: "resolve cfg0 = Inr cfg1" and "Validate cfg1 = (cfg, None)"
    by (auto simp: load_config_def split: if_splits sum.splits option.splits prod.splits)
  moreover from this have "Arrays cfg = Arrays cfg1" by (auto simp: Validate_result)
  ultimately show ?thesis using names_kept [OF r] by auto
qed

lemma reload_unchanged_names:
  assumes "resolver sc = Some resolve" and "ReloadSafeConfig fs sc path = (sc', Inr False)"
  shows "ArrayName ` set (Arrays (C sc')) = ArrayName ` set (Arrays (C sc))"
  using reload_succeeds(4) [OF assms(2)] by simp

end

interpretation rs: secret_resolver "ResolveSecrets env read_file" for env read_file
  by unfold_locales (rule ResolveSecrets_names)

end
