(* ===== verification/Server.thy ===== *)
theory Server
  imports Prometheus Otlp SafeConfig
begin

text \<open>
  \<open>main.go\<close>: the server that owns the configuration, the store, the collector and the exporters. The
  record \<open>server\<close> holds its state; each method is a function of it. The world outside is the
  record \<open>world\<close>: the logins, the arrays of one cycle, the clock, the OTLP library, the files and the
  process flags. The clients of \<open>s.clients\<close> and of the collector are the same objects, so an
  operation that updates the collector's clients updates both.

  Interleavings of these methods are the subject of \<open>Races\<close>.
\<close>

record world =
  w_login :: "string \<Rightarrow> string \<Rightarrow> string \<Rightarrow> bool \<Rightarrow> err option"
  w_http :: "archive http_env"
  w_gp :: "string \<Rightarrow> gp_client"
  w_now :: "string \<Rightarrow> int"
  w_order :: "string list \<Rightarrow> string list"
  w_otlp_new :: "push_option list \<Rightarrow> err option"
  w_gauge :: "string \<Rightarrow> err option"
  w_files :: files
  w_once :: bool
  w_trace :: bool
  w_version :: string

type_synonym hook_state = "otlp_exporter option"

text \<open>The HTTP server of the process: its address and what its multiplexer routes.\<close>

datatype route = MetricsRoute | HealthRoute | StaticOKRoute

record http_server =
  HttpAddr :: string
  HttpRoutes :: "(string \<times> route) list"

record server =
  SafeCfg :: safe_config
  ConfigPath :: string
  HttpSrv :: "http_server option"
  Registry :: "string list"
  StoreOf :: snapshot_store
  Telemetry :: "manager option"
  TracerProv :: "trace_provider option"
  ServerClients :: "array_client list"
  ServerCollector :: "(array_client, hook_state) collector option"
  LoopStarted :: bool
  OtlpOf :: hook_state
  ConfigWatcher :: "(string \<times> string) option"
  ErrChanOpen :: bool

definition NewServer :: "safe_config \<Rightarrow> string \<Rightarrow> server" where
  "NewServer sc path = \<lparr>SafeCfg = sc, ConfigPath = path, HttpSrv = None, Registry = [], StoreOf = NewSnapshotStore,
     Telemetry = None, TracerProv = None, ServerClients = [], ServerCollector = None, LoopStarted = False,
     OtlpOf = None, ConfigWatcher = None, ErrChanOpen = True\<rparr>"

subsection \<open>Clients\<close>

definition build_client :: "world \<Rightarrow> int \<Rightarrow> array_config \<Rightarrow> array_client option" where
  "build_client w fleet a =
    (case NewArrayClient (w_login w) a (MaxConcurrencyOr a fleet) (w_trace w) of
       Inl e \<Rightarrow> None | Inr c \<Rightarrow> Some c)"

definition buildClients :: "world \<Rightarrow> config \<Rightarrow> err + array_client list" where
  "buildClients w cfg =
    (let fleet = GetMaxConcurrency cfg; clients = List.map_filter (build_client w fleet) (Arrays cfg)
     in if clients = [] then Inl (Msg ''no usable array clients could be created from configuration'')
        else Inr clients)"

definition world_ops :: "world \<Rightarrow> array_client client_ops" where
  "world_ops w = array_ops (w_order w) (w_http w) (w_gp w)"

subsection \<open>Starting\<close>

definition startCollection :: "world \<Rightarrow> config \<Rightarrow> server \<Rightarrow> (server \<times> err option) option" where
  "startCollection w cfg s =
    (case buildClients w cfg of
       Inl e \<Rightarrow> Some (s, Some e)
     | Inr clients \<Rightarrow>
         do {
           let coll = NewCollector clients (GetCollectionInterval cfg) (GetCollectionTimeout cfg) (TracerProv s);
           (snap, coll, st, h) \<leftarrow> CollectOnce (w_order w) (world_ops w) (w_now w) coll (StoreOf s) (OtlpOf s);
           Some (s\<lparr>StoreOf := st, OtlpOf := h, ServerClients := Clients coll, ServerCollector := Some coll,
             LoopStarted := \<not> w_once w\<rparr>, None)
         })"

definition refresh_hook :: "world \<Rightarrow> snapshot_store \<Rightarrow> hook_state \<Rightarrow> hook_state" where
  "refresh_hook w st h = map_option (\<lambda>e. fst (EnsureInstruments (w_gauge w) st e)) h"

definition initOTLP :: "world \<Rightarrow> config \<Rightarrow> server \<Rightarrow> server \<times> err option" where
  "initOTLP w cfg s =
    (if \<not> IsOTelMetricsEnabled cfg then (s, None)
     else (case NewOTLPExporter (w_otlp_new w) (OTelMetrics cfg) (w_version w) of
         Inl e \<Rightarrow> (s, Some e)
       | Inr new \<Rightarrow>
           (case EnsureInstruments (w_gauge w) (StoreOf s) new of
              (ex, Some e) \<Rightarrow> (s, Some e)
            | (ex, None) \<Rightarrow>
                (s\<lparr>OtlpOf := Some ex,
                   ServerCollector := map_option (SetOnCycle (Some (refresh_hook w))) (ServerCollector s)\<rparr>, None))))"

text \<open>
  The background goroutine of \<open>Start\<close>: OTLP is set up only when the collection could be. In
  \<open>--once\<close> mode there is no goroutine and no OTLP.
\<close>

definition startBackground :: "world \<Rightarrow> config \<Rightarrow> server \<Rightarrow> server option" where
  "startBackground w cfg s =
    do {
      (s, err) \<leftarrow> startCollection w cfg s;
      Some (if err = None \<and> \<not> w_once w then fst (initOTLP w cfg s) else s)
    }"

subsection \<open>Reloading and stopping\<close>

definition ReloadConfig :: "world \<Rightarrow> string \<Rightarrow> server \<Rightarrow> server \<times> err option" where
  "ReloadConfig w path s =
    (let (sc, r) = ReloadSafeConfig (w_files w) (SafeCfg s) path; s = s\<lparr>SafeCfg := sc\<rparr>
     in case r of
          Inl e \<Rightarrow> (s, Some e)
        | Inr arraysChanged \<Rightarrow>
            if \<not> arraysChanged then (s, None)
            else (case buildClients w (GetConfig (SafeCfg s)) of
                Inl e \<Rightarrow> (s, Some (Wrap ''failed to rebuild clients after reload'' e))
              | Inr newClients \<Rightarrow>
                  (let s = s\<lparr>ServerClients := newClients,
                             ServerCollector := map_option (SetClients newClients) (ServerCollector s)\<rparr>
                   in (s\<lparr>OtlpOf := refresh_hook w (StoreOf s) (OtlpOf s)\<rparr>, None))))"

definition stopCollection :: "server \<Rightarrow> server" where
  "stopCollection s = s\<lparr>LoopStarted := False, ServerClients := [], ServerCollector := None\<rparr>"

text \<open>One cycle of the running loop.\<close>

definition tick :: "world \<Rightarrow> server \<Rightarrow> server option" where
  "tick w s =
    (case ServerCollector s of
       None \<Rightarrow> Some s
     | Some coll \<Rightarrow>
         do {
           (snap, coll, st, h) \<leftarrow> CollectOnce (w_order w) (world_ops w) (w_now w) coll (StoreOf s) (OtlpOf s);
           Some (s\<lparr>StoreOf := st, OtlpOf := h, ServerClients := Clients coll, ServerCollector := Some coll\<rparr>)
         })"

subsection \<open>Health\<close>

record array_health =
  HealthArray :: string
  HealthOK :: bool
  HealthLastScrape :: "int option"
  HealthErr :: "err option"

definition healthHandler :: "(string list \<Rightarrow> string list) \<Rightarrow> server \<Rightarrow> int \<times> array_health list" where
  "healthHandler \<rho> s =
    (200, map (\<lambda>(_, as). \<lparr>HealthArray = Array as, HealthOK = Up as, HealthLastScrape = LastScrape as,
       HealthErr = ScrapeError as\<rparr>) (amap_range \<rho> (PerArray (LoadSnapshot (StoreOf s)))))"

definition staticOKHandler :: "server \<Rightarrow> int" where
  "staticOKHandler s = 200"

end
