(* ===== verification/ServerFacts.thy ===== *)
theory ServerFacts
  imports Server
begin

text \<open>
  Lemmas about the server: the invariant of its state and that every method preserves it; what a
  start, a cycle and a reload achieve; what a scrape of the published snapshot can show.
\<close>

subsection \<open>Clients\<close>

lemma map_filter_subseq: "set (List.map_filter f xs) = {y. \<exists>x \<in> set xs. f x = Some y}"
  by (rule map_filter_in_set)

lemma build_client_ok: "build_client w fleet a = Some c \<Longrightarrow> client_ok c \<and> ClientName c = ArrayName a"
  by (auto simp: build_client_def dest: NewArrayClient_ok NewArrayClient_fields split: sum.splits)

lemma buildClients_Inr:
  "buildClients w cfg = Inr cs \<longleftrightarrow>
    cs = List.map_filter (build_client w (GetMaxConcurrency cfg)) (Arrays cfg) \<and> cs \<noteq> []"
  by (auto simp: buildClients_def Let_def)

lemma build_names:
  "map ClientName (List.map_filter (build_client w n) as) =
    map ArrayName (filter (\<lambda>a. build_client w n a \<noteq> None) as)"
  by (induction as) (auto dest: build_client_ok)

lemma buildClients_ok:
  assumes "buildClients w cfg = Inr cs" and "config_ok cfg"
  shows "list_all client_ok cs" and "distinct (map ClientName cs)" and "cs \<noteq> []"
proof -
  from assms(1) have cs: "cs = List.map_filter (build_client w (GetMaxConcurrency cfg)) (Arrays cfg)" "cs \<noteq> []"
    by (blast dest: buildClients_Inr [THEN iffD1])+
  show "cs \<noteq> []" by (rule cs(2))
  show "list_all client_ok cs"
    unfolding cs(1) by (auto simp: list_all_iff map_filter_in_set dest: build_client_ok)
  show "distinct (map ClientName cs)"
    unfolding cs(1) build_names using assms(2) by (simp add: config_ok_def distinct_map_filter)
qed

text \<open>Which arrays are monitored: the configured ones whose login succeeds.\<close>

definition login_ok :: "world \<Rightarrow> array_config \<Rightarrow> bool" where
  "login_ok w a \<longleftrightarrow> w_login w (Endpoint a) (Username a) (Password a) (val (InsecureSkipVerify a)) = None"

lemma build_client_login: "build_client w n a \<noteq> None \<longleftrightarrow> login_ok w a"
  by (auto simp: build_client_def NewArrayClient_def login_ok_def Let_def split: option.split)

lemma buildClients_names:
  "buildClients w cfg = Inr cs \<Longrightarrow> map ClientName cs = map ArrayName (filter (login_ok w) (Arrays cfg))"
  unfolding buildClients_Inr by (elim conjE, simp only: build_names build_client_login)

lemma buildClients_fails: "(\<exists>e. buildClients w cfg = Inl e) \<longleftrightarrow> (\<forall>a \<in> set (Arrays cfg). \<not> login_ok w a)"
proof -
  have "(\<exists>e. buildClients w cfg = Inl e) \<longleftrightarrow>
      map ClientName (List.map_filter (build_client w (GetMaxConcurrency cfg)) (Arrays cfg)) = []"
    by (auto simp: buildClients_def Let_def)
  then show ?thesis unfolding build_names build_client_login by (simp add: filter_empty_conv)
qed

subsection \<open>The published snapshot\<close>

definition store_ok :: "snapshot_store \<Rightarrow> bool" where
  "store_ok st \<longleftrightarrow> amap_ok (PerArray (LoadSnapshot st)) \<and> distinct (MetricNames (LoadSnapshot st)) \<and>
    (\<forall>n. \<forall>s \<in> set (SamplesByName (LoadSnapshot st) n). Name s = n \<and> conforms s) \<and>
    (\<forall>n \<in> set (MetricNames (LoadSnapshot st)). metric_schema n \<noteq> None)"

lemma Build_store_ok:
  assumes "range_order \<rho>" and "\<And>s. s \<in> set (collected arrays) \<Longrightarrow> conforms s"
  shows "store_ok (StoreSnapshot (BuildSnapshot \<rho> arrays) st)"
  using assms(2) MetricNames_Build [OF assms(1), of arrays]
  by (auto simp: store_ok_def snap_store.load_publish PerArray_Build SamplesByName_Build conforms_def)

lemma NewSnapshotStore_ok: "store_ok NewSnapshotStore"
  using Build_store_ok [OF range_order_id, of "[]"]
  by (simp add: store_ok_def NewSnapshotStore_def LoadSnapshot_def StoreSnapshot_def collected_def)

definition world_ok :: "world \<Rightarrow> bool" where
  "world_ok w \<longleftrightarrow> range_order (w_order w)"

lemma collected_samples: "s \<in> set (collected arrays) \<longleftrightarrow> s \<in> set (SamplesByName (BuildSnapshot \<rho> arrays) (Name s))"
  by (simp add: SamplesByName_Build)

lemma cycle_store_ok:
  assumes "world_ok w" and "collectAll (w_order w) (world_ops w) now cs = Some (snap, cs')"
  shows "store_ok (StoreSnapshot snap st)"
proof -
  from assms(2) obtain rs where snap: "snap = BuildSnapshot (w_order w) (map Some rs)"
    unfolding world_ops_def by (rule ac.collectAll_results)
  have "conforms s" if "s \<in> set (collected (map Some rs))" for s
    using that ac.cycle_samples [OF assms(2) [unfolded world_ops_def], of s "Name s"]
    unfolding snap by (auto simp: SamplesByName_Build)
  with assms(1) show ?thesis unfolding snap world_ok_def by (intro Build_store_ok)
qed

subsection \<open>Invariant\<close>

definition server_ok :: "server \<Rightarrow> bool" where
  "server_ok s \<longleftrightarrow> config_ok (C (SafeCfg s)) \<and> store_ok (StoreOf s) \<and>
    list_all client_ok (ServerClients s) \<and> distinct (map ClientName (ServerClients s)) \<and>
    (\<forall>coll. ServerCollector s = Some coll \<longrightarrow> Clients coll = ServerClients s) \<and>
    (LoopStarted s \<longrightarrow> ServerCollector s \<noteq> None)"

lemma server_ok_New: "config_ok (C sc) \<Longrightarrow> server_ok (NewServer sc path)"
  by (simp add: server_ok_def NewServer_def NewSnapshotStore_ok)

lemma CollectOnce_Some:
  "CollectOnce \<rho> ops now c st h = Some (snap, c', st', h') \<longleftrightarrow>
    (\<exists>cs. collectAll \<rho> ops now (Clients c) = Some (snap, cs) \<and> c' = c\<lparr>Clients := cs\<rparr> \<and>
      st' = StoreSnapshot snap st \<and> h' = runOnCycle c' st' h)"
  by (auto simp: CollectOnce_def bind_eq_Some_conv Let_def)

lemma cycle_clients:
  assumes "collectAll (w_order w) (world_ops w) now cs = Some (snap, cs')" and "list_all client_ok cs"
  shows "list_all client_ok cs'" and "map ClientName cs' = map ClientName cs"
proof -
  note all = assms(1) [unfolded world_ops_def]
  show "list_all client_ok cs'" using capped.collectAll_keeps(2) [OF all] assms(2) by simp
  show "map ClientName cs' = map ClientName cs" using capped.collectAll_keeps(1) [OF all] by simp
qed

lemma startCollection_ok:
  assumes "world_ok w" and "server_ok s" and "config_ok cfg" and "startCollection w cfg s = Some (s', err)"
  shows "server_ok s'"
proof (cases "buildClients w cfg")
  case (Inl e)
  with assms show ?thesis by (simp add: startCollection_def)
next
  case (Inr cs)
  with assms(4) obtain snap coll st h where
    co: "CollectOnce (w_order w) (world_ops w) (w_now w)
      (NewCollector cs (GetCollectionInterval cfg) (GetCollectionTimeout cfg) (TracerProv s)) (StoreOf s) (OtlpOf s) =
      Some (snap, coll, st, h)"
    and s': "s' = s\<lparr>StoreOf := st, OtlpOf := h, ServerClients := Clients coll, ServerCollector := Some coll,
      LoopStarted := \<not> w_once w\<rparr>"
    by (auto simp: startCollection_def bind_eq_Some_conv)
  from co obtain cs' where all: "collectAll (w_order w) (world_ops w) (w_now w) cs = Some (snap, cs')"
    and coll: "Clients coll = cs'" and st: "st = StoreSnapshot snap (StoreOf s)"
    by (auto simp: CollectOnce_Some NewCollector_def)
  note ok = buildClients_ok [OF Inr assms(3)]
  with cycle_clients [OF all] cycle_store_ok [OF assms(1) all] assms(2) show ?thesis
    by (simp add: server_ok_def s' coll st)
qed

lemma tick_ok:
  assumes "world_ok w" and "server_ok s" and "tick w s = Some s'"
  shows "server_ok s'"
proof (cases "ServerCollector s")
  case None
  with assms show ?thesis by (simp add: tick_def)
next
  case (Some coll)
  with assms(3) obtain snap coll' st h where
    co: "CollectOnce (w_order w) (world_ops w) (w_now w) coll (StoreOf s) (OtlpOf s) = Some (snap, coll', st, h)"
    and s': "s' = s\<lparr>StoreOf := st, OtlpOf := h, ServerClients := Clients coll', ServerCollector := Some coll'\<rparr>"
    by (auto simp: tick_def bind_eq_Some_conv)
  from Some assms(2) have cl: "Clients coll = ServerClients s" and ok: "list_all client_ok (ServerClients s)"
    by (auto simp: server_ok_def)
  from co cl obtain cs' where all: "collectAll (w_order w) (world_ops w) (w_now w) (ServerClients s) = Some (snap, cs')"
    and coll: "Clients coll' = cs'" and st: "st = StoreSnapshot snap (StoreOf s)"
    by (auto simp: CollectOnce_Some)
  from cycle_clients [OF all ok] cycle_store_ok [OF assms(1) all] assms(2) show ?thesis
    by (simp add: server_ok_def s' coll st)
qed

lemma ReloadConfig_cases:
  obtains (fail) e where "load_config (w_files w) (SafeCfg s) path = Inl e" "ReloadConfig w path s = (s, Some e)"
  | (same) cfg where "load_config (w_files w) (SafeCfg s) path = Inr cfg"
      "ArrayName ` set (Arrays (C (SafeCfg s))) = ArrayName ` set (Arrays cfg)"
      "ReloadConfig w path s = (s\<lparr>SafeCfg := (SafeCfg s)\<lparr>C := cfg\<rparr>\<rparr>, None)"
  | (stuck) cfg e where "load_config (w_files w) (SafeCfg s) path = Inr cfg"
      "ArrayName ` set (Arrays (C (SafeCfg s))) \<noteq> ArrayName ` set (Arrays cfg)" "buildClients w cfg = Inl e"
      "ReloadConfig w path s = (s\<lparr>SafeCfg := (SafeCfg s)\<lparr>C := cfg\<rparr>\<rparr>,
        Some (Wrap ''failed to rebuild clients after reload'' e))"
  | (rebuilt) cfg cs where "load_config (w_files w) (SafeCfg s) path = Inr cfg"
      "ArrayName ` set (Arrays (C (SafeCfg s))) \<noteq> ArrayName ` set (Arrays cfg)" "buildClients w cfg = Inr cs"
      "ReloadConfig w path s = (s\<lparr>SafeCfg := (SafeCfg s)\<lparr>C := cfg\<rparr>, ServerClients := cs,
         ServerCollector := map_option (SetClients cs) (ServerCollector s),
         OtlpOf := refresh_hook w (StoreOf s) (OtlpOf s)\<rparr>, None)"
proof (cases "load_config (w_files w) (SafeCfg s) path")
  case (Inl e)
  then have "ReloadConfig w path s = (s, Some e)" by (simp add: ReloadConfig_def ReloadSafeConfig_def)
  with Inl show ?thesis by (rule fail)
next
  case (Inr cfg)
  have r: "ReloadSafeConfig (w_files w) (SafeCfg s) path =
      ((SafeCfg s)\<lparr>C := cfg\<rparr>, Inr (ArrayName ` set (Arrays (C (SafeCfg s))) \<noteq> ArrayName ` set (Arrays cfg)))"
    by (simp add: ReloadSafeConfig_def Let_def Inr names_changed)
  show ?thesis
  proof (cases "ArrayName ` set (Arrays (C (SafeCfg s))) = ArrayName ` set (Arrays cfg)")
    case True
    with r have "ReloadConfig w path s = (s\<lparr>SafeCfg := (SafeCfg s)\<lparr>C := cfg\<rparr>\<rparr>, None)"
      by (simp add: ReloadConfig_def)
    with Inr True show ?thesis by (rule same)
  next
    case False
    show ?thesis
    proof (cases "buildClients w cfg")
      case (Inl e)
      with r False have "ReloadConfig w path s = (s\<lparr>SafeCfg := (SafeCfg s)\<lparr>C := cfg\<rparr>\<rparr>,
        Some (Wrap ''failed to rebuild clients after reload'' e))"
        by (simp add: ReloadConfig_def GetConfig_def)
      with Inr False Inl show ?thesis by (rule stuck)
    next
      case cs: (Inr cs)
      with r False have "ReloadConfig w path s = (s\<lparr>SafeCfg := (SafeCfg s)\<lparr>C := cfg\<rparr>, ServerClients := cs,
         ServerCollector := map_option (SetClients cs) (ServerCollector s),
         OtlpOf := refresh_hook w (StoreOf s) (OtlpOf s)\<rparr>, None)"
        by (simp add: ReloadConfig_def GetConfig_def)
      with Inr False cs show ?thesis by (rule rebuilt)
    qed
  qed
qed

lemma ReloadConfig_ok:
  assumes "server_ok s" and "ReloadConfig w path s = (s', err)"
  shows "server_ok s'"
proof (cases rule: ReloadConfig_cases [of w s path])
  case fail
  with assms show ?thesis by simp
next
  case same
  with assms load_config_ok show ?thesis by (auto simp: server_ok_def)
next
  case stuck
  with assms load_config_ok show ?thesis by (auto simp: server_ok_def)
next
  case (rebuilt cfg cs)
  note cfg = load_config_ok [OF rebuilt(1)]
  show ?thesis
    using assms rebuilt(4) buildClients_ok [OF rebuilt(3) cfg] cfg
    by (auto simp: server_ok_def SetClients_def)
qed

lemma stopCollection_ok: "server_ok s \<Longrightarrow> server_ok (stopCollection s)"
  by (simp add: server_ok_def stopCollection_def)

lemma initOTLP_ok: "server_ok s \<Longrightarrow> server_ok (fst (initOTLP w cfg s))"
  by (auto simp: initOTLP_def server_ok_def SetOnCycle_def split: option.split sum.split prod.split)

subsection \<open>Histories\<close>

text \<open>What can happen to a server after another, in any order, each time in a world of its own.\<close>

datatype action = Boot world | Cycle world | Reload world string | Stop

fun act :: "action \<Rightarrow> server \<Rightarrow> server option" where
  "act (Boot w) s = startBackground w (C (SafeCfg s)) s"
| "act (Cycle w) s = tick w s"
| "act (Reload w path) s = Some (fst (ReloadConfig w path s))"
| "act Stop s = Some (stopCollection s)"

fun action_ok :: "action \<Rightarrow> bool" where
  "action_ok (Boot w) = world_ok w"
| "action_ok (Cycle w) = world_ok w"
| "action_ok (Reload w path) = world_ok w"
| "action_ok Stop = True"

fun run_actions :: "action list \<Rightarrow> server \<Rightarrow> server option" where
  "run_actions [] s = Some s"
| "run_actions (a # as) s = Option.bind (act a s) (run_actions as)"

lemma act_ok:
  assumes "server_ok s" and "action_ok a" and "act a s = Some s'"
  shows "server_ok s'"
proof (cases a)
  case (Boot w)
  with assms obtain s1 err where s1: "startCollection w (C (SafeCfg s)) s = Some (s1, err)"
    and s': "s' = (if err = None \<and> \<not> w_once w then fst (initOTLP w (C (SafeCfg s)) s1) else s1)"
    by (auto simp: startBackground_def bind_eq_Some_conv)
  have "server_ok s1"
    by (rule startCollection_ok [OF _ _ _ s1]) (use assms Boot in \<open>auto simp: server_ok_def\<close>)
  with s' initOTLP_ok show ?thesis by simp
next
  case (Cycle w)
  with assms tick_ok show ?thesis by auto
next
  case (Reload w path)
  with assms(3) show ?thesis
    using ReloadConfig_ok [OF assms(1), of w path] by (cases "ReloadConfig w path s") auto
next
  case Stop
  with assms stopCollection_ok show ?thesis by auto
qed

lemma run_actions_ok:
  "server_ok s \<Longrightarrow> list_all action_ok as \<Longrightarrow> run_actions as s = Some s' \<Longrightarrow> server_ok s'"
  by (induction as arbitrary: s) (auto simp: bind_eq_Some_conv intro: act_ok)

subsection \<open>Scrapes\<close>

lemma scrape_distinct:
  "store_ok st \<Longrightarrow> range_order \<rho> \<Longrightarrow> Collect \<rho> accepts st = Some ms \<Longrightarrow> distinct (map series ms)"
  by (rule Collect_series_distinct) (auto simp: store_ok_def)

lemma scrape_sample:
  assumes "store_ok st" and "m \<in> set (emit_name accepts (LoadSnapshot st) n)"
  shows "\<exists>s \<in> set (SamplesByName (LoadSnapshot st) n). MetricName m = Name s \<and> MetricValue m = Value s \<and>
    zip (LabelNames m) (LabelValues m) = map (\<lambda>l. (LName l, LValue l)) (Labels s)"
  using emit_name_sample [OF assms(2)] assms(1) by (fastforce simp: store_ok_def)

definition is_health :: "prom_metric \<Rightarrow> bool" where
  "is_health m \<longleftrightarrow> MetricName m \<in> {up_name, last_scrape_name, bulk_api_name}"

lemma Collect_parts:
  assumes "Collect \<rho> accepts st = Some ms"
  obtains hs where "those (concat (map (\<lambda>(name, as). health_metrics accepts name as)
      (amap_range \<rho> (PerArray (LoadSnapshot st))))) = Some hs"
    and "ms = hs @ concat (map (emit_name accepts (LoadSnapshot st)) (MetricNames (LoadSnapshot st)))"
  using assms by (auto simp: Collect_def Let_def)

lemma scrape_from_sample:
  assumes "store_ok st" and "range_order \<rho>" and "Collect \<rho> accepts st = Some ms"
    and "m \<in> set ms" and "\<not> is_health m"
  shows "\<exists>s \<in> set (SamplesByName (LoadSnapshot st) (MetricName m)). MetricValue m = Value s \<and>
    zip (LabelNames m) (LabelValues m) = map (\<lambda>l. (LName l, LValue l)) (Labels s)"
proof -
  let ?snap = "LoadSnapshot st"
  obtain hs where hs: "those (concat (map (\<lambda>(name, as). health_metrics accepts name as)
      (amap_range \<rho> (PerArray ?snap)))) = Some hs"
    and ms: "ms = hs @ concat (map (emit_name accepts ?snap) (MetricNames ?snap))"
    using assms(3) by (rule Collect_parts)
  have "amap_ok (PerArray ?snap)" using assms(1) by (simp add: store_ok_def)
  from health_distinct [OF amap_range_distinct [OF assms(2) this] hs] assms(4,5) ms
  obtain n where n: "m \<in> set (emit_name accepts ?snap n)" by (auto simp: is_health_def)
  with emit_name_series have "MetricName m = n" by blast
  with scrape_sample [OF assms(1) n] show ?thesis by auto
qed

lemma those_member: "those xs = Some ys \<Longrightarrow> Some y \<in> set xs \<Longrightarrow> y \<in> set ys"
  by (induction xs arbitrary: ys) (auto split: option.splits)

lemma those_all: "those xs = Some ys \<Longrightarrow> x \<in> set xs \<Longrightarrow> \<exists>y \<in> set ys. x = Some y"
  by (induction xs arbitrary: ys) (auto split: option.splits)

lemma those_source: "those xs = Some ys \<Longrightarrow> y \<in> set ys \<Longrightarrow> Some y \<in> set xs"
  by (induction xs arbitrary: ys) (auto split: option.splits)

lemma health_entry:
  assumes "amap_ok (PerArray (LoadSnapshot st))" and "range_order \<rho>" and "Collect \<rho> accepts st = Some ms"
    and "amap_get (PerArray (LoadSnapshot st)) a = Some as" and "x \<in> set (health_metrics accepts a as)"
  shows "\<exists>m \<in> set ms. x = Some m"
proof -
  obtain hs where hs: "those (concat (map (\<lambda>(name, as). health_metrics accepts name as)
      (amap_range \<rho> (PerArray (LoadSnapshot st))))) = Some hs"
    and ms: "set hs \<subseteq> set ms"
    using Collect_parts [OF assms(3)] by (metis Un_upper1 set_append)
  have "(a, as) \<in> set (amap_range \<rho> (PerArray (LoadSnapshot st)))"
    using assms(4) by (simp add: amap_range_set [OF assms(2,1)] amap_get_mem [OF assms(1)])
  with assms(5) have "x \<in> set (concat (map (\<lambda>(name, as). health_metrics accepts name as)
      (amap_range \<rho> (PerArray (LoadSnapshot st)))))" by force
  from those_all [OF hs this] ms show ?thesis by blast
qed

lemma health_emitted:
  assumes "amap_ok (PerArray (LoadSnapshot st))" and "range_order \<rho>" and "Collect \<rho> accepts st = Some ms"
    and "amap_get (PerArray (LoadSnapshot st)) a = Some as"
    and "NewConstMetric accepts n ls v vs \<in> set (health_metrics accepts a as)"
  shows "\<lparr>MetricName = n, LabelNames = ls, LabelValues = vs, MetricValue = v\<rparr> \<in> set ms"
  using health_entry [OF assms] by (auto simp: NewConstMetric_def split: if_splits)

text \<open>A scrape has no other health metrics: one that is labelled \<open>a\<close> comes from the entry of \<open>a\<close>.\<close>

lemma health_only:
  assumes "store_ok st" and "range_order \<rho>" and "Collect \<rho> accepts st = Some ms"
    and "amap_get (PerArray (LoadSnapshot st)) a = Some as"
    and "m \<in> set ms" "is_health m" "LabelValues m = [a]"
  shows "Some m \<in> set (health_metrics accepts a as)"
proof -
  let ?snap = "LoadSnapshot st"
  obtain hs where hs: "those (concat (map (\<lambda>(name, as). health_metrics accepts name as)
      (amap_range \<rho> (PerArray ?snap)))) = Some hs"
    and ms: "ms = hs @ concat (map (emit_name accepts ?snap) (MetricNames ?snap))"
    using assms(3) by (rule Collect_parts)
  have ok: "amap_ok (PerArray ?snap)" using assms(1) by (simp add: store_ok_def)
  have "m \<notin> set (concat (map (emit_name accepts ?snap) (MetricNames ?snap)))"
  proof
    assume "m \<in> set (concat (map (emit_name accepts ?snap) (MetricNames ?snap)))"
    from emit_names_names [OF this] assms(1) have "metric_schema (MetricName m) \<noteq> None" by (auto simp: store_ok_def)
    with assms(6) show False using health_names_reserved by (auto simp: is_health_def)
  qed
  with assms(5) ms have "m \<in> set hs" by simp
  with those_source [OF hs] obtain n as' where n: "(n, as') \<in> set (amap_range \<rho> (PerArray ?snap))"
    "Some m \<in> set (health_metrics accepts n as')"
    by fastforce
  then have "LabelValues m = [n]" by (auto simp: health_metrics_def NewConstMetric_def split: if_splits bool.splits option.splits)
  with assms(7) n(1) have "amap_get (PerArray ?snap) a = Some as'"
    by (simp add: amap_range_set [OF assms(2) ok] amap_get_mem [OF ok])
  with assms(4,7) n(2) \<open>LabelValues m = [n]\<close> show ?thesis by simp
qed

lemma health_metrics_mem:
  "Some m \<in> set (health_metrics accepts a as) \<Longrightarrow> MetricName m = up_name \<Longrightarrow>
    m = \<lparr>MetricName = up_name, LabelNames = [''array''], LabelValues = [a], MetricValue = b2f (Up as)\<rparr>"
  "Some m \<in> set (health_metrics accepts a as) \<Longrightarrow> MetricName m = bulk_api_name \<Longrightarrow>
    m = \<lparr>MetricName = bulk_api_name, LabelNames = [''array''], LabelValues = [a], MetricValue = b2f (IsBulkCapable as)\<rparr>"
  "Some m \<in> set (health_metrics accepts a as) \<Longrightarrow> MetricName m = last_scrape_name \<Longrightarrow>
    \<exists>t. Up as \<and> LastScrape as = Some t \<and>
      m = \<lparr>MetricName = last_scrape_name, LabelNames = [''array''], LabelValues = [a], MetricValue = of_int64 t\<rparr>"
  by (auto simp: health_metrics_def NewConstMetric_def up_name_def bulk_api_name_def last_scrape_name_def
      split: if_splits bool.splits option.splits dest: sym)

lemma health_exact:
  assumes "store_ok st" and "range_order \<rho>" and "Collect \<rho> accepts st = Some ms"
    and "amap_get (PerArray (LoadSnapshot st)) a = Some as"
  shows "m \<in> set ms \<and> MetricName m = up_name \<and> LabelValues m = [a] \<longleftrightarrow>
      m = \<lparr>MetricName = up_name, LabelNames = [''array''], LabelValues = [a], MetricValue = b2f (Up as)\<rparr>"
    and "m \<in> set ms \<and> MetricName m = bulk_api_name \<and> LabelValues m = [a] \<longleftrightarrow>
      m = \<lparr>MetricName = bulk_api_name, LabelNames = [''array''], LabelValues = [a], MetricValue = b2f (IsBulkCapable as)\<rparr>"
    and "m \<in> set ms \<and> MetricName m = last_scrape_name \<and> LabelValues m = [a] \<longleftrightarrow>
      (\<exists>t. Up as \<and> LastScrape as = Some t \<and>
        m = \<lparr>MetricName = last_scrape_name, LabelNames = [''array''], LabelValues = [a], MetricValue = of_int64 t\<rparr>)"
proof -
  have ok: "amap_ok (PerArray (LoadSnapshot st))" using assms(1) by (simp add: store_ok_def)
  note emitted = health_emitted [OF ok assms(2-4)]
  have emits: "NewConstMetric accepts up_name [''array''] (b2f (Up as)) [a] \<in> set (health_metrics accepts a as)"
    "NewConstMetric accepts bulk_api_name [''array''] (b2f (IsBulkCapable as)) [a] \<in> set (health_metrics accepts a as)"
    "Up as \<Longrightarrow> LastScrape as = Some t \<Longrightarrow>
      NewConstMetric accepts last_scrape_name [''array''] (of_int64 t) [a] \<in> set (health_metrics accepts a as)" for t
    by (simp_all add: health_metrics_def)
  have only: "Some m \<in> set (health_metrics accepts a as)" if "m \<in> set ms" "is_health m" "LabelValues m = [a]"
    using health_only [OF assms that] .
  show "m \<in> set ms \<and> MetricName m = up_name \<and> LabelValues m = [a] \<longleftrightarrow>
      m = \<lparr>MetricName = up_name, LabelNames = [''array''], LabelValues = [a], MetricValue = b2f (Up as)\<rparr>"
    using only health_metrics_mem(1) [of m accepts a as] emitted [OF emits(1)] by (auto simp: is_health_def)
  show "m \<in> set ms \<and> MetricName m = bulk_api_name \<and> LabelValues m = [a] \<longleftrightarrow>
      m = \<lparr>MetricName = bulk_api_name, LabelNames = [''array''], LabelValues = [a], MetricValue = b2f (IsBulkCapable as)\<rparr>"
    using only health_metrics_mem(2) [of m accepts a as] emitted [OF emits(2)] by (auto simp: is_health_def)
  show "m \<in> set ms \<and> MetricName m = last_scrape_name \<and> LabelValues m = [a] \<longleftrightarrow>
      (\<exists>t. Up as \<and> LastScrape as = Some t \<and>
        m = \<lparr>MetricName = last_scrape_name, LabelNames = [''array''], LabelValues = [a], MetricValue = of_int64 t\<rparr>)"
    using only health_metrics_mem(3) [of m accepts a as] emitted [OF emits(3)] by (auto simp: is_health_def)
qed

subsection \<open>The start-up\<close>

lemma started_collector:
  assumes "startCollection w cfg s = Some (s', None)"
  shows "\<exists>coll. ServerCollector s' = Some coll \<and> Interval coll = GetCollectionInterval cfg \<and> LoopStarted s' = (\<not> w_once w)"
  using assms by (auto simp: startCollection_def bind_eq_Some_conv CollectOnce_Some NewCollector_def split: sum.splits)

lemma initOTLP_collector:
  "map_option Interval (ServerCollector (fst (initOTLP w cfg s))) = map_option Interval (ServerCollector s)"
  "LoopStarted (fst (initOTLP w cfg s)) = LoopStarted s"
  by (simp_all add: initOTLP_def SetOnCycle_def option.map_comp comp_def split: option.split sum.split prod.split)

text \<open>The arrays of the first snapshot are the configured ones whose client could be built.\<close>

lemma started_fleet:
  assumes "startCollection w cfg s = Some (s', None)"
  shows "set (amap_keys (PerArray (LoadSnapshot (StoreOf s')))) = ArrayName ` {a \<in> set (Arrays cfg). login_ok w a}"
    and "map ClientName (ServerClients s') = map ArrayName (filter (login_ok w) (Arrays cfg))"
    and "\<exists>coll. ServerCollector s' = Some coll \<and> Clients coll = ServerClients s'"
proof -
  from assms obtain cs where cs: "buildClients w cfg = Inr cs"
    by (auto simp: startCollection_def split: sum.splits)
  with assms obtain snap coll st h where
    co: "CollectOnce (w_order w) (world_ops w) (w_now w)
      (NewCollector cs (GetCollectionInterval cfg) (GetCollectionTimeout cfg) (TracerProv s)) (StoreOf s) (OtlpOf s) =
      Some (snap, coll, st, h)"
    and s': "s' = s\<lparr>StoreOf := st, OtlpOf := h, ServerClients := Clients coll, ServerCollector := Some coll,
      LoopStarted := \<not> w_once w\<rparr>"
    by (auto simp: startCollection_def bind_eq_Some_conv)
  from co obtain cs' where all: "collectAll (w_order w) (world_ops w) (w_now w) cs = Some (snap, cs')"
    and coll: "Clients coll = cs'" and st: "st = StoreSnapshot snap (StoreOf s)"
    by (auto simp: CollectOnce_Some NewCollector_def)
  note names = buildClients_names [OF cs]
  have "set (amap_keys (PerArray snap)) = ClientName ` set cs"
    using ac.cycle_names [OF all [unfolded world_ops_def]] by simp
  also have "\<dots> = ArrayName ` {a \<in> set (Arrays cfg). login_ok w a}"
    using arg_cong [OF names, of set] by simp
  finally show "set (amap_keys (PerArray (LoadSnapshot (StoreOf s')))) = ArrayName ` {a \<in> set (Arrays cfg). login_ok w a}"
    by (simp add: s' st snap_store.load_publish)
  show "map ClientName (ServerClients s') = map ArrayName (filter (login_ok w) (Arrays cfg))"
    and "\<exists>coll. ServerCollector s' = Some coll \<and> Clients coll = ServerClients s'"
    using ac.collectAll_keeps(1) [OF all [unfolded world_ops_def]] names by (simp_all add: s' coll)
qed

lemma start_fails: "startCollection w cfg s = Some (s', Some e) \<Longrightarrow> \<forall>a \<in> set (Arrays cfg). \<not> login_ok w a"
  using buildClients_fails [of w cfg] by (auto simp: startCollection_def bind_eq_Some_conv split: sum.splits)

lemma start_succeeds: "startCollection w cfg s = Some (s', None) \<Longrightarrow> \<exists>a \<in> set (Arrays cfg). login_ok w a"
  using buildClients_fails [of w cfg] by (auto simp: startCollection_def split: sum.splits)

end
