(* ===== verification/Races.thy ===== *)
theory Races
  imports ServerFacts
begin

text \<open>
  The goroutines of \<open>main.go\<close> that touch the client pool: the start-up goroutine
  (\<open>startCollection\<close>) and the reloads, which run in the goroutine of the SIGHUP handler and in that
  of the file watcher. Each method is cut at its lock sections; a step is one section of one
  goroutine, so the step relation has every interleaving. A client is abstract here; \<open>build\<close> is
  \<open>buildClients\<close> in the world of the run.

  Lemmas: as long as reloads start after the start-up and one at a time, the collector polls
  the pool of the server, which is the pool of the current configuration. Without that, a
  reload during the start-up is lost, and two overlapping reloads can leave the collector
  polling another pool than the server holds.
\<close>

definition array_names :: "config \<Rightarrow> string set" where
  "array_names c = ArrayName ` set (Arrays c)"

datatype 'c boot_pc = BootBuild config | BootCollect "'c list" | BootDone | BootFailed

datatype 'c reload_pc = Idle | Loaded config "string set" | Swapped | Built "'c list" | Installed "'c list" bool

record 'c race =
  RCfg :: config
  RPool :: "'c list"
  RColl :: "'c list option"
  RBoot :: "'c boot_pc"
  RReload :: "nat \<Rightarrow> 'c reload_pc"

definition race_start :: "config \<Rightarrow> 'c race" where
  "race_start cfg = \<lparr>RCfg = cfg, RPool = [], RColl = None, RBoot = BootBuild cfg, RReload = (\<lambda>_. Idle)\<rparr>"

inductive race_step :: "(config \<Rightarrow> err + 'c list) \<Rightarrow> 'c race \<Rightarrow> 'c race \<Rightarrow> bool"
  for build :: "config \<Rightarrow> err + 'c list"
where
  boot_build: "RBoot s = BootBuild c \<Longrightarrow> build c = Inr p \<Longrightarrow>
    race_step build s (s\<lparr>RBoot := BootCollect p\<rparr>)"
| boot_fail: "RBoot s = BootBuild c \<Longrightarrow> build c = Inl e \<Longrightarrow>
    race_step build s (s\<lparr>RBoot := BootFailed\<rparr>)"
| boot_install: "RBoot s = BootCollect p \<Longrightarrow>
    race_step build s (s\<lparr>RPool := p, RColl := Some p, RBoot := BootDone\<rparr>)"
| reload_load: "RReload s i = Idle \<Longrightarrow> config_ok cfg \<Longrightarrow>
    race_step build s (s\<lparr>RReload := (RReload s)(i := Loaded cfg (array_names (RCfg s)))\<rparr>)"
| reload_swap: "RReload s i = Loaded cfg old \<Longrightarrow>
    race_step build s (s\<lparr>RCfg := cfg, RReload := (RReload s)(i := if old = array_names cfg then Idle else Swapped)\<rparr>)"
| reload_build: "RReload s i = Swapped \<Longrightarrow> build (RCfg s) = Inr p \<Longrightarrow>
    race_step build s (s\<lparr>RReload := (RReload s)(i := Built p)\<rparr>)"
| reload_stuck: "RReload s i = Swapped \<Longrightarrow> build (RCfg s) = Inl e \<Longrightarrow>
    race_step build s (s\<lparr>RReload := (RReload s)(i := Idle)\<rparr>)"
| reload_install: "RReload s i = Built p \<Longrightarrow>
    race_step build s (s\<lparr>RPool := p, RReload := (RReload s)(i := Installed p (RColl s \<noteq> None))\<rparr>)"
| reload_publish: "RReload s i = Installed p has \<Longrightarrow>
    race_step build s (s\<lparr>RColl := if has then Some p else RColl s, RReload := (RReload s)(i := Idle)\<rparr>)"

inductive_cases race_stepE: "race_step build s t"

text \<open>
  The same steps as a function of an event, so that a run is evaluated from the list of its events: the
  next section of the start-up, a reload that has loaded a file, the next section of a reload.
\<close>

datatype race_event = BootEvent | LoadEvent nat config | ReloadEvent nat

fun race_do :: "(config \<Rightarrow> err + 'c list) \<Rightarrow> race_event \<Rightarrow> 'c race \<Rightarrow> 'c race option" where
  "race_do build BootEvent s =
    (case RBoot s of
       BootBuild c \<Rightarrow> Some (s\<lparr>RBoot := (case build c of Inl e \<Rightarrow> BootFailed | Inr p \<Rightarrow> BootCollect p)\<rparr>)
     | BootCollect p \<Rightarrow> Some (s\<lparr>RPool := p, RColl := Some p, RBoot := BootDone\<rparr>)
     | _ \<Rightarrow> None)"
| "race_do build (LoadEvent i cfg) s =
    (case RReload s i of
       Idle \<Rightarrow> if config_ok cfg then Some (s\<lparr>RReload := (RReload s)(i := Loaded cfg (array_names (RCfg s)))\<rparr>) else None
     | _ \<Rightarrow> None)"
| "race_do build (ReloadEvent i) s =
    (case RReload s i of
       Idle \<Rightarrow> None
     | Loaded cfg old \<Rightarrow>
         Some (s\<lparr>RCfg := cfg, RReload := (RReload s)(i := if old = array_names cfg then Idle else Swapped)\<rparr>)
     | Swapped \<Rightarrow> Some (s\<lparr>RReload := (RReload s)(i := case build (RCfg s) of Inl e \<Rightarrow> Idle | Inr p \<Rightarrow> Built p)\<rparr>)
     | Built p \<Rightarrow> Some (s\<lparr>RPool := p, RReload := (RReload s)(i := Installed p (RColl s \<noteq> None))\<rparr>)
     | Installed p has \<Rightarrow> Some (s\<lparr>RColl := if has then Some p else RColl s, RReload := (RReload s)(i := Idle)\<rparr>))"

lemma race_do_step:
  assumes "race_do build e s = Some t"
  shows "race_step build s t"
proof (cases e)
  case BootEvent
  with assms show ?thesis
    by (auto split: boot_pc.splits sum.splits intro: boot_build boot_fail boot_install)
next
  case (LoadEvent i cfg)
  with assms show ?thesis by (auto split: reload_pc.splits if_splits intro: reload_load)
next
  case (ReloadEvent i)
  show ?thesis
  proof (cases "RReload s i")
    case Idle
    with assms ReloadEvent show ?thesis by simp
  next
    case (Loaded cfg old)
    from reload_swap [OF this, of build] assms ReloadEvent Loaded show ?thesis by simp
  next
    case Swapped
    with assms ReloadEvent show ?thesis by (auto split: sum.splits intro: reload_build reload_stuck)
  next
    case (Built p)
    from reload_install [OF this, of build] assms ReloadEvent Built show ?thesis by simp
  next
    case (Installed p has)
    from reload_publish [OF this, of build] assms ReloadEvent Installed show ?thesis by simp
  qed
qed

lemma race_step_do: "race_step build s t \<Longrightarrow> \<exists>e. race_do build e s = Some t"
proof (induction rule: race_step.induct)
  case (boot_build s c p)
  then show ?case by (intro exI [of _ BootEvent]) simp
next
  case (boot_fail s c e)
  then show ?case by (intro exI [of _ BootEvent]) simp
next
  case (boot_install s p)
  then show ?case by (intro exI [of _ BootEvent]) simp
next
  case (reload_load s i cfg)
  then show ?case by (intro exI [of _ "LoadEvent i cfg"]) simp
next
  case (reload_swap s i cfg old)
  then show ?case by (intro exI [of _ "ReloadEvent i"]) simp
next
  case (reload_build s i p)
  then show ?case by (intro exI [of _ "ReloadEvent i"]) simp
next
  case (reload_stuck s i e)
  then show ?case by (intro exI [of _ "ReloadEvent i"]) simp
next
  case (reload_install s i p)
  then show ?case by (intro exI [of _ "ReloadEvent i"]) simp
next
  case (reload_publish s i p has)
  then show ?case by (intro exI [of _ "ReloadEvent i"]) simp
qed

lemma race_runs: "run_events (race_do build) es s = Some t \<Longrightarrow> (race_step build)\<^sup>*\<^sup>* s t"
  by (rule run_events_steps) (rule race_do_step)

definition quiet :: "'c race \<Rightarrow> bool" where
  "quiet s \<longleftrightarrow> RBoot s = BootDone \<and> (\<forall>i. RReload s i = Idle)"

subsection \<open>What every interleaving keeps\<close>

definition from_valid :: "(config \<Rightarrow> err + 'c list) \<Rightarrow> 'c list \<Rightarrow> bool" where
  "from_valid build p \<longleftrightarrow> (\<exists>c. config_ok c \<and> build c = Inr p)"

definition pc_ok :: "(config \<Rightarrow> err + 'c list) \<Rightarrow> bool \<Rightarrow> 'c reload_pc \<Rightarrow> bool" where
  "pc_ok build running pc = (case pc of
     Loaded cfg old \<Rightarrow> config_ok cfg
   | Built p \<Rightarrow> from_valid build p
   | Installed p has \<Rightarrow> from_valid build p \<and> (has \<longrightarrow> running)
   | _ \<Rightarrow> True)"

lemma pc_ok_simps [simp]:
  "pc_ok build r Idle" "pc_ok build r Swapped" "pc_ok build r (Loaded cfg old) \<longleftrightarrow> config_ok cfg"
  "pc_ok build r (Built p) \<longleftrightarrow> from_valid build p"
  "pc_ok build r (Installed p has) \<longleftrightarrow> from_valid build p \<and> (has \<longrightarrow> r)"
  by (simp_all add: pc_ok_def)

definition race_inv :: "(config \<Rightarrow> err + 'c list) \<Rightarrow> 'c race \<Rightarrow> bool" where
  "race_inv build s \<longleftrightarrow> config_ok (RCfg s) \<and>
    (case RBoot s of BootBuild c \<Rightarrow> config_ok c | BootCollect p \<Rightarrow> from_valid build p | _ \<Rightarrow> True) \<and>
    (RBoot s = BootDone \<longleftrightarrow> RColl s \<noteq> None) \<and>
    (\<forall>p. RColl s = Some p \<longrightarrow> from_valid build p) \<and>
    (RPool s \<noteq> [] \<longrightarrow> from_valid build (RPool s)) \<and>
    (\<forall>i. pc_ok build (RColl s \<noteq> None) (RReload s i))"

lemma from_validI: "config_ok c \<Longrightarrow> build c = Inr p \<Longrightarrow> from_valid build p"
  by (auto simp: from_valid_def)

lemma race_inv_start: "config_ok cfg \<Longrightarrow> race_inv build (race_start cfg)"
  by (simp add: race_inv_def race_start_def)

lemma race_inv_pc: "race_inv build s \<Longrightarrow> RReload s i = pc \<Longrightarrow> pc_ok build (RColl s \<noteq> None) pc"
  by (auto simp: race_inv_def)

lemma race_inv_step:
  assumes step: "race_step build s t" and inv: "race_inv build s"
  shows "race_inv build t"
  using step
proof (cases rule: race_step.cases)
  case (boot_install p)
  have "pc_ok build True pc" if "pc_ok build False pc" for pc
    using that by (auto simp: pc_ok_def split: reload_pc.splits)
  with inv boot_install show ?thesis by (auto simp: race_inv_def)
next
  case (reload_swap i cfg old)
  from race_inv_pc [OF inv reload_swap(2)] inv reload_swap show ?thesis
    by (auto simp: race_inv_def)
next
  case (reload_install i p)
  from race_inv_pc [OF inv reload_install(2)] inv reload_install show ?thesis
    by (auto simp: race_inv_def)
next
  case (reload_publish i p has)
  from race_inv_pc [OF inv reload_publish(2)] have p: "from_valid build p" "has \<longrightarrow> RColl s \<noteq> None"
    by simp_all
  then have "(RColl t \<noteq> None) = (RColl s \<noteq> None)" and "pc_ok build (RColl s \<noteq> None) Idle"
    using reload_publish by auto
  with inv p reload_publish show ?thesis unfolding race_inv_def by (auto split: if_splits)
qed (use inv in \<open>auto simp: race_inv_def intro: from_validI\<close>)

lemma race_inv_reachable:
  "(race_step build)\<^sup>*\<^sup>* (race_start cfg) s \<Longrightarrow> config_ok cfg \<Longrightarrow> race_inv build s"
  by (induction rule: rtranclp_induct) (auto intro: race_inv_start race_inv_step)

subsection \<open>Reloads one at a time\<close>

text \<open>A step that starts a reload waits for the start-up and for the other reloads.\<close>

definition starts_reload :: "'c race \<Rightarrow> 'c race \<Rightarrow> bool" where
  "starts_reload s t \<longleftrightarrow> (\<exists>i cfg old. RReload s i = Idle \<and> RReload t i = Loaded cfg old)"

definition serial_step :: "(config \<Rightarrow> err + 'c list) \<Rightarrow> 'c race \<Rightarrow> 'c race \<Rightarrow> bool" where
  "serial_step build s t \<longleftrightarrow> race_step build s t \<and> (starts_reload s t \<longrightarrow> quiet s)"

text \<open>Every valid configuration can be built, into clients of exactly its arrays.\<close>

definition builds :: "(config \<Rightarrow> err + 'c list) \<Rightarrow> ('c \<Rightarrow> string) \<Rightarrow> bool" where
  "builds build nm \<longleftrightarrow> (\<forall>c. config_ok c \<longrightarrow> (\<exists>p. build c = Inr p \<and> nm ` set p = array_names c))"

definition thread_ok :: "('c \<Rightarrow> string) \<Rightarrow> 'c race \<Rightarrow> 'c reload_pc \<Rightarrow> bool" where
  "thread_ok nm s pc = (case pc of
     Idle \<Rightarrow> RColl s = Some (RPool s) \<and> nm ` set (RPool s) = array_names (RCfg s)
   | Loaded cfg old \<Rightarrow> config_ok cfg \<and> old = array_names (RCfg s) \<and> RColl s = Some (RPool s) \<and>
       nm ` set (RPool s) = array_names (RCfg s)
   | Swapped \<Rightarrow> RColl s = Some (RPool s)
   | Built p \<Rightarrow> RColl s = Some (RPool s) \<and> nm ` set p = array_names (RCfg s)
   | Installed p has \<Rightarrow> has \<and> RPool s = p \<and> nm ` set p = array_names (RCfg s) \<and> RColl s \<noteq> None)"

definition serial_inv :: "('c \<Rightarrow> string) \<Rightarrow> 'c race \<Rightarrow> bool" where
  "serial_inv nm s \<longleftrightarrow> config_ok (RCfg s) \<and>
    (case RBoot s of
       BootBuild c \<Rightarrow> c = RCfg s \<and> (\<forall>i. RReload s i = Idle)
     | BootCollect p \<Rightarrow> nm ` set p = array_names (RCfg s) \<and> (\<forall>i. RReload s i = Idle)
     | BootDone \<Rightarrow> (\<exists>i. thread_ok nm s (RReload s i) \<and> (\<forall>j. j \<noteq> i \<longrightarrow> RReload s j = Idle))
     | BootFailed \<Rightarrow> False)"

lemma serial_inv_start: "config_ok cfg \<Longrightarrow> serial_inv nm (race_start cfg)"
  by (simp add: serial_inv_def race_start_def)

lemma thread_active:
  "serial_inv nm s \<Longrightarrow> RReload s i \<noteq> Idle \<Longrightarrow>
    RBoot s = BootDone \<and> thread_ok nm s (RReload s i) \<and> (\<forall>j. j \<noteq> i \<longrightarrow> RReload s j = Idle)"
  by (auto simp: serial_inv_def split: boot_pc.splits) metis+

lemma serial_done:
  "RBoot s = BootDone \<Longrightarrow> config_ok (RCfg s) \<Longrightarrow> thread_ok nm s (RReload s i) \<Longrightarrow>
    (\<forall>j. j \<noteq> i \<longrightarrow> RReload s j = Idle) \<Longrightarrow> serial_inv nm s"
  by (auto simp: serial_inv_def)

lemma serial_inv_step:
  assumes b: "builds build nm" and "serial_step build s t" and inv: "serial_inv nm s"
  shows "serial_inv nm t"
proof -
  from assms(2) have "race_step build s t" and quiet: "starts_reload s t \<longrightarrow> quiet s"
    by (simp_all add: serial_step_def)
  then show ?thesis
  proof (cases rule: race_step.cases)
    case (boot_build c p)
    with inv b show ?thesis by (fastforce simp: serial_inv_def builds_def)
  next
    case (boot_fail c e)
    with inv b show ?thesis by (fastforce simp: serial_inv_def builds_def)
  next
    case (boot_install p)
    with inv show ?thesis by (auto simp: serial_inv_def thread_ok_def)
  next
    case (reload_load i cfg)
    then have "starts_reload s t" by (auto simp: starts_reload_def)
    with quiet have q: "RBoot s = BootDone" "\<forall>j. RReload s j = Idle" by (simp_all add: quiet_def)
    with inv have "thread_ok nm s Idle" "config_ok (RCfg s)" by (auto simp: serial_inv_def)
    with reload_load q show ?thesis
      by (intro serial_done [of _ _ i]) (auto simp: thread_ok_def)
  next
    case (reload_swap i cfg old)
    with thread_active [OF inv, of i] show ?thesis
      by (intro serial_done [of _ _ i]) (auto simp: thread_ok_def)
  next
    case (reload_build i p)
    with inv b have "nm ` set p = array_names (RCfg s)" by (force simp: serial_inv_def builds_def)
    with reload_build thread_active [OF inv, of i] inv show ?thesis
      by (intro serial_done [of _ _ i]) (auto simp: thread_ok_def serial_inv_def)
  next
    case (reload_stuck i e)
    with inv b show ?thesis by (force simp: serial_inv_def builds_def)
  next
    case (reload_install i p)
    with thread_active [OF inv, of i] inv show ?thesis
      by (intro serial_done [of _ _ i]) (auto simp: thread_ok_def serial_inv_def)
  next
    case (reload_publish i p has)
    with thread_active [OF inv, of i] inv show ?thesis
      by (intro serial_done [of _ _ i]) (auto simp: thread_ok_def serial_inv_def)
  qed
qed

lemma serial_inv_reachable:
  "(serial_step build)\<^sup>*\<^sup>* (race_start cfg) s \<Longrightarrow> builds build nm \<Longrightarrow> config_ok cfg \<Longrightarrow> serial_inv nm s"
  by (induction rule: rtranclp_induct) (auto intro: serial_inv_start serial_inv_step)

lemma serial_quiet:
  "serial_inv nm s \<Longrightarrow> quiet s \<Longrightarrow> RColl s = Some (RPool s) \<and> nm ` set (RPool s) = array_names (RCfg s)"
  by (auto simp: serial_inv_def quiet_def thread_ok_def)

subsection \<open>A reload during the start-up\<close>

definition name_pool :: "config \<Rightarrow> err + string list" where
  "name_pool c = Inr (map ArrayName (Arrays c))"

text \<open>A concrete run, evaluated from its events.\<close>

lemma race_run:
  assumes "case run_events (race_do build) es s of None \<Rightarrow> False | Some t \<Rightarrow> P t"
  shows "\<exists>t. (race_step build)\<^sup>*\<^sup>* s t \<and> P t"
proof -
  from assms obtain t where "run_events (race_do build) es s = Some t" "P t" by (auto split: option.splits)
  then show ?thesis using race_runs by blast
qed

lemmas run_simps = race_start_def name_pool_def quiet_def

text \<open>The reload swaps the configuration, finds no collector, and the start-up installs the old pool.\<close>

lemma reload_lost:
  assumes "config_ok a" and "config_ok b" and "array_names a \<noteq> array_names b"
  shows "\<exists>s. (race_step name_pool)\<^sup>*\<^sup>* (race_start a) s \<and> quiet s \<and> RCfg s = b \<and>
    RColl s = Some (map ArrayName (Arrays a)) \<and> RPool s = map ArrayName (Arrays a)"
  by (rule race_run [where es = "[BootEvent, LoadEvent 0 b, ReloadEvent 0, ReloadEvent 0, ReloadEvent 0, ReloadEvent 0,
      BootEvent]"]) (simp add: run_simps assms)

text \<open>
  Two reloads after the start-up, one in each goroutine: the pool that is installed last and the pool that
  is published last need not be the same.
\<close>

lemma reloads_overlap:
  assumes "config_ok a" "config_ok b" "config_ok c" and "array_names a \<noteq> array_names b" "array_names a \<noteq> array_names c"
  shows "\<exists>s. (race_step name_pool)\<^sup>*\<^sup>* (race_start a) s \<and> quiet s \<and> RCfg s = c \<and>
    RPool s = map ArrayName (Arrays c) \<and> RColl s = Some (map ArrayName (Arrays b))"
  by (rule race_run [where es = "[BootEvent, BootEvent, LoadEvent 0 b, LoadEvent 1 c, ReloadEvent 0, ReloadEvent 0,
      ReloadEvent 0, ReloadEvent 1, ReloadEvent 1, ReloadEvent 1, ReloadEvent 1, ReloadEvent 0]"])
    (simp add: run_simps assms)

text \<open>
  The names are compared with those of the configuration at the time of the load, not of the swap: a second
  reload that restores the old file meanwhile finds no change, although the pool is being replaced.
\<close>

lemma stale_comparison:
  assumes "config_ok a" "config_ok b" and "array_names a \<noteq> array_names b"
  shows "\<exists>s. (race_step name_pool)\<^sup>*\<^sup>* (race_start a) s \<and> quiet s \<and> RCfg s = a \<and>
    RPool s = map ArrayName (Arrays b) \<and> RColl s = Some (map ArrayName (Arrays b))"
  by (rule race_run [where es = "[BootEvent, BootEvent, LoadEvent 0 b, LoadEvent 1 a, ReloadEvent 0, ReloadEvent 0,
      ReloadEvent 1, ReloadEvent 0, ReloadEvent 0]"])
    (simp add: run_simps assms)

text \<open>The steps of serial runs as a function: a reload is loaded only at rest.\<close>

definition serial_do :: "(config \<Rightarrow> err + 'c list) \<Rightarrow> race_event \<Rightarrow> 'c race \<Rightarrow> 'c race option" where
  "serial_do build e s = (case e of LoadEvent i cfg \<Rightarrow> if quiet s then race_do build e s else None | _ \<Rightarrow> race_do build e s)"

lemma serial_do_step:
  assumes "serial_do build e s = Some t"
  shows "serial_step build s t"
proof -
  from assms have d: "race_do build e s = Some t"
    by (auto simp: serial_do_def split: race_event.splits if_splits)
  have "\<not> starts_reload s t" if "\<not> (\<exists>i cfg. e = LoadEvent i cfg)"
    using d that by (cases e) (auto simp: starts_reload_def split: boot_pc.splits reload_pc.splits sum.splits if_splits)
  moreover have "quiet s" if "e = LoadEvent i cfg" for i cfg
    using assms that by (auto simp: serial_do_def split: if_splits)
  ultimately show ?thesis using race_do_step [OF d] by (auto simp: serial_step_def)
qed

lemma serial_runs: "run_events (serial_do build) es s = Some t \<Longrightarrow> (serial_step build)\<^sup>*\<^sup>* s t"
  by (rule run_events_steps) (rule serial_do_step)

text \<open>The start-up alone comes to rest.\<close>

lemma boots_quiet: "\<exists>s. (serial_step name_pool)\<^sup>*\<^sup>* (race_start cfg) s \<and> quiet s"
proof -
  have "case run_events (serial_do name_pool) [BootEvent, BootEvent] (race_start cfg) of None \<Rightarrow> False | Some s \<Rightarrow> quiet s"
    by (simp add: run_simps serial_do_def)
  then obtain s where "run_events (serial_do name_pool) [BootEvent, BootEvent] (race_start cfg) = Some s" "quiet s"
    by (auto simp del: run_events.simps split: option.splits)
  then show ?thesis using serial_runs by blast
qed

lemma serial_race: "(serial_step build)\<^sup>*\<^sup>* s t \<Longrightarrow> (race_step build)\<^sup>*\<^sup>* s t"
  by (induction rule: rtranclp_induct) (auto simp: serial_step_def intro: rtranclp.rtrancl_into_rtrancl)

subsection \<open>The operations of the server\<close>

text \<open>
  The state of a server in this machine, by the names of its clients, and \<open>buildClients\<close> by names. The
  operations of \<open>Server\<close> are uninterrupted runs, so a history of them is a serial run.
\<close>

definition build_names :: "world \<Rightarrow> config \<Rightarrow> err + string list" where
  "build_names w cfg = (case buildClients w cfg of Inl e \<Rightarrow> Inl e | Inr cs \<Rightarrow> Inr (map ClientName cs))"

definition race_view :: "string boot_pc \<Rightarrow> server \<Rightarrow> string race" where
  "race_view b s = \<lparr>RCfg = GetConfig (SafeCfg s), RPool = map ClientName (ServerClients s),
     RColl = map_option (\<lambda>c. map ClientName (Clients c)) (ServerCollector s), RBoot = b, RReload = (\<lambda>_. Idle)\<rparr>"

lemma build_names_logins:
  assumes "w_login w' = w_login w"
  shows "build_names w' cfg = Inr ns \<longleftrightarrow> build_names w cfg = Inr ns"
proof -
  have login: "login_ok w' = login_ok w" by (rule ext) (simp add: login_ok_def assms)
  have *: "build_names v cfg = Inr ns \<longleftrightarrow> (\<exists>a \<in> set (Arrays cfg). login_ok v a) \<and> ns = map ArrayName (filter (login_ok v) (Arrays cfg))" for v
    using buildClients_names [of v cfg] buildClients_fails [of v cfg]
    by (cases "buildClients v cfg") (auto simp: build_names_def)
  show ?thesis unfolding * login by (rule refl)
qed

lemma reload_is_run:
  assumes "ServerCollector s \<noteq> None" and "w_login w' = w_login w"
  shows "(serial_step (build_names w))\<^sup>*\<^sup>* (race_view BootDone s) (race_view BootDone (fst (ReloadConfig w' path s)))"
proof (cases rule: ReloadConfig_cases [of w' s path])
  case (fail e)
  then show ?thesis by simp
next
  case (same cfg)
  have "run_events (serial_do (build_names w)) [LoadEvent 0 cfg, ReloadEvent 0] (race_view BootDone s) =
      Some (race_view BootDone (fst (ReloadConfig w' path s)))"
    using same load_config_ok [OF same(1)]
    by (simp add: serial_do_def race_view_def quiet_def array_names_def GetConfig_def fun_upd_idem)
  then show ?thesis by (rule serial_runs)
next
  case (stuck cfg e)
  have "\<exists>e'. build_names w cfg = Inl e'"
    using build_names_logins [OF assms(2), of cfg] stuck(3) by (cases "build_names w cfg") (auto simp: build_names_def)
  then obtain e' where "build_names w cfg = Inl e'" ..
  then have "run_events (serial_do (build_names w)) [LoadEvent 0 cfg, ReloadEvent 0, ReloadEvent 0] (race_view BootDone s) =
      Some (race_view BootDone (fst (ReloadConfig w' path s)))"
    using stuck load_config_ok [OF stuck(1)]
    by (simp add: serial_do_def race_view_def quiet_def array_names_def GetConfig_def fun_upd_idem)
  then show ?thesis by (rule serial_runs)
next
  case (rebuilt cfg cs)
  have "build_names w cfg = Inr (map ClientName cs)"
    using build_names_logins [OF assms(2), of cfg "map ClientName cs"] rebuilt(3) by (simp add: build_names_def)
  then have "run_events (serial_do (build_names w)) [LoadEvent 0 cfg, ReloadEvent 0, ReloadEvent 0, ReloadEvent 0, ReloadEvent 0]
      (race_view BootDone s) = Some (race_view BootDone (fst (ReloadConfig w' path s)))"
    using rebuilt load_config_ok [OF rebuilt(1)] assms(1)
    by (auto simp: serial_do_def race_view_def quiet_def array_names_def GetConfig_def SetClients_def fun_upd_idem)
  then show ?thesis by (rule serial_runs)
qed

text \<open>What can follow the start in such a history: cycles in any world, and reloads with the same logins.\<close>

fun keeps_logins :: "world \<Rightarrow> action \<Rightarrow> bool" where
  "keeps_logins w (Cycle w') = True"
| "keeps_logins w (Reload w' path) = (w_login w' = w_login w)"
| "keeps_logins w _ = False"

lemma tick_view:
  assumes "server_ok s" and "ServerCollector s \<noteq> None" and "tick w s = Some t"
  shows "race_view b t = race_view b s" and "ServerCollector t \<noteq> None"
proof -
  from assms(1,2) obtain coll where coll: "ServerCollector s = Some coll" "Clients coll = ServerClients s"
    by (auto simp: server_ok_def)
  with assms(3) obtain snap coll' st h where
    co: "CollectOnce (w_order w) (world_ops w) (w_now w) coll (StoreOf s) (OtlpOf s) = Some (snap, coll', st, h)"
    and t: "t = s\<lparr>StoreOf := st, OtlpOf := h, ServerClients := Clients coll', ServerCollector := Some coll'\<rparr>"
    by (auto simp: tick_def bind_eq_Some_conv)
  from co obtain cs' where all: "collectAll (w_order w) (world_ops w) (w_now w) (Clients coll) = Some (snap, cs')"
    and "Clients coll' = cs'"
    by (auto simp: CollectOnce_Some)
  with ac.collectAll_keeps(1) [OF all [unfolded world_ops_def]] coll t
  show "race_view b t = race_view b s" "ServerCollector t \<noteq> None"
    by (simp_all add: race_view_def)
qed

lemma history_is_run:
  assumes "run_actions acts s = Some t" and "list_all (keeps_logins w) acts" and "list_all action_ok acts"
    and "server_ok s" and "ServerCollector s \<noteq> None"
  shows "(serial_step (build_names w))\<^sup>*\<^sup>* (race_view BootDone s) (race_view BootDone t)"
  using assms
proof (induction acts arbitrary: s)
  case (Cons a acts)
  then obtain u where u: "act a s = Some u" "run_actions acts u = Some t" by (auto simp: bind_eq_Some_conv)
  with Cons.prems act_ok [OF _ _ u(1)] have ok: "server_ok u" by simp
  have "(serial_step (build_names w))\<^sup>*\<^sup>* (race_view BootDone s) (race_view BootDone u) \<and> ServerCollector u \<noteq> None"
  proof (cases a)
    case (Cycle w')
    with u(1) tick_view [OF Cons.prems(4,5), of w' u] show ?thesis by simp
  next
    case (Reload w' path)
    then have u': "u = fst (ReloadConfig w' path s)" and login: "w_login w' = w_login w" using u(1) Cons.prems(2) by auto
    have "ServerCollector u \<noteq> None"
      using Cons.prems(5) unfolding u' by (cases rule: ReloadConfig_cases [of w' s path]) auto
    with reload_is_run [OF Cons.prems(5) login] show ?thesis by (simp add: u')
  qed (use Cons.prems(2) in simp_all)
  with Cons.IH [OF u(2)] Cons.prems(2,3) ok show ?case by (auto intro: rtranclp_trans)
qed simp

lemma boot_is_run:
  assumes "startBackground w cfg (NewServer (NewSafeConfig cfg res) path) = Some s"
    and "\<exists>a \<in> set (Arrays cfg). login_ok w a"
  shows "(serial_step (build_names w))\<^sup>*\<^sup>* (race_start cfg) (race_view BootDone s)" and "ServerCollector s \<noteq> None"
proof -
  let ?s0 = "NewServer (NewSafeConfig cfg res) path"
  from assms(1) obtain s1 err where s1: "startCollection w cfg ?s0 = Some (s1, err)"
    and s: "s = (if err = None \<and> \<not> w_once w then fst (initOTLP w cfg s1) else s1)"
    by (auto simp: startBackground_def bind_eq_Some_conv)
  have "err = None" using start_fails [of w cfg ?s0 s1] s1 assms(2) by (cases err) auto
  with s1 have s1: "startCollection w cfg ?s0 = Some (s1, None)" by simp
  from started_fleet(2,3) [OF this] obtain coll where coll: "ServerCollector s1 = Some coll" "Clients coll = ServerClients s1"
    and names: "map ClientName (ServerClients s1) = map ArrayName (filter (login_ok w) (Arrays cfg))"
    by blast
  have cfg1: "SafeCfg s1 = SafeCfg ?s0"
    using s1 by (auto simp: startCollection_def bind_eq_Some_conv Let_def split: sum.splits)
  have view: "race_view BootDone s = race_view BootDone s1" and "ServerCollector s \<noteq> None"
    using coll by (auto simp: s race_view_def initOTLP_def SetOnCycle_def split: option.split sum.split prod.split)
  then show "ServerCollector s \<noteq> None" by blast
  obtain cs where "buildClients w cfg = Inr cs" using s1 by (auto simp: startCollection_def split: sum.splits)
  then have "build_names w cfg = Inr (map ClientName (ServerClients s1))"
    using buildClients_names [of w cfg cs] names by (simp add: build_names_def)
  then have "run_events (serial_do (build_names w)) [BootEvent, BootEvent] (race_start cfg) = Some (race_view BootDone s1)"
    using coll cfg1 by (simp add: serial_do_def race_start_def race_view_def NewServer_def NewSafeConfig_def GetConfig_def)
  with view show "(serial_step (build_names w))\<^sup>*\<^sup>* (race_start cfg) (race_view BootDone s)"
    using serial_runs by metis
qed

end
