(* ===== verification/Logging.thy ===== *)
theory Logging
  imports GoPath Prelude
begin

text \<open>
  \<open>internal/logging/logging.go\<close> (\<open>PrepareLogs\<close>) and \<open>internal/utils/dotenv.go\<close> (\<open>LoadDotEnv\<close>), the two
  preparations of the process before it reads its configuration and starts. The file system
  is a parameter: what creating a directory, opening a log file and inspecting a path report. The
  \<open>godotenv\<close> library is the parameter \<open>load\<close>, from a file and an environment to the new
  environment or an error.

  A log line is a record; what is written is decided by the level of the logger.

  Lemmas: preparing the log never fails and never loses standard output; at most one \<open>.env\<close> file is
  applied, the first that can be loaded.
\<close>

subsection \<open>Log lines\<close>

datatype log_level = DebugLevel | InfoLevel | WarnLevel | ErrorLevel

record log_entry =
  EntryLevel :: log_level
  EntryJob :: string
  EntryMessage :: string

definition programName :: "string \<Rightarrow> string \<Rightarrow> string" where
  "programName arg0 startTime = path_base arg0 @ ''-'' @ startTime"

definition LogInfo :: "string \<Rightarrow> string \<Rightarrow> log_entry" where
  "LogInfo job msg = \<lparr>EntryLevel = InfoLevel, EntryJob = job, EntryMessage = msg\<rparr>"

definition LogDebug :: "string \<Rightarrow> string \<Rightarrow> log_entry" where
  "LogDebug job msg = \<lparr>EntryLevel = DebugLevel, EntryJob = job, EntryMessage = msg\<rparr>"

definition LogWarn :: "string \<Rightarrow> string \<Rightarrow> log_entry" where
  "LogWarn job msg = \<lparr>EntryLevel = WarnLevel, EntryJob = job, EntryMessage = msg\<rparr>"

definition LogError :: "string \<Rightarrow> string \<Rightarrow> log_entry" where
  "LogError job msg = \<lparr>EntryLevel = ErrorLevel, EntryJob = job, EntryMessage = msg\<rparr>"

lemmas log_defs = LogInfo_def LogDebug_def LogWarn_def LogError_def

text \<open>\<open>logrus\<close> writes the lines that are at least as severe as the level of the logger.\<close>

fun severity :: "log_level \<Rightarrow> nat" where
  "severity DebugLevel = 0"
| "severity InfoLevel = 1"
| "severity WarnLevel = 2"
| "severity ErrorLevel = 3"

definition written :: "log_level \<Rightarrow> log_entry list \<Rightarrow> log_entry list" where
  "written level = filter (\<lambda>e. severity level \<le> severity (EntryLevel e))"

lemma written_Info: "written InfoLevel es = filter (\<lambda>e. EntryLevel e \<noteq> DebugLevel) es"
proof -
  have "severity InfoLevel \<le> severity l \<longleftrightarrow> l \<noteq> DebugLevel" for l by (cases l) simp_all
  then show ?thesis by (simp add: written_def)
qed

lemma written_Debug: "written DebugLevel es = es"
  by (simp add: written_def)

subsection \<open>Log output\<close>

record log_fs =
  mkdir_all :: "string \<Rightarrow> err option"
  open_log :: "string \<Rightarrow> err option"

datatype log_sink = Stdout | StdoutAndFile string

datatype log_warning = DirNotWritable string err | FileNotWritable string err

text \<open>The sink, the messages logged meanwhile (they go to the sink), and the returned error.\<close>

definition PrepareLogs :: "log_fs \<Rightarrow> string \<Rightarrow> log_sink \<times> log_warning list \<times> err option" where
  "PrepareLogs fs logName =
    (if logName = [] then (Stdout, [], None)
     else
       let dir = path_dir logName;
           opened = (case open_log fs logName of
               Some e \<Rightarrow> (Stdout, [FileNotWritable logName e], None)
             | None \<Rightarrow> (StdoutAndFile logName, [], None))
       in if dir \<noteq> ''.'' \<and> dir \<noteq> [] then
            (case mkdir_all fs dir of
               Some e \<Rightarrow> (Stdout, [DirNotWritable dir e], None)
             | None \<Rightarrow> opened)
          else opened)"

lemma PrepareLogs_never_fails: "snd (snd (PrepareLogs fs logName)) = None"
  by (simp add: PrepareLogs_def Let_def split: option.split)

lemma PrepareLogs_sink:
  "fst (PrepareLogs fs logName) = Stdout \<or>
    fst (PrepareLogs fs logName) = StdoutAndFile logName \<and> fst (snd (PrepareLogs fs logName)) = []"
  by (simp add: PrepareLogs_def Let_def split: option.split)

lemma PrepareLogs_file:
  assumes "logName \<noteq> []"
  shows "fst (PrepareLogs fs logName) = StdoutAndFile logName \<longleftrightarrow>
    open_log fs logName = None \<and>
    (path_dir logName = ''.'' \<or> path_dir logName = [] \<or> mkdir_all fs (path_dir logName) = None)"
  using assms by (auto simp: PrepareLogs_def Let_def split: option.split)

lemma PrepareLogs_warns:
  "logName \<noteq> [] \<Longrightarrow> fst (PrepareLogs fs logName) = Stdout \<longleftrightarrow> fst (snd (PrepareLogs fs logName)) \<noteq> []"
  by (auto simp: PrepareLogs_def Let_def split: option.split)

subsection \<open>The .env file\<close>


datatype dotenv_log = DotEnvFailed string err | DotEnvLoaded string

fun dotenv_loop ::
  "(string \<Rightarrow> err option) \<Rightarrow> (string \<Rightarrow> environ \<Rightarrow> err + environ) \<Rightarrow> string list \<Rightarrow> environ \<Rightarrow> environ \<times> dotenv_log list" where
  "dotenv_loop stat load [] env = (env, [])"
| "dotenv_loop stat load (p # ps) env =
    (if stat p \<noteq> None then dotenv_loop stat load ps env
     else (case load p env of
         Inl e \<Rightarrow> (let (env, log) = dotenv_loop stat load ps env in (env, DotEnvFailed p e # log))
       | Inr env \<Rightarrow> (env, [DotEnvLoaded p])))"

definition LoadDotEnv ::
  "(string \<Rightarrow> err option) \<Rightarrow> (string \<Rightarrow> environ \<Rightarrow> err + environ) \<Rightarrow> string \<Rightarrow> environ \<Rightarrow> environ \<times> dotenv_log list" where
  "LoadDotEnv stat load cfgPath = dotenv_loop stat load [''.env'', path_join [path_dir cfgPath, ''.env'']]"

definition loadable :: "(string \<Rightarrow> err option) \<Rightarrow> (string \<Rightarrow> environ \<Rightarrow> err + environ) \<Rightarrow> environ \<Rightarrow> string \<Rightarrow> bool" where
  "loadable stat load env p \<longleftrightarrow> stat p = None \<and> (\<exists>env'. load p env = Inr env')"

lemma dotenv_first:
  "fst (dotenv_loop stat load ps env) =
    (case find (loadable stat load env) ps of
       None \<Rightarrow> env | Some p \<Rightarrow> (case load p env of Inl e \<Rightarrow> env | Inr env' \<Rightarrow> env'))"
  by (induction ps) (auto simp: loadable_def split: sum.split prod.split)

end
