(* ===== verification/Listener.thy ===== *)
theory Listener
  imports Prelude
begin

text \<open>
  The end of the HTTP server (\<open>main.go\<close>): the goroutine of \<open>ListenAndServe\<close>, the channel of capacity one on which
  it reports a fatal error, and the main goroutine that waits for that error or a signal, shuts the server
  down and closes the channel. The three are interleaved as a step relation; \<open>serve\<close> of \<open>Lifecycle\<close> takes
  the last state of a run.

  Lemmas: an invariant of the reachable states. An error is reported to a waiting command; the send
  can meet a closed channel, which panics, only if the listener failed and a signal stopped the command. A
  run that has ended was stopped by something, and both kinds of run exist.
\<close>

datatype stop = StopSignal string | ServerError err

text \<open>What the goroutine of the HTTP server puts on the error channel when \<open>ListenAndServe\<close> returns.\<close>

datatype listen_end = ErrServerClosed | ListenFailed err

fun listen_error :: "listen_end \<Rightarrow> err option" where
  "listen_error ErrServerClosed = None"
| "listen_error (ListenFailed e) = Some (Wrap ''HTTP server error'' e)"

datatype listener = Serving | Returned listen_end | ListenerDone

datatype main_position = Waiting | Stopping | Closing | Ended

record listen_state =
  Listening :: listener
  ErrChan :: "err list option"
  MainAt :: main_position
  StoppedBy :: "stop option"
  SendPanic :: bool

definition listen_start :: listen_state where
  "listen_start = \<lparr>Listening = Serving, ErrChan = Some [], MainAt = Waiting, StoppedBy = None, SendPanic = False\<rparr>"

text \<open>The channel is \<open>None\<close> when it is closed: a send then panics.\<close>

inductive listen_step :: "listen_state \<Rightarrow> listen_state \<Rightarrow> bool" where
  fails: "Listening s = Serving \<Longrightarrow> listen_step s (s\<lparr>Listening := Returned (ListenFailed e)\<rparr>)"
| sends: "Listening s = Returned le \<Longrightarrow> listen_error le = Some e \<Longrightarrow> ErrChan s = Some [] \<Longrightarrow>
    listen_step s (s\<lparr>Listening := ListenerDone, ErrChan := Some [e]\<rparr>)"
| panics: "Listening s = Returned le \<Longrightarrow> listen_error le = Some e \<Longrightarrow> ErrChan s = None \<Longrightarrow>
    listen_step s (s\<lparr>Listening := ListenerDone, SendPanic := True\<rparr>)"
| returns: "Listening s = Returned le \<Longrightarrow> listen_error le = None \<Longrightarrow> listen_step s (s\<lparr>Listening := ListenerDone\<rparr>)"
| signal: "MainAt s = Waiting \<Longrightarrow> listen_step s (s\<lparr>MainAt := Stopping, StoppedBy := Some (StopSignal sig)\<rparr>)"
| receives: "MainAt s = Waiting \<Longrightarrow> ErrChan s = Some (e # buf) \<Longrightarrow>
    listen_step s (s\<lparr>MainAt := Stopping, StoppedBy := Some (ServerError e), ErrChan := Some buf\<rparr>)"
| shuts: "MainAt s = Stopping \<Longrightarrow>
    listen_step s (s\<lparr>MainAt := Closing,
      Listening := (if Listening s = Serving then Returned ErrServerClosed else Listening s)\<rparr>)"
| closes: "MainAt s = Closing \<Longrightarrow> listen_step s (s\<lparr>MainAt := Ended, ErrChan := None\<rparr>)"

definition listen_error_of :: "err \<Rightarrow> bool" where
  "listen_error_of e \<longleftrightarrow> (\<exists>e'. e = Wrap ''HTTP server error'' e')"

lemma listen_error_Some: "listen_error le = Some e \<Longrightarrow> listen_error_of e \<and> le \<noteq> ErrServerClosed"
  by (cases le) (auto simp: listen_error_of_def)

lemma listen_error_None: "listen_error le = None \<longleftrightarrow> le = ErrServerClosed"
  by (cases le) auto

definition listen_inv :: "listen_state \<Rightarrow> bool" where
  "listen_inv s \<longleftrightarrow>
    (ErrChan s = None \<longleftrightarrow> MainAt s = Ended) \<and>
    (StoppedBy s = None \<longleftrightarrow> MainAt s = Waiting) \<and>
    (\<forall>e buf. ErrChan s = Some (e # buf) \<longrightarrow> Listening s = ListenerDone \<and> listen_error_of e \<and> buf = []) \<and>
    (\<forall>e. StoppedBy s = Some (ServerError e) \<longrightarrow> Listening s = ListenerDone \<and> listen_error_of e \<and> \<not> SendPanic s) \<and>
    (Listening s = ListenerDone \<and> MainAt s = Waiting \<longrightarrow> (\<exists>e. ErrChan s = Some [e])) \<and>
    (Listening s = Returned ErrServerClosed \<longrightarrow> MainAt s = Closing \<or> MainAt s = Ended) \<and>
    (SendPanic s \<longrightarrow> MainAt s = Ended \<and> Listening s = ListenerDone)"

lemma listen_inv_start: "listen_inv listen_start"
  by (simp add: listen_inv_def listen_start_def)

lemma listen_inv_step: "listen_step s t \<Longrightarrow> listen_inv s \<Longrightarrow> listen_inv t"
proof (induction rule: listen_step.induct)
  case (sends s le e)
  then show ?case using listen_error_Some [of le e] by (cases "MainAt s") (auto simp: listen_inv_def)
next
  case (panics s le e)
  then show ?case by (auto simp: listen_inv_def)
next
  case (returns s le)
  then show ?case by (auto simp: listen_inv_def listen_error_None)
next
  case (receives s e buf)
  then show ?case by (auto simp: listen_inv_def)
qed (auto simp: listen_inv_def split: if_splits)

lemma listen_inv_reachable: "listen_step\<^sup>*\<^sup>* listen_start s \<Longrightarrow> listen_inv s"
  by (induction rule: rtranclp_induct) (auto intro: listen_inv_start listen_inv_step)

text \<open>A stop by the listener's error never ends in the panic.\<close>

lemma error_stop_safe:
  "listen_step\<^sup>*\<^sup>* listen_start s \<Longrightarrow> StoppedBy s = Some (ServerError e) \<Longrightarrow> \<not> SendPanic s"
  using listen_inv_reachable [of s] by (simp add: listen_inv_def)

text \<open>Once the command has ended, something has stopped it.\<close>

lemma ended_stopped: "listen_step\<^sup>*\<^sup>* listen_start s \<Longrightarrow> MainAt s = Ended \<Longrightarrow> \<exists>st. StoppedBy s = Some st"
  using listen_inv_reachable [of s] by (cases "StoppedBy s") (simp_all add: listen_inv_def)

text \<open>A run that the listener's failure stops.\<close>

lemma failure_ends:
  "\<exists>l. listen_step\<^sup>*\<^sup>* listen_start l \<and> MainAt l = Ended \<and>
    StoppedBy l = Some (ServerError (Wrap ''HTTP server error'' e))"
proof -
  let ?e = "Wrap ''HTTP server error'' e"
  let ?s1 = "listen_start\<lparr>Listening := Returned (ListenFailed e)\<rparr>"
  let ?s2 = "?s1\<lparr>Listening := ListenerDone, ErrChan := Some [?e]\<rparr>"
  let ?s3 = "?s2\<lparr>MainAt := Stopping, StoppedBy := Some (ServerError ?e), ErrChan := Some []\<rparr>"
  let ?s4 = "?s3\<lparr>MainAt := Closing, Listening := ListenerDone\<rparr>"
  let ?s5 = "?s4\<lparr>MainAt := Ended, ErrChan := None\<rparr>"
  have "listen_step listen_start ?s1" by (rule fails) (simp add: listen_start_def)
  moreover have "listen_step ?s1 ?s2" by (rule sends [where le = "ListenFailed e"]) (simp_all add: listen_start_def)
  moreover have "listen_step ?s2 ?s3" by (rule receives) (simp_all add: listen_start_def)
  moreover have "listen_step ?s3 ?s4" using shuts [of ?s3] by simp
  moreover have "listen_step ?s4 ?s5" by (rule closes) simp
  ultimately have "listen_step\<^sup>*\<^sup>* listen_start ?s5" by (meson converse_rtranclp_into_rtranclp r_into_rtranclp)
  then show ?thesis by (rule_tac x = ?s5 in exI) simp
qed

text \<open>The run that panics: the listener fails, a signal arrives first, and the channel is closed before the send.\<close>

lemma send_after_close:
  "\<exists>s. listen_step\<^sup>*\<^sup>* listen_start s \<and> SendPanic s \<and> StoppedBy s = Some (StopSignal sig)"
proof -
  let ?s1 = "listen_start\<lparr>Listening := Returned (ListenFailed (Msg ''bind''))\<rparr>"
  let ?s2 = "?s1\<lparr>MainAt := Stopping, StoppedBy := Some (StopSignal sig)\<rparr>"
  let ?s3 = "?s2\<lparr>MainAt := Closing, Listening := Returned (ListenFailed (Msg ''bind''))\<rparr>"
  let ?s4 = "?s3\<lparr>MainAt := Ended, ErrChan := None\<rparr>"
  let ?s5 = "?s4\<lparr>Listening := ListenerDone, SendPanic := True\<rparr>"
  have "listen_step listen_start ?s1" by (rule fails) (simp add: listen_start_def)
  moreover have "listen_step ?s1 ?s2" by (rule signal) (simp add: listen_start_def)
  moreover have "listen_step ?s2 ?s3" using shuts [of ?s2] by simp
  moreover have "listen_step ?s3 ?s4" by (rule closes) simp
  moreover have "listen_step ?s4 ?s5" by (rule panics [where le = "ListenFailed (Msg ''bind'')" and e = "Wrap ''HTTP server error'' (Msg ''bind'')"]) simp_all
  ultimately have "listen_step\<^sup>*\<^sup>* listen_start ?s5" by (meson converse_rtranclp_into_rtranclp r_into_rtranclp)
  then show ?thesis by (rule_tac x = ?s5 in exI) simp
qed

end
