(* ===== verification/Lifecycle.thy ===== *)
theory Lifecycle
  imports ServerFacts Watcher Logging Listener "HOL-Library.Char_ord" "HOL-Library.List_Lexorder"
begin

text \<open>
  The process around the server (\<open>main.go\<close>): tracing set-up, \<open>Start\<close>, \<open>Shutdown\<close>, logging set-up and
  the command itself. What the environment of the process answers is the record \<open>host\<close>: the
  OpenTelemetry SDK, the Prometheus registry, the pattern check of \<open>http.ServeMux\<close>, the log files, the
  \<open>.env\<close> loader, \<open>fsnotify\<close>, and the errors of the shutdown calls.

  A run of the command takes what happens while it serves (\<open>serving_run\<close>) and the run of the listener and of
  the stop (\<open>Listener\<close>), and ends with an exit status and the final server, with a crash (a panic), or not
  at all. Here the start-up and a reload are single events; their interleaving is the subject of \<open>Races\<close>.

  Lemmas: \<open>Shutdown\<close> performs every step in order whatever the steps report, and leaves no client
  and no loop; the routes of the multiplexer are fixed by the configured URI, and a URI that is one of
  the fixed paths crashes the start; the two goroutines of \<open>Watcher\<close> keep the server's invariant.
\<close>

record host =
  h_otel :: otel_lib
  h_register :: "string \<Rightarrow> err option"
  h_pattern_ok :: "string \<Rightarrow> bool"
  h_log :: log_fs
  h_stat :: "string \<Rightarrow> err option"
  h_dotenv :: "string \<Rightarrow> environ \<Rightarrow> err + environ"
  h_watch :: watch_lib
  h_watcher_close :: "err option"
  h_http_shutdown :: "err option"
  h_otlp_shutdown :: "otlp_exporter \<Rightarrow> err option"

subsection \<open>Starting\<close>

definition initTracing :: "host \<Rightarrow> world \<Rightarrow> config \<Rightarrow> server \<Rightarrow> server" where
  "initTracing h w cfg s =
    (if \<not> IsOTelTracingEnabled cfg then s
     else
       let mgr = NewManager \<lparr>TelEndpoint = OtelEndpoint (OTelTracing cfg),
             TelInsecure = OtelInsecure (OTelTracing cfg), TelSamplingRate = SamplingRate (OTelTracing cfg),
             TelServiceName = ''pstore-exporter'', TelServiceVersion = w_version w\<rparr>
       in (case Initialize (h_otel h) mgr of
             (mgr, Some e) \<Rightarrow> s
           | (mgr, None) \<Rightarrow> s\<lparr>Telemetry := Some mgr, TracerProv := TracerProvider mgr\<rparr>))"

text \<open>
  \<open>ServeMux.Handle\<close> panics on a pattern it rejects and on one that is registered already. The other
  patterns of the exporter are constants, so the check of a pattern does not depend on them otherwise.
\<close>

definition mux_handle :: "(string \<Rightarrow> bool) \<Rightarrow> string \<Rightarrow> route \<Rightarrow> (string \<times> route) list \<Rightarrow> (string \<times> route) list option" where
  "mux_handle pattern_ok p r routes =
    (if pattern_ok p \<and> p \<notin> fst ` set routes then Some (routes @ [(p, r)]) else None)"

definition mux_routes :: "(string \<Rightarrow> bool) \<Rightarrow> string \<Rightarrow> (string \<times> route) list option" where
  "mux_routes pattern_ok uri =
    do {
      mux \<leftarrow> mux_handle pattern_ok uri MetricsRoute [];
      mux \<leftarrow> mux_handle pattern_ok ''/health'' HealthRoute mux;
      mux \<leftarrow> mux_handle pattern_ok ''/livez'' StaticOKRoute mux;
      mux_handle pattern_ok ''/readyz'' StaticOKRoute mux
    }"

datatype start_result = StartPanic | StartBlocked | Started server "err option"

definition Start :: "host \<Rightarrow> world \<Rightarrow> server \<Rightarrow> start_result" where
  "Start h w s =
    (let cfg = GetConfig (SafeCfg s); s = initTracing h w cfg s
     in if w_once w then
          (case startCollection w cfg s of None \<Rightarrow> StartBlocked | Some (s, err) \<Rightarrow> Started s err)
        else
          (case h_register h ''collector'' of
             Some e \<Rightarrow> Started s (Some (Wrap ''failed to register collector'' e))
           | None \<Rightarrow>
               let s = s\<lparr>Registry := [''collector'']\<rparr>
               in (case h_register h ''build info collector'' of
                     Some e \<Rightarrow> Started s (Some (Wrap ''failed to register build info collector'' e))
                   | None \<Rightarrow>
                       let s = s\<lparr>Registry := [''collector'', ''build info collector'']\<rparr>
                       in (case mux_routes (h_pattern_ok h) (URI (Server cfg)) of
                             None \<Rightarrow> StartPanic
                           | Some mux \<Rightarrow>
                               Started (s\<lparr>HttpSrv := Some \<lparr>HttpAddr = GetServerAddress cfg, HttpRoutes = mux\<rparr>\<rparr>) None))))"

subsection \<open>Stopping\<close>

datatype shutdown_step =
  CloseWatcher "err option" | ShutdownHttp "err option" | StopCollection
  | ShutdownOtlp "err option" | ShutdownTelemetry "err option" | CloseErrChan

text \<open>The steps taken, with what they report. Closing the error channel twice would panic.\<close>

definition shutdown_steps :: "host \<Rightarrow> server \<Rightarrow> shutdown_step list" where
  "shutdown_steps h s =
    (case ConfigWatcher s of None \<Rightarrow> [] | Some _ \<Rightarrow> [CloseWatcher (h_watcher_close h)]) @
    (case HttpSrv s of None \<Rightarrow> [] | Some _ \<Rightarrow> [ShutdownHttp (h_http_shutdown h)]) @
    [StopCollection] @
    (case OtlpOf s of None \<Rightarrow> [] | Some e \<Rightarrow> [ShutdownOtlp (ShutdownOTLPExporter (h_otlp_shutdown h) e)]) @
    (case Telemetry s of None \<Rightarrow> [] | Some m \<Rightarrow> [ShutdownTelemetry (ShutdownManager (h_otel h) m)]) @
    [CloseErrChan]"

definition Shutdown :: "host \<Rightarrow> server \<Rightarrow> (server \<times> shutdown_step list \<times> err option) option" where
  "Shutdown h s =
    (if ErrChanOpen s then Some ((stopCollection s)\<lparr>ErrChanOpen := False\<rparr>, shutdown_steps h s, None) else None)"

definition SetConfigWatcher :: "string \<times> string \<Rightarrow> server \<Rightarrow> server" where
  "SetConfigWatcher watcher s = s\<lparr>ConfigWatcher := Some watcher\<rparr>"

subsection \<open>The command\<close>

record flags =
  FlagConfig :: string
  FlagDebug :: bool
  FlagOnce :: bool
  FlagTrace :: bool

definition setupLogging :: "host \<Rightarrow> config \<Rightarrow> bool \<Rightarrow> err + log_sink \<times> log_level" where
  "setupLogging h cfg debugMode =
    (case PrepareLogs (h_log h) (LogName (Server cfg)) of
       (sink, warnings, Some e) \<Rightarrow> Inl (Wrap ''failed to initialize logging'' e)
     | (sink, warnings, None) \<Rightarrow> Inr (sink, if debugMode then DebugLevel else InfoLevel))"

text \<open>
  \<open>dumpSamples\<close>, the lines that \<open>--once --debug\<close> prints: \<open>quote\<close> and \<open>show\<close> are the verbs \<open>%q\<close> of a string and
  \<open>%v\<close> of a \<open>float64\<close>, whose tables (printable runes, shortest decimals) are not modelled. \<open>sort.Strings\<close> compares
  bytes.
\<close>

definition dump_line :: "(string \<Rightarrow> string) \<Rightarrow> (float64 \<Rightarrow> string) \<Rightarrow> sample \<Rightarrow> string" where
  "dump_line quote show s =
    Name s @ ''{'' @ join '','' (map (\<lambda>l. LName l @ ''='' @ quote (LValue l)) (Labels s)) @ ''} '' @ show (Value s)"

definition dumpSamples ::
  "(string list \<Rightarrow> string list) \<Rightarrow> (string \<Rightarrow> string) \<Rightarrow> (float64 \<Rightarrow> string) \<Rightarrow> snapshot \<Rightarrow> string list" where
  "dumpSamples \<rho> quote show snap =
    sort (concat (map (\<lambda>(_, as). map (dump_line quote show) (Samples as)) (amap_range \<rho> (PerArray snap))))"

definition once_output ::
  "(string list \<Rightarrow> string list) \<Rightarrow> (string \<Rightarrow> string) \<Rightarrow> (float64 \<Rightarrow> string) \<Rightarrow> flags \<Rightarrow> server \<Rightarrow> string list" where
  "once_output \<rho> quote show f s =
    (if FlagOnce f \<and> FlagDebug f then dumpSamples \<rho> quote show (LoadSnapshot (StoreOf s)) else [])"

definition waitForShutdown :: "stop \<Rightarrow> err option" where
  "waitForShutdown st = (case st of StopSignal sig \<Rightarrow> None | ServerError e \<Rightarrow> Some e)"

datatype outcome = Crashed | Hangs | ExitStatus int "server option"

definition flag_world :: "flags \<Rightarrow> world \<Rightarrow> world" where
  "flag_world f w = w\<lparr>w_once := FlagOnce f, w_trace := FlagTrace f\<rparr>"

text \<open>
  The goroutine that runs \<open>Collector.Run\<close> creates its ticker before it does anything else, so whether it panics
  shows before the first event.
\<close>

definition loop_panics :: "server \<Rightarrow> bool" where
  "loop_panics s \<longleftrightarrow> LoopStarted s \<and>
    (case ServerCollector s of
       None \<Rightarrow> False
     | Some c \<Rightarrow> (case RunCollector (\<lambda>ks. ks) [] (c, StoreOf s, OtlpOf s) of RunPanic \<Rightarrow> True | _ \<Rightarrow> False))"

definition finish :: "host \<Rightarrow> server \<Rightarrow> outcome" where
  "finish h s = (case Shutdown h s of None \<Rightarrow> Crashed | Some (s, steps, None) \<Rightarrow> ExitStatus 0 (Some s)
     | Some (s, steps, Some e) \<Rightarrow> ExitStatus 1 (Some s))"

text \<open>
  What happens while the process serves: the start-up goroutine ends, the loop it has started ticks, a reload
  goroutine runs. Ticks and reloads carry the world of their moment; its flags are those of the process.
  The start-up works on the configuration \<open>Start\<close> has read. A start-up or a cycle that never
  ends blocks its own goroutine only (\<open>Stuck\<close>): the reloads go on. The result \<open>None\<close> is the panic of the ticker.
\<close>

datatype serving_event = StartedUp | Ticked world | Reloaded world

datatype serving_phase = Starting | Looping | Stuck

definition with_flags :: "world \<Rightarrow> world \<Rightarrow> world" where
  "with_flags w w' = w'\<lparr>w_once := w_once w, w_trace := w_trace w\<rparr>"

fun serving_run ::
  "world \<Rightarrow> config \<Rightarrow> string \<Rightarrow> serving_phase \<Rightarrow> serving_event list \<Rightarrow> server \<Rightarrow> server option" where
  "serving_run w cfg path phase [] s = Some s"
| "serving_run w cfg path phase (StartedUp # es) s =
    (if phase \<noteq> Starting then serving_run w cfg path phase es s
     else (case startBackground w cfg s of
         None \<Rightarrow> serving_run w cfg path Stuck es s
       | Some s \<Rightarrow> if loop_panics s then None else serving_run w cfg path Looping es s))"
| "serving_run w cfg path phase (Ticked w' # es) s =
    (if phase \<noteq> Looping then serving_run w cfg path phase es s
     else (case tick (with_flags w w') s of
         None \<Rightarrow> serving_run w cfg path Stuck es s
       | Some s \<Rightarrow> serving_run w cfg path Looping es s))"
| "serving_run w cfg path phase (Reloaded w' # es) s =
    serving_run w cfg path phase es (fst (ReloadConfig (with_flags w w') path s))"

text \<open>
  What runs after \<open>Start\<close>: the watcher is set up and the process serves until the stop, whose error is only
  logged. The stop and the listener are a run of \<open>Listener\<close> with its last state \<open>l\<close>; a send on the closed
  channel panics before the process can end. The stop may come before the start-up has ended.
\<close>

definition serve :: "host \<Rightarrow> world \<Rightarrow> string \<Rightarrow> serving_event list \<Rightarrow> listen_state \<Rightarrow> server \<Rightarrow> outcome" where
  "serve h w path es l s =
    (let cfg = GetConfig (SafeCfg s);
         s = (case WatchConfigFile (h_watch h) path of Inl e \<Rightarrow> s | Inr watcher \<Rightarrow> SetConfigWatcher watcher s)
     in case serving_run w cfg path Starting es s of
          None \<Rightarrow> Crashed
        | Some s \<Rightarrow>
            (case (MainAt l, StoppedBy l) of
               (Ended, Some st) \<Rightarrow>
                 if SendPanic l then Crashed
                 else (case waitForShutdown st of Some logged \<Rightarrow> finish h s | None \<Rightarrow> finish h s)
             | _ \<Rightarrow> Hangs))"

definition run_main ::
  "host \<Rightarrow> world \<Rightarrow> environ \<Rightarrow> flags \<Rightarrow> serving_event list \<Rightarrow> listen_state \<Rightarrow> outcome" where
  "run_main h w env f es l =
    (let w = flag_world f w; path = FlagConfig f;
         env = fst (LoadDotEnv (h_stat h) (h_dotenv h) path env)
     in case validateConfig env (w_files w) path of
          Inl e \<Rightarrow> ExitStatus 1 None
        | Inr cfg \<Rightarrow>
            let safeCfg = NewSafeConfig cfg (Some (ResolveSecrets env (open_file (w_files w))))
            in (case setupLogging h (GetConfig safeCfg) (FlagDebug f) of
                  Inl e \<Rightarrow> ExitStatus 1 None
                | Inr sink \<Rightarrow>
                    (case Start h w (NewServer safeCfg path) of
                       StartPanic \<Rightarrow> Crashed
                     | StartBlocked \<Rightarrow> Hangs
                     | Started s (Some e) \<Rightarrow> ExitStatus 1 (Some s)
                     | Started s None \<Rightarrow> if FlagOnce f then finish h s else serve h w path es l s)))"

subsection \<open>The command line\<close>

text \<open>
  What \<open>main\<close> declares to \<open>cobra\<close>: the command with its flags. \<open>cobra\<close> itself is the parameter \<open>execute\<close>, from the
  declaration and the arguments to an error, to nothing (\<open>--help\<close>, \<open>--version\<close>), or to the flags
  with which it calls the body of the command.
\<close>

datatype flag_default = StringDefault string | BoolDefault bool

record flag_decl =
  DeclName :: string
  DeclShort :: string
  DeclDefault :: flag_default
  DeclRequired :: bool

record command =
  CmdUse :: string
  CmdVersion :: string
  CmdFlags :: "flag_decl list"

definition rootCmd :: "string \<Rightarrow> command" where
  "rootCmd version = \<lparr>CmdUse = ''pstore_exporter'', CmdVersion = version, CmdFlags =
     [\<lparr>DeclName = ''config'', DeclShort = ''c'', DeclDefault = StringDefault [], DeclRequired = True\<rparr>,
      \<lparr>DeclName = ''debug'', DeclShort = ''d'', DeclDefault = BoolDefault False, DeclRequired = False\<rparr>,
      \<lparr>DeclName = ''once'', DeclShort = [], DeclDefault = BoolDefault False, DeclRequired = False\<rparr>,
      \<lparr>DeclName = ''trace'', DeclShort = [], DeclDefault = BoolDefault False, DeclRequired = False\<rparr>]\<rparr>"

definition run_command ::
  "(command \<Rightarrow> string list \<Rightarrow> err + flags option) \<Rightarrow> host \<Rightarrow> world \<Rightarrow> environ \<Rightarrow> string list \<Rightarrow>
   serving_event list \<Rightarrow> listen_state \<Rightarrow> outcome" where
  "run_command execute h w env args es l =
    (case execute (rootCmd (w_version w)) args of
       Inl e \<Rightarrow> ExitStatus 1 None
     | Inr None \<Rightarrow> ExitStatus 0 None
     | Inr (Some f) \<Rightarrow> run_main h w env f es l)"

end
