(* ===== verification/LifecycleFacts.thy ===== *)
theory LifecycleFacts
  imports Lifecycle
begin

text \<open>
  Facts of the process: the routes, the order of the shutdown, the exit status of the command, and the
  composition of the two reload goroutines with the server. A reload goroutine sees a new
  world at every reload (\<open>server_reload\<close>); that the invariant of the server survives both
  goroutines is the instance of \<open>reload_target\<close>.
\<close>

subsection \<open>Routes\<close>

definition fixed_routes :: "(string \<times> route) list" where
  "fixed_routes = [(''/health'', HealthRoute), (''/livez'', StaticOKRoute), (''/readyz'', StaticOKRoute)]"

lemma mux_handle_Some:
  "mux_handle ok p r routes = Some rs \<longleftrightarrow> ok p \<and> p \<notin> fst ` set routes \<and> rs = routes @ [(p, r)]"
  by (auto simp: mux_handle_def)

lemma mux_routes_Some:
  "mux_routes ok uri = Some rs \<longleftrightarrow>
    ok uri \<and> list_all ok (map fst fixed_routes) \<and> uri \<notin> fst ` set fixed_routes \<and>
    rs = (uri, MetricsRoute) # fixed_routes"
  by (auto simp: mux_routes_def bind_eq_Some_conv mux_handle_Some fixed_routes_def)

lemma mux_routes_reserved: "uri \<in> fst ` set fixed_routes \<Longrightarrow> mux_routes ok uri = None"
  using mux_routes_Some [of ok uri] by (cases "mux_routes ok uri") auto

subsection \<open>Tracing and starting\<close>

lemma initTracing_frame [simp]:
  "SafeCfg (initTracing h w cfg s) = SafeCfg s" "StoreOf (initTracing h w cfg s) = StoreOf s"
  "ServerClients (initTracing h w cfg s) = ServerClients s"
  "ServerCollector (initTracing h w cfg s) = ServerCollector s"
  "LoopStarted (initTracing h w cfg s) = LoopStarted s" "OtlpOf (initTracing h w cfg s) = OtlpOf s"
  "ErrChanOpen (initTracing h w cfg s) = ErrChanOpen s" "ConfigWatcher (initTracing h w cfg s) = ConfigWatcher s"
  by (simp_all add: initTracing_def Let_def split: prod.split option.split)

text \<open>The tracer provider is the telemetry manager's, and both are absent unless initialised.\<close>

definition traced :: "server \<Rightarrow> bool" where
  "traced s \<longleftrightarrow> (case Telemetry s of None \<Rightarrow> TracerProv s = None
     | Some m \<Rightarrow> manager_ok m \<and> MgrEnabled m \<and> TracerProv s = TracerProvider m)"

lemma initTracing_traced:
  assumes "traced s"
  shows "traced (initTracing h w cfg s)"
proof (cases "IsOTelTracingEnabled cfg")
  case True
  define mgr where "mgr = NewManager \<lparr>TelEndpoint = OtelEndpoint (OTelTracing cfg),
    TelInsecure = OtelInsecure (OTelTracing cfg), TelSamplingRate = SamplingRate (OTelTracing cfg),
    TelServiceName = ''pstore-exporter'', TelServiceVersion = w_version w\<rparr>"
  obtain m e where i: "Initialize (h_otel h) mgr = (m, e)" by force
  have ok: "manager_ok m" using Initialize_ok [of mgr "h_otel h"] i by (simp add: mgr_def)
  have "MgrEnabled m" if "e = None"
    using Initialize_provider [of "h_otel h" mgr] i ok that by (auto simp: manager_ok_def TracerProvider_def)
  with True i ok assms show ?thesis
    by (auto simp: initTracing_def mgr_def [symmetric] traced_def split: option.split)
qed (simp add: initTracing_def assms)

lemma setupLogging_succeeds: "\<exists>sink. setupLogging h cfg dbg = Inr (sink, if dbg then DebugLevel else InfoLevel)"
  using PrepareLogs_never_fails [of "h_log h" "LogName (Server cfg)"]
  by (auto simp: setupLogging_def split: prod.split option.split)

text \<open>Debug lines are written with \<open>--debug\<close> only, all others always.\<close>

lemma setupLogging_written:
  assumes "setupLogging h cfg dbg = Inr (sink, level)"
  shows "written level es = (if dbg then es else filter (\<lambda>e. EntryLevel e \<noteq> DebugLevel) es)"
  using setupLogging_succeeds [of h cfg dbg] assms by (auto simp: written_Info written_Debug)

subsection \<open>The dump of a snapshot\<close>

text \<open>One line per collected sample, sorted, the same in whatever order Go ranges over the arrays.\<close>

lemma dumpSamples_lines:
  assumes "range_order \<rho>" and "amap_ok (PerArray snap)"
  shows "sorted (dumpSamples \<rho> quote show snap)"
    and "mset (dumpSamples \<rho> quote show snap) =
      mset (concat (map (\<lambda>(_, as). map (dump_line quote show) (Samples as)) (PerArray snap)))"
  using concat_map_mset [OF amap_range_mset [OF assms]] by (simp_all add: dumpSamples_def)

lemma dumpSamples_order:
  assumes "range_order \<rho>" "range_order \<rho>'" and "amap_ok (PerArray snap)"
  shows "dumpSamples \<rho> quote show snap = dumpSamples \<rho>' quote show snap"
  by (rule properties_for_sort [symmetric, THEN trans])
    (simp_all add: dumpSamples_lines [OF assms(1,3)] dumpSamples_lines [OF assms(2,3)] dumpSamples_def
      concat_map_mset [OF amap_range_mset [OF assms(1,3)]] concat_map_mset [OF amap_range_mset [OF assms(2,3)]])

subsection \<open>Shutdown\<close>

lemma Shutdown_open:
  "ErrChanOpen s \<Longrightarrow> Shutdown h s = Some ((stopCollection s)\<lparr>ErrChanOpen := False\<rparr>, shutdown_steps h s, None)"
  by (simp add: Shutdown_def)

lemma Shutdown_twice: "Shutdown h s = Some (s', steps, e) \<Longrightarrow> Shutdown h s' = None"
  by (auto simp: Shutdown_def split: if_splits)

lemma finish_open: "ErrChanOpen s \<Longrightarrow> finish h s = ExitStatus 0 (Some ((stopCollection s)\<lparr>ErrChanOpen := False\<rparr>))"
  by (simp add: finish_def Shutdown_open)

lemma server_ok_frame [simp]:
  "server_ok (s\<lparr>ErrChanOpen := b\<rparr>) = server_ok s" "server_ok (s\<lparr>ConfigWatcher := x\<rparr>) = server_ok s"
  "server_ok (s\<lparr>HttpSrv := y\<rparr>) = server_ok s" "server_ok (s\<lparr>Registry := z\<rparr>) = server_ok s"
  by (simp_all add: server_ok_def)

lemma server_ok_initTracing [simp]: "server_ok (initTracing h w cfg s) = server_ok s"
  by (simp add: server_ok_def)

subsection \<open>The reload goroutines on the server\<close>

fun server_reload :: "(nat \<Rightarrow> world) \<Rightarrow> (nat \<times> server) reload_fn" where
  "server_reload ws path (n, s) = (let (s', r) = ReloadConfig (ws n) path s in ((Suc n, s'), r))"

lemma reloaded_server: "reloaded (server_reload ws) path (n, s) = (Suc n, fst (ReloadConfig (ws n) path s))"
  by (simp add: reloaded_def split: prod.split)

interpretation server_target: reload_target "server_reload ws" "\<lambda>s. server_ok (snd s)" for ws
proof
  fix s :: "nat \<times> server" and path assume "server_ok (snd s)"
  then show "server_ok (snd (fst (server_reload ws path s)))"
    using ReloadConfig_ok [of "snd s" "ws (fst s)" path]
    by (cases s, cases "ReloadConfig (ws (fst s)) path (snd s)") simp
qed

text \<open>\<open>k\<close> reloads in a row are \<open>k\<close> reload actions of the server's history.\<close>

lemma reloads_are_actions:
  "\<exists>s'. (reloaded (server_reload ws) path ^^ k) (n, s) = (n + k, s') \<and>
    run_actions (map (\<lambda>i. Reload (ws i) path) [n..<n + k]) s = Some s'"
proof (induction k arbitrary: n s)
  case (Suc k)
  have "[n..<n + Suc k] = n # [Suc n..<Suc n + k]" by (simp add: upt_conv_Cons)
  with Suc.IH [of "Suc n" "fst (ReloadConfig (ws n) path s)"] show ?case
    by (simp del: funpow.simps add: funpow_Suc_right reloaded_server)
qed simp

subsection \<open>The exit status\<close>

text \<open>The preparation of a run: the environment after the \<open>.env\<close> files and the server it starts from.\<close>

definition run_env :: "host \<Rightarrow> environ \<Rightarrow> flags \<Rightarrow> environ" where
  "run_env h env f = fst (LoadDotEnv (h_stat h) (h_dotenv h) (FlagConfig f) env)"

definition run_server :: "host \<Rightarrow> world \<Rightarrow> environ \<Rightarrow> flags \<Rightarrow> config \<Rightarrow> server" where
  "run_server h w env f cfg =
    NewServer (NewSafeConfig cfg (Some (ResolveSecrets (run_env h env f) (open_file (w_files w))))) (FlagConfig f)"

lemma flag_world_files [simp]: "w_files (flag_world f w) = w_files w" "w_once (flag_world f w) = FlagOnce f"
  "w_login (flag_world f w) = w_login w" "w_gp (flag_world f w) = w_gp w"
  by (simp_all add: flag_world_def)

lemma run_main_eq:
  "run_main h w env f es l =
    (case validateConfig (run_env h env f) (w_files w) (FlagConfig f) of
       Inl e \<Rightarrow> ExitStatus 1 None
     | Inr cfg \<Rightarrow>
         (case Start h (flag_world f w) (run_server h w env f cfg) of
            StartPanic \<Rightarrow> Crashed | StartBlocked \<Rightarrow> Hangs
          | Started s (Some e) \<Rightarrow> ExitStatus 1 (Some s)
          | Started s None \<Rightarrow>
              if FlagOnce f then finish h s else serve h (flag_world f w) (FlagConfig f) es l s))"
proof -
  have skip: "(case setupLogging h cfg dbg of Inl e \<Rightarrow> x | Inr sink \<Rightarrow> y) = y" for cfg dbg and x y :: outcome
    using setupLogging_succeeds [of h cfg dbg] by auto
  show ?thesis
    unfolding run_main_def run_env_def run_server_def Let_def skip flag_world_files by (rule refl)
qed

lemma run_server_sel [simp]:
  "GetConfig (SafeCfg (run_server h w env f cfg)) = cfg" "ErrChanOpen (run_server h w env f cfg)"
  "StoreOf (run_server h w env f cfg) = NewSnapshotStore" "OtlpOf (run_server h w env f cfg) = None"
  by (simp_all add: run_server_def NewServer_def NewSafeConfig_def GetConfig_def)

lemma run_server_idle: "ServerCollector (run_server h w env f cfg) = None" "\<not> LoopStarted (run_server h w env f cfg)"
  by (simp_all add: run_server_def NewServer_def)

lemma startCollection_frame:
  "startCollection w cfg s = Some (s', e) \<Longrightarrow> ErrChanOpen s' = ErrChanOpen s \<and> SafeCfg s' = SafeCfg s"
  by (auto simp: startCollection_def bind_eq_Some_conv Let_def split: sum.splits)

lemma startCollection_error:
  "startCollection w cfg s = Some (s', Some e) \<longleftrightarrow> buildClients w cfg = Inl e \<and> s' = s"
  by (auto simp: startCollection_def bind_eq_Some_conv split: sum.splits)

text \<open>What the events keep.\<close>

lemma ReloadConfig_frame:
  "ErrChanOpen (fst (ReloadConfig w path s)) = ErrChanOpen s"
  "LoopStarted (fst (ReloadConfig w path s)) = LoopStarted s"
  "ServerCollector s = None \<Longrightarrow> ServerCollector (fst (ReloadConfig w path s)) = None"
  by (simp_all add: ReloadConfig_def Let_def split: prod.split sum.split)

lemma tick_frame: "tick w s = Some s' \<Longrightarrow> ErrChanOpen s' = ErrChanOpen s"
  by (auto simp: tick_def bind_eq_Some_conv split: option.splits)

lemma initOTLP_frame [simp]: "ErrChanOpen (fst (initOTLP w cfg s)) = ErrChanOpen s"
  by (simp add: initOTLP_def split: sum.split prod.split option.split)

lemma startBackground_frame: "startBackground w cfg s = Some s' \<Longrightarrow> ErrChanOpen s' = ErrChanOpen s"
  by (auto simp: startBackground_def bind_eq_Some_conv startCollection_frame split: if_splits)

lemma serving_frame: "serving_run w cfg path phase es s = Some s' \<Longrightarrow> ErrChanOpen s' = ErrChanOpen s"
  by (induction w cfg path phase es s rule: serving_run.induct)
    (auto simp: ReloadConfig_frame tick_frame startBackground_frame split: option.splits if_splits)

text \<open>
  The reason of the stop does not show in the outcome: a process that is stopped ends with status zero,
  unless the ticker or the send on the closed channel panics.
\<close>

lemma serve_eq:
  "serve h w path es l s =
    (let cfg = GetConfig (SafeCfg s);
         s = (case WatchConfigFile (h_watch h) path of Inl e \<Rightarrow> s | Inr watcher \<Rightarrow> SetConfigWatcher watcher s)
     in case serving_run w cfg path Starting es s of
          None \<Rightarrow> Crashed
        | Some s \<Rightarrow> if MainAt l \<noteq> Ended \<or> StoppedBy l = None then Hangs
            else if SendPanic l then Crashed else finish h s)"
proof -
  have "(case waitForShutdown st of None \<Rightarrow> finish h s | Some logged \<Rightarrow> finish h s) = finish h s" for st s
    by (simp split: option.split)
  then show ?thesis by (simp add: serve_def Let_def split: option.split main_position.split)
qed

text \<open>Only the ticker's panic crashes a serving process, and only for a non-positive interval.\<close>

lemma loop_panics_interval:
  assumes "startBackground w cfg s = Some s'" and "ServerCollector s = None" "\<not> LoopStarted s" and "loop_panics s'"
  shows "GetCollectionInterval cfg \<le> 0"
proof -
  from assms(1) obtain s1 err where s1: "startCollection w cfg s = Some (s1, err)"
    and s': "s' = (if err = None \<and> \<not> w_once w then fst (initOTLP w cfg s1) else s1)"
    by (auto simp: startBackground_def bind_eq_Some_conv)
  show ?thesis
  proof (cases "err = None \<and> \<not> w_once w")
    case True
    with s1 started_collector [of w cfg s s1] obtain coll where
      c: "ServerCollector s1 = Some coll" "Interval coll = GetCollectionInterval cfg" by auto
    with assms(4) True s' initOTLP_collector [of w cfg s1] show ?thesis
      by (auto simp: loop_panics_def RunCollector_def split: option.splits if_splits)
  next
    case False
    with s1 s' assms(2-4) startCollection_error [of w cfg s s1] show ?thesis
      by (cases err) (auto simp: loop_panics_def startCollection_def bind_eq_Some_conv split: sum.splits)
  qed
qed

text \<open>The start-up returns when the arrays that can be logged in to have a finite inventory.\<close>

definition finite_fleet :: "world \<Rightarrow> config \<Rightarrow> bool" where
  "finite_fleet w cfg \<longleftrightarrow> list_all (\<lambda>a. login_ok w a \<longrightarrow> finite_inventory (w_gp w (ArrayName a))) (Arrays cfg)"

lemma startCollection_returns:
  assumes "config_ok cfg" and "finite_fleet w cfg"
  shows "\<exists>s' e. startCollection w cfg s = Some (s', e)"
proof (cases "buildClients w cfg")
  case (Inr cs)
  have "ClientName ` set cs = ArrayName ` {a \<in> set (Arrays cfg). login_ok w a}"
    using arg_cong [OF buildClients_names [OF Inr], of set] by simp
  have "finite_inventory (w_gp w (ClientName c))" if "c \<in> set cs" for c
  proof -
    from that have "ClientName c \<in> ArrayName ` {a \<in> set (Arrays cfg). login_ok w a}"
      using \<open>ClientName ` set cs = _\<close> by blast
    with assms(2) show ?thesis by (auto simp: finite_fleet_def list_all_iff)
  qed
  with buildClients_ok(1) [OF Inr assms(1)] have "list_all (serving (w_gp w)) cs"
    by (simp add: list_all_iff serving_def)
  then have "\<exists>r. collectAll (w_order w) (world_ops w) (w_now w) cs = Some r"
    unfolding world_ops_def by (rule ac.cycle_returns)
  then obtain snap cs' where "collectAll (w_order w) (world_ops w) (w_now w) cs = Some (snap, cs')" by auto
  with Inr show ?thesis by (simp add: startCollection_def CollectOnce_def NewCollector_def Let_def)
qed (simp add: startCollection_def)

text \<open>A single cycle: status zero with the fleet's snapshot when some array could be logged in to.\<close>

lemma run_once:
  assumes "FlagOnce f" and "validateConfig (run_env h env f) (w_files w) (FlagConfig f) = Inr cfg"
    and "finite_fleet w cfg"
  shows "if \<exists>a \<in> set (Arrays cfg). login_ok w a
    then \<exists>s. run_main h w env f es l = ExitStatus 0 (Some s) \<and>
      set (amap_keys (PerArray (LoadSnapshot (StoreOf s)))) = ArrayName ` {a \<in> set (Arrays cfg). login_ok w a}
    else \<exists>s. run_main h w env f es l = ExitStatus 1 (Some s)"
proof -
  let ?s = "initTracing h (flag_world f w) cfg (run_server h w env f cfg)"
  have login: "login_ok (flag_world f w) = login_ok w" by (rule ext) (simp add: login_ok_def)
  have eq: "run_main h w env f es l =
      (case startCollection (flag_world f w) cfg ?s of
         None \<Rightarrow> Hangs | Some (s, Some e) \<Rightarrow> ExitStatus 1 (Some s) | Some (s, None) \<Rightarrow> finish h s)"
    using assms(1,2) by (simp add: run_main_eq Start_def Let_def split: option.split prod.split)
  have "finite_fleet (flag_world f w) cfg" using assms(3) by (simp add: finite_fleet_def login)
  from startCollection_returns [OF _ this] validateConfig_ok [OF assms(2)]
  obtain s e where s: "startCollection (flag_world f w) cfg ?s = Some (s, e)" by blast
  show ?thesis
  proof (cases e)
    case None
    with s have ok: "startCollection (flag_world f w) cfg ?s = Some (s, None)" by simp
    then have "ErrChanOpen s" using startCollection_frame [OF ok] by simp
    with eq ok have "run_main h w env f es l = ExitStatus 0 (Some ((stopCollection s)\<lparr>ErrChanOpen := False\<rparr>))"
      by (simp add: finish_open)
    with start_succeeds [OF ok] started_fleet(1) [OF ok] show ?thesis
      unfolding login by (simp add: stopCollection_def)
  next
    case (Some err)
    with s eq start_fails [of "flag_world f w" cfg ?s s err] show ?thesis unfolding login by auto
  qed
qed

lemma serving_no_panic:
  assumes "0 < GetCollectionInterval cfg"
    and "phase = Starting \<Longrightarrow> ServerCollector s = None \<and> \<not> LoopStarted s"
  shows "serving_run w cfg path phase es s \<noteq> None"
  using assms(2)
proof (induction es arbitrary: phase s)
  case (Cons e es)
  show ?case
  proof (cases e)
    case StartedUp
    have "\<not> loop_panics s'" if "startBackground w cfg s = Some s'" "phase = Starting" for s'
      using loop_panics_interval [OF that(1)] Cons.prems that(2) assms(1) by force
    with StartedUp Cons.IH [of Stuck] Cons.IH [of Looping] Cons.IH [of phase s] show ?thesis
      by (cases "phase = Starting") (simp_all split: option.split)
  next
    case (Ticked w')
    with Cons.IH [of Stuck] Cons.IH [of Looping] Cons.IH [of phase s] Cons.prems show ?thesis
      by (cases "phase = Looping") (simp_all split: option.split)
  next
    case (Reloaded w')
    with Cons.IH [of phase "fst (ReloadConfig (with_flags w w') path s)"] Cons.prems show ?thesis
      by (simp add: ReloadConfig_frame)
  qed
qed simp

text \<open>A serving process that has ended: status zero, a failed listener included, or the panic of the send.\<close>

lemma serve_ends:
  assumes "ErrChanOpen s" "ServerCollector s = None" "\<not> LoopStarted s"
    and "0 < GetCollectionInterval (GetConfig (SafeCfg s))" and "MainAt l = Ended" "StoppedBy l \<noteq> None"
  shows "if SendPanic l then serve h w path es l s = Crashed else \<exists>t. serve h w path es l s = ExitStatus 0 (Some t)"
proof -
  define s1 where "s1 = (case WatchConfigFile (h_watch h) path of Inl e \<Rightarrow> s | Inr watcher \<Rightarrow> SetConfigWatcher watcher s)"
  have s1: "ErrChanOpen s1" "ServerCollector s1 = None" "\<not> LoopStarted s1"
    using assms(1-3) by (simp_all add: s1_def SetConfigWatcher_def split: sum.split)
  obtain s2 where s2: "serving_run w (GetConfig (SafeCfg s)) path Starting es s1 = Some s2"
    using serving_no_panic [OF assms(4), of Starting s1 w path es] s1 by blast
  then have "ErrChanOpen s2" using serving_frame [OF s2] s1 by simp
  with s2 assms(5,6) show ?thesis by (simp add: serve_eq Let_def s1_def [symmetric] finish_open)
qed

lemma run_serving:
  assumes "\<not> FlagOnce f" and "validateConfig (run_env h env f) (w_files w) (FlagConfig f) = Inr cfg"
    and "\<forall>c. h_register h c = None" and "mux_routes (h_pattern_ok h) (URI (Server cfg)) \<noteq> None"
    and "0 < GetCollectionInterval cfg" and "MainAt l = Ended" "StoppedBy l \<noteq> None"
  shows "if SendPanic l then run_main h w env f es l = Crashed else \<exists>s. run_main h w env f es l = ExitStatus 0 (Some s)"
proof -
  let ?s = "initTracing h (flag_world f w) cfg (run_server h w env f cfg)"
  from assms(4) obtain mux where mux: "mux_routes (h_pattern_ok h) (URI (Server cfg)) = Some mux" by blast
  define s where "s = ?s\<lparr>Registry := [''collector'', ''build info collector''],
    HttpSrv := Some \<lparr>HttpAddr = GetServerAddress cfg, HttpRoutes = mux\<rparr>\<rparr>"
  have "Start h (flag_world f w) (run_server h w env f cfg) = Started s None"
    using assms(1,3) mux by (simp add: Start_def Let_def s_def)
  then have "run_main h w env f es l = serve h (flag_world f w) (FlagConfig f) es l s"
    using assms(1,2) by (simp add: run_main_eq)
  moreover have "ErrChanOpen s" "ServerCollector s = None" "\<not> LoopStarted s" "GetConfig (SafeCfg s) = cfg"
    by (simp_all add: s_def run_server_idle)
  ultimately show ?thesis using serve_ends [of s l] assms(5-7) by simp
qed

text \<open>A non-positive interval passes validation and crashes the process once the start-up has ended.\<close>

lemma startup_panics:
  assumes "ParseDuration (CollInterval (Collection cfg)) = Some d" and "d \<le> 0"
    and "a \<in> set (Arrays cfg)" and "login_ok w a" and "\<not> w_once w" and "config_ok cfg" and "finite_fleet w cfg"
  shows "\<exists>s'. startBackground w cfg s = Some s' \<and> loop_panics s'"
proof -
  have "\<exists>s' e. startCollection w cfg s = Some (s', e)" by (rule startCollection_returns) (rule assms)+
  then obtain s1 err where s1: "startCollection w cfg s = Some (s1, err)" by blast
  have "err = None" using start_fails [of w cfg s s1] s1 assms(3,4) by (cases err) auto
  with s1 started_collector [of w cfg s s1] assms(5) obtain coll where
    "ServerCollector s1 = Some coll" "Interval coll = GetCollectionInterval cfg" "LoopStarted s1" by auto
  moreover have "GetCollectionInterval cfg \<le> 0"
    using assms(1,2) by (simp add: GetCollectionInterval_def mustDuration_def)
  ultimately have "loop_panics (fst (initOTLP w cfg s1))"
    using initOTLP_collector [of w cfg s1] by (auto simp: loop_panics_def RunCollector_def split: option.split)
  with s1 \<open>err = None\<close> assms(5) show ?thesis by (simp add: startBackground_def)
qed

lemma serving_panics:
  "(\<And>s. \<exists>s'. startBackground w cfg s = Some s' \<and> loop_panics s') \<Longrightarrow> StartedUp \<in> set es \<Longrightarrow>
    serving_run w cfg path Starting es s = None"
proof (induction es arbitrary: s)
  case (Cons e es)
  obtain s' where "startBackground w cfg s = Some s'" "loop_panics s'" using Cons.prems(1) by blast
  with Cons show ?case by (cases e) auto
qed simp

lemma serve_zero_interval:
  assumes "ParseDuration (CollInterval (Collection (GetConfig (SafeCfg s)))) = Some d" and "d \<le> 0"
    and "a \<in> set (Arrays (GetConfig (SafeCfg s)))" and "login_ok w a" and "\<not> w_once w"
    and "config_ok (GetConfig (SafeCfg s))" and "finite_fleet w (GetConfig (SafeCfg s))" and "StartedUp \<in> set es"
  shows "serve h w path es l s = Crashed"
  using serving_panics [OF startup_panics [OF assms(1-7)] assms(8)] by (simp add: serve_eq Let_def)

text \<open>A metrics path that is one of the fixed ones is registered twice.\<close>

lemma Start_reserved_uri:
  assumes "URI (Server (GetConfig (SafeCfg s))) \<in> {''/health'', ''/livez'', ''/readyz''}" and "\<not> w_once w"
    and "\<forall>c. h_register h c = None"
  shows "Start h w s = StartPanic"
proof -
  have "URI (Server (GetConfig (SafeCfg s))) \<in> fst ` set fixed_routes" using assms(1) by (simp add: fixed_routes_def)
  from mux_routes_reserved [OF this] assms(2,3) show ?thesis by (simp add: Start_def Let_def)
qed

end
