(* ===== verification/Cycles.thy ===== *)
theory Cycles
  imports ServerFacts
begin

text \<open>
  A cycle in progress while a reload swaps the pool. \<open>collectAll\<close> copies the pool under the lock of the
  collector and then works on its copy; \<open>SetClients\<close> takes the same lock. A cycle is therefore cut into two
  steps, taking the pool and publishing the snapshot, and swaps may come between them; only one
  cycle is in progress at a time, since \<open>CollectOnce\<close> returns before \<open>Run\<close> starts and \<open>Run\<close> is one goroutine.
  The clients of a swapped-out pool stay usable: \<open>Close\<close> does nothing.

  Lemmas: without a swap in between, the two steps are \<open>CollectOnce\<close>; after a swap, one late snapshot of
  the old pool may still be published, and every cycle that takes its pool later shows the new one.
\<close>

record cycle_state =
  CycColl :: "(array_client, hook_state) collector"
  CycStore :: snapshot_store
  CycHook :: hook_state
  InFlight :: "(array_client list \<times> bool) option"

text \<open>
  The copy of a cycle in progress is kept with a flag, whether it is still the pool of the collector: then the
  versions its clients cache are also those of the collector's clients.
\<close>

datatype cycle_event = TakePool | Publish world | SwapPool "array_client list"

fun cycle_step :: "cycle_event \<Rightarrow> cycle_state \<Rightarrow> cycle_state option" where
  "cycle_step TakePool s =
    (case InFlight s of None \<Rightarrow> Some (s\<lparr>InFlight := Some (Clients (CycColl s), True)\<rparr>) | Some _ \<Rightarrow> None)"
| "cycle_step (Publish w) s =
    (case InFlight s of
       None \<Rightarrow> None
     | Some (clients, same) \<Rightarrow>
         do {
           (snap, clients) \<leftarrow> collectAll (w_order w) (world_ops w) (w_now w) clients;
           let coll = (if same then SetClients clients (CycColl s) else CycColl s);
           let st = StoreSnapshot snap (CycStore s);
           Some (s\<lparr>CycColl := coll, CycStore := st, CycHook := runOnCycle coll st (CycHook s), InFlight := None\<rparr>)
         })"
| "cycle_step (SwapPool clients) s =
    Some (s\<lparr>CycColl := SetClients clients (CycColl s), InFlight := map_option (\<lambda>(cs, _). (cs, False)) (InFlight s)\<rparr>)"

fun cycle_run :: "cycle_event list \<Rightarrow> cycle_state \<Rightarrow> cycle_state option" where
  "cycle_run [] s = Some s"
| "cycle_run (e # es) s = Option.bind (cycle_step e s) (cycle_run es)"

lemma uninterrupted_cycle:
  assumes "InFlight s = None"
  shows "cycle_run [TakePool, Publish w] s =
    map_option (\<lambda>(snap, coll, st, h). s\<lparr>CycColl := coll, CycStore := st, CycHook := h\<rparr>)
      (CollectOnce (w_order w) (world_ops w) (w_now w) (CycColl s) (CycStore s) (CycHook s))"
  using assms by (cases "collectAll (w_order w) (world_ops w) (w_now w) (Clients (CycColl s))")
    (auto simp: CollectOnce_def SetClients_def runOnCycle_def Let_def)

subsection \<open>What a reader sees\<close>

definition shown :: "cycle_state \<Rightarrow> string set" where
  "shown s = set (amap_keys (PerArray (LoadSnapshot (CycStore s))))"

definition pool_names :: "array_client list \<Rightarrow> string set" where
  "pool_names cs = ClientName ` set cs"

fun publishes :: "cycle_event \<Rightarrow> bool" where
  "publishes (Publish w) = True"
| "publishes _ = False"

fun swaps :: "cycle_event \<Rightarrow> bool" where
  "swaps (SwapPool cs) = True"
| "swaps _ = False"

lemma collectAll_names:
  assumes "collectAll (w_order w) (world_ops w) (w_now w) cs = Some (snap, cs')"
  shows "set (amap_keys (PerArray snap)) = pool_names cs" and "pool_names cs' = pool_names cs"
proof -
  note all = assms [unfolded world_ops_def]
  show "set (amap_keys (PerArray snap)) = pool_names cs"
    using ac.cycle_names [OF all] by (simp add: pool_names_def)
  show "pool_names cs' = pool_names cs"
    using arg_cong [OF ac.collectAll_keeps(1) [OF all], of set] by (simp add: pool_names_def)
qed

text \<open>The publishing step shows the pool that was taken and changes no names in the collector.\<close>

lemma publish_step:
  assumes "cycle_step (Publish w) s = Some t"
  obtains cs same where "InFlight s = Some (cs, same)" and "InFlight t = None" and "shown t = pool_names cs"
    and "pool_names (Clients (CycColl t)) = pool_names (if same then cs else Clients (CycColl s))"
proof -
  from assms obtain cs same snap cs' where f: "InFlight s = Some (cs, same)"
    and all: "collectAll (w_order w) (world_ops w) (w_now w) cs = Some (snap, cs')"
    by (auto simp: bind_eq_Some_conv split: option.splits)
  from assms f all have "InFlight t = None" "CycStore t = StoreSnapshot snap (CycStore s)"
    "Clients (CycColl t) = (if same then cs' else Clients (CycColl s))"
    by (auto simp: SetClients_def Let_def)
  with that [OF f] collectAll_names [OF all] show ?thesis
    by (simp add: shown_def snap_store.load_publish)
qed

text \<open>While the pool in flight and the pool of the collector have the same names, so has what is published.\<close>

lemma settled_run:
  assumes "cycle_run es s = Some t" and "\<not> list_ex swaps es"
    and "pool_names (Clients (CycColl s)) = N" and "\<And>cs b. InFlight s = Some (cs, b) \<Longrightarrow> pool_names cs = N"
  shows "shown t = (if list_ex publishes es then N else shown s)"
  using assms
proof (induction es arbitrary: s)
  case (Cons e es)
  then obtain u where u: "cycle_step e s = Some u" "cycle_run es u = Some t" by (auto simp: bind_eq_Some_conv)
  show ?case
  proof (cases e)
    case TakePool
    with u(1) have "InFlight u = Some (Clients (CycColl s), True)" "CycColl u = CycColl s" "shown u = shown s"
      by (auto simp: shown_def split: option.splits)
    with Cons.IH [OF u(2)] Cons.prems(2,3) TakePool show ?thesis by auto
  next
    case (Publish w)
    with u(1) have "cycle_step (Publish w) s = Some u" by simp
    then obtain cs b where "InFlight s = Some (cs, b)" "InFlight u = None" "shown u = pool_names cs"
      "pool_names (Clients (CycColl u)) = pool_names (if b then cs else Clients (CycColl s))"
      by (rule publish_step)
    with Cons.IH [OF u(2)] Cons.prems(2-4) Publish show ?thesis by auto
  qed (use Cons.prems(2) in simp)
qed simp

text \<open>From a swap on: the cycle in flight, if any, still publishes its own pool.\<close>

definition late_names :: "cycle_state \<Rightarrow> string set" where
  "late_names s = (case InFlight s of None \<Rightarrow> shown s | Some (cs, _) \<Rightarrow> pool_names cs)"

lemma swapped_run:
  assumes "cycle_run es (s\<lparr>CycColl := SetClients new c, InFlight := map_option (\<lambda>(cs, _). (cs, False)) f\<rparr>) = Some t"
    and "\<not> list_ex swaps es" and "InFlight s = f"
  shows "shown t =
    (if list_ex publishes (dropWhile (\<lambda>e. e \<noteq> TakePool) es) then pool_names new
     else if list_ex publishes es then late_names s else shown s)"
proof (cases es)
  case (Cons e rest)
  let ?s = "s\<lparr>CycColl := SetClients new c, InFlight := map_option (\<lambda>(cs, _). (cs, False)) f\<rparr>"
  from Cons assms(1) obtain u where u: "cycle_step e ?s = Some u" "cycle_run rest u = Some t"
    by (auto simp: bind_eq_Some_conv)
  have pool: "Clients (CycColl ?s) = new" by (simp add: SetClients_def)
  show ?thesis
  proof (cases e)
    case TakePool
    with u(1) have "InFlight ?s = None" by (auto split: option.splits)
    moreover have "shown ?s = shown s" by (simp add: shown_def)
    ultimately show ?thesis
      using settled_run [OF assms(1,2), of "pool_names new"] pool Cons TakePool by auto
  next
    case (Publish w)
    with u(1) have "cycle_step (Publish w) ?s = Some u" by simp
    then obtain cs b where f: "InFlight ?s = Some (cs, b)" and "InFlight u = None" "shown u = pool_names cs"
      and "pool_names (Clients (CycColl u)) = pool_names (if b then cs else Clients (CycColl ?s))"
      by (rule publish_step)
    moreover from f have "\<not> b" "late_names s = pool_names cs" using assms(3) by (auto simp: late_names_def)
    ultimately have "shown t = (if list_ex publishes rest then pool_names new else pool_names cs)"
      and none: "InFlight u = None"
      using settled_run [OF u(2), of "pool_names new"] assms(2) Cons pool by auto
    moreover have "list_ex publishes (dropWhile (\<lambda>e. e \<noteq> TakePool) rest) = list_ex publishes rest"
      using u(2) none assms(2) Cons by (cases rest; cases "hd rest") (auto simp: bind_eq_Some_conv)
    ultimately show ?thesis using Cons Publish \<open>late_names s = pool_names cs\<close> by simp
  qed (use Cons assms(2) in simp)
qed (use assms in \<open>auto simp: shown_def\<close>)

end
