(* ===== verification/Demo.thy ===== *)
theory Demo
  imports Races LifecycleFacts Cycles
begin

text \<open>
  A small fleet on which the witnesses evaluate the model: an array \<open>a\<close> with one appliance, a volume in
  a group, alerts and a drive, served by a PowerStoreOS 4.1; and an array \<open>b\<close> that cannot be reached.
\<close>

definition n64 :: "int \<Rightarrow> num" where "n64 i = Int64 i"

definition demo_volume :: volume where
  "demo_volume = Volume ''v1'' ''vol'' ''A1'' [VolumeGroup ''g1'' ''grp'' []]"

definition demo_alert :: "string \<Rightarrow> alert" where
  "demo_alert sev = \<lparr>Severity = sev, State = ''ACTIVE''\<rparr>"

definition demo_drive :: driveInfo where
  "demo_drive = \<lparr>DriveID = ''d1'', DriveName = ''drive'', DriveApplianceID = ''A1'', LifeCycleState = ''Healthy'',
     ExtraDetails = \<lparr>DriveWearLevel = None\<rparr>\<rparr>"

definition demo_perf :: "string \<Rightarrow> volume_perf" where
  "demo_perf i = \<lparr>ReadIops = n64 7, WriteIops = n64 0, TotalIops = n64 7, ReadBandwidth = n64 1, WriteBandwidth = n64 2,
     AvgReadLatency = n64 3, AvgWriteLatency = n64 4, AvgIoSize = n64 5, PerfVolumeID = i\<rparr>"

definition no_answer :: "err + 'a" where
  "no_answer = Inl (APIError 404)"

definition demo_gp :: gp_client where
  "demo_gp = \<lparr>
     gpGetCluster = Inr \<lparr>ClusterRecordID = ''C1''\<rparr>,
     gpGetVolumes = Inr [demo_volume],
     gpGetVolumeGroups = Inr [],
     gpGetNASServers = no_answer,
     gpListFS = no_answer,
     gpGetFCPorts = Inr [],
     gpGetEthPorts = no_answer,
     gpGetAlerts = (\<lambda>ps start q. Inr (Some (take (nat ps) (drop (nat start) [demo_alert ''Major'', demo_alert ''Odd''])))),
     gpGetAppliance = (\<lambda>i. Inr \<lparr>ApplianceID = i, ApplianceName = ''app'', ServiceTag = ''tag''\<rparr>),
     gpGetReplicationRules = no_answer,
     gpQuerySessions = (\<lambda>ep qp. no_answer),
     gpQueryDrives = (\<lambda>ep qp. Inr (take (nat (Limit qp)) (drop (nat (Offset qp)) [demo_drive]))),
     gpQueryWitnesses = (\<lambda>ep qp. no_answer),
     gpVolumeMirrorTransferRate = (\<lambda>i. no_answer),
     gpPerfByFileSystem = (\<lambda>i t. no_answer),
     gpPerfByVg = (\<lambda>i t. no_answer),
     gpSpaceByCluster = (\<lambda>i t. no_answer),
     gpPerfByAppliance = (\<lambda>i t. no_answer),
     gpSpaceByAppliance = (\<lambda>i t. no_answer),
     gpPerfByVolume = (\<lambda>i t. Inr [demo_perf i]),
     gpSoftwareVersion = Inr (Fin False 8598323 (- 21))\<rparr>"

definition down_gp :: gp_client where
  "down_gp = demo_gp\<lparr>gpGetCluster := Inl (Msg ''timeout'')\<rparr>"

definition demo_http :: "archive http_env" where
  "demo_http = \<lparr>new_request = (\<lambda>s. Inr \<lparr>URLPath = s, URLRedacted = s\<rparr>),
     default_transport = (\<lambda>req. Inl (Msg ''refused'')), tls_transport = (\<lambda>insecure req. Inl (Msg ''refused''))\<rparr>"

definition demo_fleet :: "string \<Rightarrow> gp_client" where
  "demo_fleet name = (if name = ''b'' then down_gp else demo_gp)"

definition demo_client :: "string \<Rightarrow> array_client" where
  "demo_client name = \<lparr>ClientName = name, ClientInterval = ''Five_Mins'', softwareVersion = [],
     ClientEndpoint = ''https://h/api/rest'', ClientUsername = ''u'', ClientPassword = ''p'', ClientInsecure = False,
     ClientTrace = False, maxConcurrency = 16\<rparr>"

definition demo_ops :: "array_client client_ops" where
  "demo_ops = array_ops (\<lambda>ks. ks) demo_http demo_fleet"

definition demo_array :: "string \<Rightarrow> array_config" where
  "demo_array name = \<lparr>ArrayName = name, Endpoint = ''https://h/api/rest'', Username = ''u'', Password = ''p'',
     PasswordFile = [], InsecureSkipVerify = NewEnvBool False, ArrayInterval = [], ArrayMaxConcurrency = 0\<rparr>"

definition demo_otel :: otel_export where
  "demo_otel = \<lparr>OtelEnabled = False, OtelEndpoint = [], OtelInsecure = False, OtelInterval = ''30s'', SamplingRate = zero64\<rparr>"

definition demo_config :: "string list \<Rightarrow> config" where
  "demo_config ns = \<lparr>
     Server = \<lparr>Host = ''0.0.0.0'', Port = ''9446'', URI = ''/metrics'', LogName = []\<rparr>,
     Collection = \<lparr>CollInterval = ''30s'', CollTimeout = ''20s'', CollMaxConcurrency = 0\<rparr>,
     OTelMetrics = demo_otel, OTelTracing = demo_otel, Arrays = map demo_array ns\<rparr>"

definition demo_files :: files where
  "demo_files = \<lparr>file_missing = (\<lambda>p. False), open_file = (\<lambda>p. Inr p),
     decode_yaml = (\<lambda>t. Inr (demo_config (split_on CHR '' '' t)))\<rparr>"

definition demo_world :: world where
  "demo_world = \<lparr>w_login = (\<lambda>e u p i. None), w_http = demo_http, w_gp = demo_fleet, w_now = (\<lambda>n. 1000),
     w_order = (\<lambda>ks. ks), w_otlp_new = (\<lambda>opts. None), w_gauge = (\<lambda>n. None), w_files = demo_files,
     w_once = False, w_trace = False, w_version = ''dev''\<rparr>"

text \<open>The same array when it serves the bulk archive: one CSV table with a snapshot and a volume.\<close>

definition demo_header :: "string list" where
  "demo_header = [''volume_id'', ''appliance_id'', ''avg_read_iops'', ''avg_write_iops'', ''avg_total_iops'',
     ''avg_read_bandwidth'', ''avg_write_bandwidth'', ''avg_read_latency'', ''avg_write_latency'', ''avg_io_size'']"

definition demo_cells :: "string list" where
  "demo_cells = [''v1'', ''A1'', ''7'', ''0'', ''7.0'', ''1'', ''2'', ''3'', ''4'', ''5'']"

definition demo_snapshot_cells :: "string list" where
  "demo_snapshot_cells = [''s1'', ''A1'', ''1'', ''1'', ''2'', ''1'', ''1'', ''1'', ''1'', ''1'']"

definition demo_tar :: archive where
  "demo_tar = Inr [Entry ''metrics/performance_metrics_by_volume.csv'' False
     (Inr (render_table [demo_header, demo_snapshot_cells, demo_cells]))]"

definition bulk_http :: "archive http_env" where
  "bulk_http = demo_http\<lparr>tls_transport := (\<lambda>insecure req. Inr \<lparr>StatusCode = 200, ContentType = [], Body = Inr demo_tar, CloseError = None\<rparr>)\<rparr>"

definition demo_topo :: topology where
  "demo_topo = NewTopology \<lparr>ClusterRecordID = ''C1''\<rparr> [] [demo_volume] [] [] [] [] []"

text \<open>The inventory of \<open>a\<close> with its appliance and its group.\<close>

definition demo_inventory :: topology where
  "demo_inventory = NewTopology \<lparr>ClusterRecordID = ''C1''\<rparr> [\<lparr>ApplianceID = ''A1'', ApplianceName = ''app'', ServiceTag = ''tag''\<rparr>]
     [demo_volume] [VolumeGroup ''g1'' ''grp'' []] [] [] [] []"

lemmas demo_defs = n64_def demo_volume_def demo_alert_def demo_drive_def demo_perf_def no_answer_def demo_gp_def
  down_gp_def demo_http_def demo_fleet_def demo_client_def demo_ops_def

lemma demo_finite: "finite_inventory (demo_fleet name)"
  by (simp add: finite_inventory_def, intro conjI ends_first)
    (simp_all add: full_page_def query_page_def alertPageSize_def drive_query_def
      witness_query_def session_query_def demo_defs)

lemma demo_table: "table_ok (''metrics/performance_metrics_by_volume.csv'', demo_header, [demo_cells])"
  by code_simp

lemma demo_archive:
  "parseBulkArchive demo_tar = Inr [''performance_metrics_by_volume.csv'' \<mapsto>
    [csv_row demo_header demo_snapshot_cells, csv_row demo_header demo_cells]]"
proof -
  have "list_all (\<lambda>r. r \<noteq> [] \<and> list_all plain_field r) (demo_header # [demo_snapshot_cells, demo_cells])" by code_simp
  from parseCSV_render [OF this]
  have "parseCSV (Inr (render_table [demo_header, demo_snapshot_cells, demo_cells])) =
      Inr [csv_row demo_header demo_snapshot_cells, csv_row demo_header demo_cells]"
    by simp
  moreover have "path_base ''metrics/performance_metrics_by_volume.csv'' = ''performance_metrics_by_volume.csv''"
    by code_simp
  ultimately show ?thesis by (simp add: parseBulkArchive_def demo_tar_def)
qed

lemma demo_row: "encodes_volume demo_topo (demo_perf ''v1'') (csv_row demo_header demo_cells)"
  by code_simp

lemma demo_rows:
  "inside ''volume_id'' [''v1''] [csv_row demo_header demo_snapshot_cells, csv_row demo_header demo_cells] =
    [csv_row demo_header demo_cells]"
  "outside ''volume_id'' [''v1''] [csv_row demo_header demo_snapshot_cells, csv_row demo_header demo_cells] =
    [csv_row demo_header demo_snapshot_cells]"
proof -
  have "idx (csv_row demo_header demo_snapshot_cells) ''volume_id'' = ''s1''"
    "idx (csv_row demo_header demo_cells) ''volume_id'' = ''v1''"
    by code_simp+
  then show "inside ''volume_id'' [''v1''] [csv_row demo_header demo_snapshot_cells, csv_row demo_header demo_cells] =
      [csv_row demo_header demo_cells]"
    "outside ''volume_id'' [''v1''] [csv_row demo_header demo_snapshot_cells, csv_row demo_header demo_cells] =
      [csv_row demo_header demo_snapshot_cells]"
    by (simp_all add: inside_def outside_def)
qed

lemma demo_topo_ids: "Appliances demo_topo = []" "map VolumeID (Volumes demo_topo) = [''v1'']"
  by (simp_all add: demo_topo_def demo_volume_def)

lemma demo_matches:
  "archive_matches demo_gp (demo_client ''a'') demo_topo [''performance_metrics_by_volume.csv'' \<mapsto>
    [csv_row demo_header demo_snapshot_cells, csv_row demo_header demo_cells]]"
proof -
  have reply: "gpPerfByVolume demo_gp ''v1'' t = Inr [demo_perf ''v1'']" for t by (simp add: demo_gp_def)
  have id: "PerfVolumeID (demo_perf ''v1'') = ''v1''" by (simp add: demo_perf_def)
  have "mset [csv_row demo_header demo_cells] = mset (inside ''volume_id'' [''v1'']
      [csv_row demo_header demo_snapshot_cells, csv_row demo_header demo_cells])"
    by (simp only: demo_rows)
  then have "table_matches (encodes_volume demo_topo) PerfVolumeID (\<lambda>i. gpPerfByVolume demo_gp i t) ''volume_id'' [''v1'']
      [csv_row demo_header demo_snapshot_cells, csv_row demo_header demo_cells]" for t
    unfolding table_matches_def
    by (intro conjI exI [of _ "[csv_row demo_header demo_cells]"])
      (simp_all add: reply newest_def demo_row id)
  then show ?thesis
    by (simp add: archive_matches_def demo_topo_ids file_rows_def table_matches_def [where ids = "[]"] inside_def)
qed

lemma demo_outside:
  "outside_samples (demo_client ''a'') demo_topo [''performance_metrics_by_volume.csv'' \<mapsto>
      [csv_row demo_header demo_snapshot_cells, csv_row demo_header demo_cells]] =
    deriveBulkVolumePerf ''a'' demo_topo [csv_row demo_header demo_snapshot_cells]"
proof -
  have "ClientName (demo_client ''a'') = ''a''" by (simp add: demo_client_def)
  then show ?thesis
    by (simp add: outside_samples_def Let_def demo_topo_ids file_rows_def demo_rows
        outside_def [where ids = "[]"] deriveBulkAppliancePerf_def deriveBulkApplianceSpace_def)
qed

lemma demo_config_ok: "config_ok (demo_config [''a'', ''b''])" "config_ok (demo_config [''a'', ''c''])"
proof -
  have "SetDefaults (demo_config ns) = demo_config ns" for ns
    by (simp add: SetDefaults_def or_default_def demo_config_def demo_otel_def)
  moreover have "snd (Validate (demo_config [''a'', ''b''])) = None" "snd (Validate (demo_config [''a'', ''c''])) = None"
    by code_simp+
  ultimately show "config_ok (demo_config [''a'', ''b''])" "config_ok (demo_config [''a'', ''c''])"
    by (metis Validate_ok)+
qed

lemma demo_world_ok: "world_ok demo_world"
  by (simp add: world_ok_def demo_world_def range_order_def)

definition demo_server :: server where
  "demo_server = NewServer (NewSafeConfig (demo_config [''a'', ''b'']) None) ''a b''"

lemma demo_server_ok: "server_ok demo_server"
  unfolding demo_server_def by (rule server_ok_New) (simp add: NewSafeConfig_def demo_config_ok)

lemma demo_boot: "run_actions [Boot demo_world] demo_server \<noteq> None"
  by code_simp

lemma demo_server_sel:
  "SafeCfg demo_server = \<lparr>C = demo_config [''a'', ''b''], resolver = None\<rparr>" "ServerClients demo_server = []"
  "GetConfig (SafeCfg demo_server) = demo_config [''a'', ''b'']"
  by (simp_all add: demo_server_def NewServer_def NewSafeConfig_def GetConfig_def)

lemma demo_load: "load_config (w_files demo_world) (SafeCfg demo_server) ''a c'' = Inr (demo_config [''a'', ''c''])"
proof -
  have "SetDefaults (demo_config [''a'', ''c'']) = demo_config [''a'', ''c'']"
    by (simp add: SetDefaults_def or_default_def demo_config_def demo_otel_def)
  with demo_config_ok(2) have "Validate (demo_config [''a'', ''c'']) = (demo_config [''a'', ''c''], None)"
    by (simp add: Validate_result)
  then show ?thesis by (simp add: load_config_def demo_world_def demo_files_def demo_server_sel)
qed

lemma demo_array_names: "map ArrayName (Arrays (demo_config ns)) = ns"
  by (simp add: demo_config_def demo_array_def comp_def)

lemma demo_name_set: "ArrayName ` set (Arrays (demo_config ns)) = set ns"
  by (simp only: demo_array_names flip: set_map)

lemma demo_names_differ:
  "ArrayName ` set (Arrays (GetConfig (SafeCfg demo_server))) \<noteq> ArrayName ` set (Arrays (demo_config [''a'', ''c'']))"
  unfolding demo_server_sel(3) demo_name_set by (simp add: doubleton_eq_iff)

lemma demo_logins: "map ArrayName (filter (login_ok demo_world) (Arrays (demo_config ns))) = ns"
proof -
  have "login_ok demo_world a" for a by (simp add: login_ok_def demo_world_def)
  then show ?thesis by (simp add: demo_array_names)
qed

subsection \<open>A host\<close>

definition demo_otel_lib :: otel_lib where
  "demo_otel_lib = \<lparr>trace_exporter_new = (\<lambda>opts. None), os_hostname = Inr ''h'', resource_new = (\<lambda>r. None),
     provider_shutdown = (\<lambda>p. None)\<rparr>"

definition demo_host :: host where
  "demo_host = \<lparr>h_otel = demo_otel_lib, h_register = (\<lambda>c. None), h_pattern_ok = (\<lambda>p. p \<noteq> []),
     h_log = \<lparr>mkdir_all = (\<lambda>d. None), open_log = (\<lambda>f. None)\<rparr>, h_stat = (\<lambda>p. Some (Msg p)),
     h_dotenv = (\<lambda>p env. Inr env), h_watch = \<lparr>new_watcher = None, add_watch = (\<lambda>d. None)\<rparr>,
     h_watcher_close = None, h_http_shutdown = None, h_otlp_shutdown = (\<lambda>e. None)\<rparr>"

definition demo_flags :: "bool \<Rightarrow> flags" where
  "demo_flags once = \<lparr>FlagConfig = ''a c'', FlagDebug = False, FlagOnce = once, FlagTrace = False\<rparr>"

text \<open>A configuration whose interval is zero, and one whose URI is the health path.\<close>

definition zero_config :: config where
  "zero_config = (demo_config [''a''])\<lparr>Collection := \<lparr>CollInterval = ''0s'', CollTimeout = ''20s'', CollMaxConcurrency = 0\<rparr>\<rparr>"

definition health_config :: config where
  "health_config = (demo_config [''a''])\<lparr>Server := \<lparr>Host = ''0.0.0.0'', Port = ''9446'', URI = ''/health'', LogName = []\<rparr>\<rparr>"

definition serve_config :: "config \<Rightarrow> server" where
  "serve_config cfg = NewServer (NewSafeConfig cfg None) ''a c''"

lemma serve_config_sel [simp]: "GetConfig (SafeCfg (serve_config cfg)) = cfg"
  by (simp add: serve_config_def NewServer_def NewSafeConfig_def GetConfig_def)

lemma demo_config_accepted:
  "config_ok zero_config" "config_ok health_config" "config_ok (demo_config [''c''])"
proof -
  have "SetDefaults zero_config = zero_config" "SetDefaults health_config = health_config"
    "SetDefaults (demo_config [''c'']) = demo_config [''c'']"
    by (simp_all add: SetDefaults_def or_default_def zero_config_def health_config_def demo_config_def demo_otel_def)
  moreover have "snd (Validate zero_config) = None" "snd (Validate health_config) = None"
    "snd (Validate (demo_config [''c''])) = None"
    by code_simp+
  ultimately show "config_ok zero_config" "config_ok health_config" "config_ok (demo_config [''c''])"
    by (metis Validate_ok)+
qed

lemma demo_login_ok: "login_ok demo_world a"
  by (simp add: login_ok_def demo_world_def)

lemma demo_fleet_finite: "finite_fleet demo_world cfg"
  by (simp add: finite_fleet_def list_all_iff demo_world_def demo_finite)

lemma case_Inr_ex: "(case r of Inl e \<Rightarrow> False | Inr x \<Rightarrow> P x) \<Longrightarrow> \<exists>x. r = Inr x \<and> P x"
  by (cases r) simp_all

lemma demo_run_config:
  "\<exists>cfg. validateConfig (run_env demo_host Map.empty (demo_flags once)) (w_files demo_world) (FlagConfig (demo_flags once)) = Inr cfg \<and>
     Arrays cfg \<noteq> [] \<and> 0 < GetCollectionInterval cfg \<and> mux_routes (h_pattern_ok demo_host) (URI (Server cfg)) \<noteq> None"
  by (rule case_Inr_ex, cases once) code_simp+

text \<open>A collector in the middle of a cycle.\<close>

definition demo_cycle :: cycle_state where
  "demo_cycle = \<lparr>CycColl = NewCollector [demo_client ''a''] 60 30 None, CycStore = NewSnapshotStore, CycHook = None,
     InFlight = Some ([demo_client ''a''], True)\<rparr>"

end
