(* ===== verification/Spec2Isabelle.thy ===== *)
theory Spec2Isabelle
  imports Demo Listener
begin

text \<open>
  A verification library for the PowerStore exporter, a Go program that polls Dell PowerStore arrays and
  publishes their metrics to Prometheus and over OTLP. The theories model its implementation under
  \<open>main.go\<close> and \<open>internal/\<close>; this one states the properties of the whole, C1 to C40 in the order of
  importance of the manifest, each right after the text that says it in words.

  \<^bold>\<open>The program.\<close> \<open>main\<close> loads \<open>.env\<close> and the configuration, resolves the secrets, validates, and starts
  a \<open>Server\<close>. A start-up goroutine builds one client per array, runs one collection cycle and starts
  the loop of the \<open>Collector\<close>. A cycle asks every client for its topology and its samples, by the bulk CSV
  archive where the array's version has it and entity by entity otherwise, builds an immutable
  \<open>Snapshot\<close> and stores it. Scrapes (\<open>PromCollector.Collect\<close>), \<open>/health\<close> and the OTLP callbacks only read the
  stored snapshot. SIGHUP and a file watcher reload the configuration and, if the array names
  changed, swap the client pool.

  \<^bold>\<open>Theories and code.\<close> Definitions carry the names of the code.
  \<^item> \<open>Prelude\<close>, \<open>GoFloat\<close>, \<open>GoText\<close>, \<open>GoParse\<close>, \<open>GoPath\<close>: the parts of Go and its library the code uses: errors,
    maps and the order of ranging over them, \<open>float64\<close> with correct rounding, \<open>strings\<close>, \<open>strconv\<close>,
    \<open>time.ParseDuration\<close>, \<open>path/filepath\<close>. \<open>Csv\<close>: \<open>encoding/csv\<close>.
  \<^item> \<open>Metrics\<close> (\<open>metrics.go\<close>), \<open>Topology\<close> (\<open>topology.go\<close>), \<open>Derive\<close> and \<open>DeriveFacts\<close> (\<open>derive_*.go\<close>), \<open>Schema\<close> (the
    metric names and label keys as a specification, from \<open>docs/metrics.md\<close>).
  \<^item> \<open>Http\<close> (\<open>trace_transport.go\<close>), \<open>Bulk\<close>, \<open>BulkFacts\<close> and \<open>FloatFacts\<close> (\<open>bulk.go\<close>, \<open>derive_bulk.go\<close>), \<open>Capability\<close>
    (\<open>capability.go\<close>), \<open>Paging\<close> and \<open>FanOut\<close> (the two loops of \<open>client.go\<close>), \<open>ArrayClient\<close> and \<open>ClientFacts\<close>
    (\<open>client.go\<close>, \<open>perentity.go\<close>).
  \<^item> \<open>Snapshot\<close> (\<open>snapshot.go\<close>), \<open>Collector\<close> and \<open>CollectorFacts\<close> (\<open>interface.go\<close>, \<open>collector.go\<close>), \<open>Prometheus\<close>
    (\<open>prometheus.go\<close>, \<open>buildinfo.go\<close>), \<open>Otlp\<close> (\<open>otlp.go\<close>), \<open>Telemetry\<close> (\<open>telemetry/manager.go\<close>, \<open>tracing.go\<close>).
  \<^item> \<open>Config\<close> and \<open>ConfigFacts\<close> (\<open>models/config.go\<close>), \<open>Secrets\<close> (\<open>utils/env.go\<close>), \<open>SafeConfig\<close>
    (\<open>models/safe_config.go\<close>, \<open>utils/file.go\<close>), \<open>Logging\<close> (\<open>logging.go\<close>, \<open>utils/dotenv.go\<close>), \<open>Watcher\<close>
    (\<open>config/watcher.go\<close>).
  \<^item> \<open>Server\<close> and \<open>ServerFacts\<close>, \<open>Lifecycle\<close> and \<open>LifecycleFacts\<close>, \<open>Races\<close>: \<open>main.go\<close>, respectively the methods of
    \<open>Server\<close> on their own, the process around them, and their interleavings. \<open>Listener\<close>: the goroutine of the HTTP
    server and the command, whose runs \<open>Lifecycle\<close> uses for the end of a serving process. \<open>Cycles\<close>: a cycle of \<open>collector.go\<close>
    in progress while the pool is swapped. \<open>Demo\<close>: the world the witnesses evaluate.

  \<^bold>\<open>State.\<close> \<open>server\<close> is the struct \<open>Server\<close>; \<open>collector\<close>, \<open>array_client\<close>, \<open>snapshot_store\<close>, \<open>snapshot\<close>,
  \<open>otlp_exporter\<close>, \<open>manager\<close>, \<open>safe_config\<close>, \<open>config\<close> and \<open>topology\<close> are the structs of those names. The mutable
  state of a client is its cached version, so operations that may set it return the client.
  Pointers are values; where the code shares an object (the clients of the server and of its
  collector) the operations update both places.

  \<^bold>\<open>Interfaces.\<close> Locales state what a component relies on: \<open>go_map\<close> and \<open>ranged_map\<close> (Go maps), \<open>publication\<close>
  (a store that shows what was published last), \<open>metric_client\<close> and \<open>total_client\<close> (the \<open>Client\<close> interface of
  the collector; \<open>ArrayClient\<close> is the instance), \<open>secret_resolver\<close> (the resolver a reload is given),
  \<open>reload_target\<close> (what SIGHUP handler and watcher call).

  \<^bold>\<open>Groups of lemmas.\<close> Every sample carries the labels of its array and cluster and conforms to the metric
  reference (C1), and those of a volume resolve to the inventory (C23); one array's failure stays its own
  (C4, C12, C13); the two paths publish the same samples (C3) and the version chooses between them (C31);
  pages and fan-outs are complete, bounded and end, whatever the schedule (C6, C7, C11, C21); archives are
  read back (C15), their numbers exported correctly rounded (C39), and tracing them tells no secret (C32);
  alerts are counted (C27); a snapshot is a partition of the samples, a scrape shows each series once
  and faithfully, an export observes each sample once (C5, C14, C16, C17, C28 to C30); validation and
  expansion meet their specifications (C8, C10, C26); every history of completed operations keeps the
  invariant of the server (C2, C24); reloads, signals and file events do what they announce, one at a time (C9, C18 to C20, C22, C25,
  C34), and what goes wrong when they overlap or fail (C36, C37); the end of the listener and the exit
  status (C33, C35); inputs that pass validation and still crash the process or change its meaning (C38, C40).

  \<^bold>\<open>Parameters.\<close> Code outside the repository is an argument: the SDK's client (\<open>gp_client\<close>, one reply per
  query), HTTP (\<open>http_env\<close>), gzip and tar (\<open>archive\<close>), YAML (\<open>files\<close>), logins, meters and providers
  of OpenTelemetry, the Prometheus registry and its check of label values, \<open>fsnotify\<close>, \<open>godotenv\<close>, the clock.
  Deadlines and cancellation show as error replies. The order in which Go ranges over a map is the
  parameter \<open>\<rho>\<close> (or \<open>w_order\<close>), any rearrangement (\<open>range_order\<close>). Texts of error messages are kept where
  the code branches on them or a property speaks of them, and abbreviated elsewhere.

  \<^bold>\<open>Bounds and termination.\<close> No fuel is used. The pagination loop is a partial function whose value \<open>None\<close> is a
  run that never ends; C6 and \<open>drives_return_iff\<close> say when it ends. The loops of the collector and the goroutines take the
  finite sequence of events they have received so far, and a serving process the events up to its stop
  (end of the start-up, ticks, reloads, in any order; the stop may come before the start-up has ended). Integers are unbounded where the code
  only compares or counts them; \<open>Atoi\<close> and \<open>ParseDuration\<close> have the 64-bit ranges, floats are exact binary64.

  \<^bold>\<open>Not modelled.\<close> The verbs \<open>%q\<close> and \<open>%v\<close> of \<open>fmt\<close> (parameters of \<open>dumpSamples\<close>); log lines other than those that are
  a result or decide one; the parsing of the command line (\<open>cobra\<close>, a parameter of \<open>run_command\<close>); the HTTP server
  of the library itself and the encoding of \<open>/health\<close> and \<open>/metrics\<close>; the TLS handshake; spans, which have no
  effect on the data; the embedded dashboards (\<open>internal/dashboards\<close> has no code). \<open>Races\<close> interleaves the lock
  sections of the start-up and of the reloads, \<open>Listener\<close> the end of the HTTP server, \<open>Cycles\<close> the swaps
  with a cycle in progress, \<open>FanOut\<close> the goroutines of a cycle as a whole each; the single requests of
  different arrays are not interleaved, since no array's client reads what another writes.
\<close>

section \<open>The collection cycle\<close>

text \<open>C1: Every sample a cycle publishes starts with the labels \<open>array\<close> and \<open>cluster_id\<close> of a polled
  array and of the cluster that answered for it in this cycle, and its name and label keys are
  those of the metric reference.\<close>

theorem cycle_samples_labelled:
  assumes "collectAll \<rho> (array_ops \<rho> http gpOf) now clients = Some (snap, clients')"
    and "s \<in> set (SamplesByName snap n)"
  shows "\<exists>c \<in> set clients. \<exists>cl. gpGetCluster (gpOf (ClientName c)) = Inr cl \<and>
    take 2 (Labels s) = [Label ''array'' (ClientName c), Label ''cluster_id'' (ClusterRecordID cl)] \<and>
    Name s = n \<and> metric_schema (Name s) = Some (map LName (Labels s))"
proof -
  from ac.cycle_samples [OF assms] obtain c topo where c: "c \<in> set clients"
    and topo: "GetTopology \<rho> (gpOf (ClientName c)) c = Some (Inr topo)"
    and s: "labelled (ClientName c) (ClusterID topo) s" "conforms s"
    by auto
  from assms(1) obtain rs where "snap = BuildSnapshot \<rho> (map Some rs)" by (rule ac.collectAll_results)
  with assms(2) have "Name s = n" by (simp add: SamplesByName_Build)
  with c s GetTopology_cluster [OF topo] show ?thesis
    by (auto simp: labelled_def conforms_def label_keys_def baseLabels_def)
qed

theorem cycle_samples_labelled_witness:
  "\<exists>snap cs. collectAll (\<lambda>ks. ks) (array_ops (\<lambda>ks. ks) demo_http demo_fleet) (\<lambda>_. 5) [demo_client ''a'', demo_client ''b''] = Some (snap, cs) \<and>
     SamplesByName snap ''powerstore_drive_state'' \<noteq> [] \<and>
     (\<forall>s \<in> set (SamplesByName snap ''powerstore_drive_state''). Name s = ''powerstore_drive_state'')"
proof -
  have "case collectAll (\<lambda>ks. ks) (array_ops (\<lambda>ks. ks) demo_http demo_fleet) (\<lambda>_. 5) [demo_client ''a'', demo_client ''b''] of
      None \<Rightarrow> False | Some (snap, cs) \<Rightarrow> SamplesByName snap ''powerstore_drive_state'' \<noteq> []"
    by code_simp
  then show ?thesis using cycle_samples_labelled by (auto split: option.splits) blast
qed

text \<open>C4: One array's failure does not affect the others: the snapshot of a cycle holds, for each
  polled array, the result of collecting that array alone, and it holds no other array.\<close>

theorem cycle_isolated:
  assumes "collectAll \<rho> (array_ops \<rho> http gpOf) now clients = Some (snap, clients')"
    and "distinct (map ClientName clients)"
  shows "amap_get (PerArray snap) a =
    (case find (\<lambda>c. ClientName c = a) clients of None \<Rightarrow> None
     | Some c \<Rightarrow> map_option fst (collectArray (array_ops \<rho> http gpOf) now c))"
proof (cases "find (\<lambda>c. ClientName c = a) clients")
  case None
  then have "a \<notin> set (amap_keys (PerArray snap))"
    using ac.cycle_names [OF assms(1)] by (auto simp: find_None_iff)
  then have "amap_get (PerArray snap) a = None"
    by (simp add: amap_keys_def amap_get_def map_of_eq_None_iff)
  with None show ?thesis by simp
next
  case (Some c)
  then have c: "c \<in> set clients" "ClientName c = a" by (auto simp: find_Some_iff)
  from ac.cycle_entries [OF assms(1) _ c(1)] assms(2) c Some show ?thesis by auto
qed

theorem cycle_isolated_witness:
  "\<exists>snap cs. collectAll (\<lambda>ks. ks) (array_ops (\<lambda>ks. ks) demo_http demo_fleet) (\<lambda>_. 5) [demo_client ''a'', demo_client ''b''] = Some (snap, cs) \<and>
     amap_get (PerArray snap) ''b'' = map_option fst (collectArray (array_ops (\<lambda>ks. ks) demo_http demo_fleet) (\<lambda>_. 5) (demo_client ''b''))"
proof -
  have "collectAll (\<lambda>ks. ks) (array_ops (\<lambda>ks. ks) demo_http demo_fleet) (\<lambda>_. 5) [demo_client ''a'', demo_client ''b''] \<noteq> None"
    by code_simp
  then obtain snap cs where
    e: "collectAll (\<lambda>ks. ks) (array_ops (\<lambda>ks. ks) demo_http demo_fleet) (\<lambda>_. 5) [demo_client ''a'', demo_client ''b''] = Some (snap, cs)"
    by auto
  from cycle_isolated [OF this, of "''b''"] have "amap_get (PerArray snap) ''b'' =
      map_option fst (collectArray (array_ops (\<lambda>ks. ks) demo_http demo_fleet) (\<lambda>_. 5) (demo_client ''b''))"
    by (simp add: demo_client_def)
  with e show ?thesis by blast
qed

text \<open>C6: A cycle ends: when the clients have a positive fan-out cap and every paged resource of
  their arrays has a page that is not full (or an error), \<open>collectAll\<close> returns a snapshot.\<close>

theorem cycle_ends:
  assumes "\<And>c. c \<in> set clients \<Longrightarrow> maxConcurrency c \<ge> 1 \<and> finite_inventory (gpOf (ClientName c))"
  shows "\<exists>snap clients'. collectAll \<rho> (array_ops \<rho> http gpOf) now clients = Some (snap, clients') \<and>
    map ClientName clients' = map ClientName clients"
proof -
  have "list_all (serving gpOf) clients"
    using assms by (simp add: list_all_iff serving_def client_ok_def)
  from ac.cycle_returns [OF this] obtain snap cs where "collectAll \<rho> (array_ops \<rho> http gpOf) now clients = Some (snap, cs)"
    by fastforce
  with ac.collectAll_keeps(1) [OF this] show ?thesis by auto
qed

theorem cycle_ends_witness:
  "\<exists>snap cs. collectAll rev (array_ops rev demo_http demo_fleet) (\<lambda>_. 5) [demo_client ''a'', demo_client ''b''] = Some (snap, cs) \<and>
     map ClientName cs = [''a'', ''b'']"
proof -
  have "map ClientName [demo_client ''a'', demo_client ''b''] = [''a'', ''b'']" by (simp add: demo_client_def)
  moreover have "maxConcurrency c \<ge> 1 \<and> finite_inventory (demo_fleet (ClientName c))"
    if "c \<in> set [demo_client ''a'', demo_client ''b'']" for c
    using that demo_finite by (auto simp: demo_client_def)
  note cycle_ends [of "[demo_client ''a'', demo_client ''b'']" demo_fleet rev demo_http "\<lambda>_. 5", OF this]
  ultimately show ?thesis by metis
qed

text \<open>C12: \<open>powerstore_up\<close> means that the cluster answered: for a client of a serving array the result is
  up exactly when the cluster query succeeded, whatever else failed; a result that is down
  carries the error and no samples.\<close>

theorem up_iff_cluster:
  assumes "collectArray (array_ops \<rho> http gpOf) now c = Some (as, c')"
  shows "(Up as \<longleftrightarrow> (\<exists>cl. gpGetCluster (gpOf (ClientName c)) = Inr cl)) \<and>
    (\<not> Up as \<longrightarrow> Samples as = [] \<and> ScrapeError as \<noteq> None)"
  using array_up [OF assms] ac.collect_sound [OF assms]
  by (cases "Up as") (simp_all add: ac.sound_result_def)

theorem up_iff_cluster_witness:
  "\<exists>as c'. collectArray (array_ops (\<lambda>ks. ks) demo_http demo_fleet) (\<lambda>_. 5) (demo_client ''b'') = Some (as, c') \<and>
     \<not> Up as \<and> Samples as = []"
proof -
  have "collectArray (array_ops (\<lambda>ks. ks) demo_http demo_fleet) (\<lambda>_. 5) (demo_client ''b'') \<noteq> None"
    by code_simp
  then obtain as c' where
    e: "collectArray (array_ops (\<lambda>ks. ks) demo_http demo_fleet) (\<lambda>_. 5) (demo_client ''b'') = Some (as, c')"
    by auto
  from up_iff_cluster [OF e] have "\<not> Up as" "Samples as = []" by (auto simp: demo_defs)
  with e show ?thesis by blast
qed

text \<open>C13: A failing bulk path is not a failing array: when the version says bulk but the archive
  cannot be had, the array is up with the samples of the per-entity path.\<close>

theorem bulk_fallback:
  assumes "GetTopology \<rho> (gpOf (ClientName c)) c = Some (Inr topo)"
    and "BulkCapable (gpOf (ClientName c)) c = (True, c')"
    and "BulkMetrics \<rho> http (gpOf (ClientName c)) c' topo = Some (Inl e)"
    and "PerEntityMetrics \<rho> (gpOf (ClientName c)) c' topo = Some (Inr ss)"
  shows "\<exists>as. collectArray (array_ops \<rho> http gpOf) now c = Some (as, c') \<and> Up as \<and> ScrapeError as = None \<and>
    IsBulkCapable as \<and> Samples as = ss"
proof -
  have name: "ClientName c' = ClientName c" using BulkCapable_keeps(1) [of "gpOf (ClientName c)" c] assms(2) by simp
  from ac.collect_fallback [of \<rho> http gpOf c topo c' e ss now] assms name obtain as where
    as: "collectArray (array_ops \<rho> http gpOf) now c = Some (as, c')" "Up as" "IsBulkCapable as" "Samples as = ss"
    by auto
  with ac.collect_sound [OF as(1)] show ?thesis by (auto simp: ac.sound_result_def)
qed

theorem bulk_fallback_witness:
  "\<exists>as c'. collectArray (array_ops (\<lambda>ks. ks) demo_http demo_fleet) (\<lambda>_. 5) (demo_client ''a'') = Some (as, c') \<and>
     Up as \<and> IsBulkCapable as"
proof -
  let ?gp = "demo_fleet (ClientName (demo_client ''a''))" and ?id = "\<lambda>ks :: string list. ks"
  obtain b c' where c': "BulkCapable ?gp (demo_client ''a'') = (b, c')" by force
  have "fst (BulkCapable ?gp (demo_client ''a''))" by code_simp
  with c' have b: "b = True" by simp
  have "client_ok (demo_client ''a'')" by (simp add: client_ok_def demo_client_def)
  from GetTopology_returns [OF this demo_finite] obtain t where t: "GetTopology ?id ?gp (demo_client ''a'') = Some t"
    by blast
  have "gpGetCluster ?gp = Inr \<lparr>ClusterRecordID = ''C1''\<rparr>" by (simp add: demo_defs)
  with GetTopology_error [of ?id ?gp "demo_client ''a''"] t obtain topo
    where topo: "GetTopology ?id ?gp (demo_client ''a'') = Some (Inr topo)"
    by (cases t) auto
  have ok: "client_ok c'" using BulkCapable_keeps(2) [of ?gp "demo_client ''a''"] c'
    by (simp add: client_ok_def demo_client_def)
  from PerEntityMetrics_returns [OF ok demo_finite] obtain ss where
    ss: "PerEntityMetrics ?id ?gp c' topo = Some (Inr ss)" by blast
  have bulk: "BulkMetrics ?id demo_http ?gp c' topo =
      Some (Inl (Wrap (''array '' @ ClientName c' @ '': bulk enable request'') (Msg ''refused'')))"
    by (simp add: client_endpoint_def BulkMetrics_def downloadBulkArchive_def bulkEnable_def demo_http_def bulk_client_def
        newTracingRoundTripper_def RoundTrip_def Let_def)
  from bulk_fallback [where gpOf = demo_fleet and c = "demo_client ''a''" and now = "\<lambda>_. 5",
      OF topo c' [unfolded b] bulk ss] show ?thesis by blast
qed

section \<open>The two export paths\<close>

text \<open>C3: The bulk path and the per-entity path publish the same samples. The archive can be downloaded and parsed,
  the per-entity path returns its samples, and they answer alike: the replies to a query for an entity carry only its id, and in each of the three tables the rows about the inventory's
  entities are, in any order, one row for each entity that is answered with data, encoding the newest
  response: the same id, and in every column the field's value (a volume without an appliance has
  none in its row either). Then \<open>BulkMetrics\<close> succeeds with the samples of \<open>PerEntityMetrics\<close>, with
  names, labels, values and multiplicities, and beyond them only the samples of the rows about
  entities the inventory does not have, such as snapshots and clones.\<close>

theorem paths_agree:
  assumes "range_order \<rho>"
    and "downloadBulkArchive http (client_endpoint c) = Inr archive" and "parseBulkArchive archive = Inr files"
    and "archive_matches gp c topo files"
    and "PerEntityMetrics \<rho> gp c topo = Some (Inr ss)"
  shows "\<exists>bs. BulkMetrics \<rho> http gp c topo = Some (Inr bs) \<and> mset bs = mset ss + mset (outside_samples c topo files)"
  using paths_parity [OF assms] .

theorem paths_agree_witness:
  "\<exists>bs ss. BulkMetrics rev bulk_http demo_gp (demo_client ''a'') demo_topo = Some (Inr bs) \<and>
     PerEntityMetrics rev demo_gp (demo_client ''a'') demo_topo = Some (Inr ss) \<and>
     mset bs = mset ss + mset (deriveBulkVolumePerf ''a'' demo_topo [csv_row demo_header demo_snapshot_cells])"
proof -
  have dl: "downloadBulkArchive bulk_http (client_endpoint (demo_client ''a'')) = Inr demo_tar"
    by (simp add: downloadBulkArchive_def bulkEnable_def bulkDownload_def bulk_http_def demo_http_def
        bulk_client_def client_endpoint_def demo_client_def)
  have "client_ok (demo_client ''a'')" by (simp add: client_ok_def demo_client_def)
  from PerEntityMetrics_returns [OF this, of demo_gp rev demo_topo] demo_finite [of "''a''"]
  obtain ss where "PerEntityMetrics rev demo_gp (demo_client ''a'') demo_topo = Some (Inr ss)"
    by (auto simp: demo_fleet_def)
  with paths_agree [OF range_order_rev dl demo_archive demo_matches] show ?thesis by (simp only: demo_outside) blast
qed

text \<open>C15: An archive written from tables of plain fields is read back: under the base name of each file
  is its last table, with one row per record in order, and in a row a column has exactly the value of the
  record's field at the last position of the header with that name that the record reaches. Under any
  other name there is nothing.\<close>

theorem archive_roundtrip:
  assumes "list_all table_ok tables"
  shows "\<exists>files. parseBulkArchive (Inr (map table_entry tables)) = Inr files \<and>
    (\<forall>n. case map_of (rev (map (\<lambda>(name, header, recs). (path_base name, header, recs)) tables)) n of
        None \<Rightarrow> files n = None
      | Some (header, recs) \<Rightarrow> \<exists>rows. files n = Some rows \<and> length rows = length recs \<and>
          (\<forall>i < length recs. \<forall>col v. (rows ! i) col = Some v \<longleftrightarrow>
            (\<exists>j < length header. j < length (recs ! i) \<and> header ! j = col \<and> recs ! i ! j = v \<and>
              (\<forall>k. j < k \<longrightarrow> k < length header \<longrightarrow> k < length (recs ! i) \<longrightarrow> header ! k \<noteq> col))))"
proof (intro exI conjI allI)
  let ?files = "map_of (rev (map (\<lambda>(name, header, recs). (path_base name, map (csv_row header) recs)) tables))"
  show "parseBulkArchive (Inr (map table_entry tables)) = Inr ?files"
    using parse_entries_readable [OF readable_rendered [OF assms], of Map.empty] tar_tables_rendered [OF assms]
    by (simp add: parseBulkArchive_def)
  fix n
  show "case map_of (rev (map (\<lambda>(name, header, recs). (path_base name, header, recs)) tables)) n of
      None \<Rightarrow> ?files n = None
    | Some (header, recs) \<Rightarrow> \<exists>rows. ?files n = Some rows \<and> length rows = length recs \<and>
        (\<forall>i < length recs. \<forall>col v. (rows ! i) col = Some v \<longleftrightarrow>
          (\<exists>j < length header. j < length (recs ! i) \<and> header ! j = col \<and> recs ! i ! j = v \<and>
            (\<forall>k. j < k \<longrightarrow> k < length header \<longrightarrow> k < length (recs ! i) \<longrightarrow> header ! k \<noteq> col)))"
    by (simp add: last_table csv_row_cell split: option.split prod.split)
qed

theorem archive_roundtrip_witness:
  "\<exists>files row. parseBulkArchive (Inr (map table_entry
       [(''metrics/performance_metrics_by_volume.csv'', demo_header, [demo_snapshot_cells, demo_cells])])) = Inr files \<and>
     (\<exists>first. files ''performance_metrics_by_volume.csv'' = Some [first, row]) \<and>
     row ''volume_id'' = Some ''v1'' \<and> row ''avg_io_size'' = Some ''5'' \<and> row ''unknown'' = None"
proof -
  let ?t = "(''metrics/performance_metrics_by_volume.csv'', demo_header, [demo_snapshot_cells, demo_cells])"
  have "list_all table_ok [?t]" by code_simp
  from archive_roundtrip [OF this] obtain files where files: "parseBulkArchive (Inr (map table_entry [?t])) = Inr files"
    and each: "\<And>n. case map_of (rev (map (\<lambda>(name, header, recs). (path_base name, header, recs)) [?t])) n of
        None \<Rightarrow> files n = None
      | Some (header, recs) \<Rightarrow> \<exists>rows. files n = Some rows \<and> length rows = length recs \<and>
          (\<forall>i < length recs. \<forall>col v. (rows ! i) col = Some v \<longleftrightarrow>
            (\<exists>j < length header. j < length (recs ! i) \<and> header ! j = col \<and> recs ! i ! j = v \<and>
              (\<forall>k. j < k \<longrightarrow> k < length header \<longrightarrow> k < length (recs ! i) \<longrightarrow> header ! k \<noteq> col)))"
    by blast
  have "map_of (rev (map (\<lambda>(name, header, recs). (path_base name, header, recs)) [?t])) ''performance_metrics_by_volume.csv'' =
      Some (demo_header, [demo_snapshot_cells, demo_cells])"
    by code_simp
  with each [of "''performance_metrics_by_volume.csv''"] obtain rows where
    rows: "files ''performance_metrics_by_volume.csv'' = Some rows" "length rows = 2"
    and cell: "\<And>col v. (rows ! 1) col = Some v \<longleftrightarrow>
      (\<exists>j < length demo_header. j < length demo_cells \<and> demo_header ! j = col \<and> demo_cells ! j = v \<and>
        (\<forall>k. j < k \<longrightarrow> k < length demo_header \<longrightarrow> k < length demo_cells \<longrightarrow> demo_header ! k \<noteq> col))"
    by (auto simp: less_Suc_eq)
  have "distinct demo_header" "length demo_header = 10" "length demo_cells = 10" by code_simp+
  note cell = cell [unfolded this(2,3)] and distinct = this
  have other: "demo_header ! k \<noteq> demo_header ! j" if "j < k" "k < 10" for j k
    using distinct that by (simp add: nth_eq_iff_index_eq)
  have "(rows ! 1) (demo_header ! 0) = Some (demo_cells ! 0)" "(rows ! 1) (demo_header ! 9) = Some (demo_cells ! 9)"
    unfolding cell using other [of 0] by (intro exI [of _ "0::nat"] conjI, simp_all, intro exI [of _ "9::nat"] conjI, simp_all)
  moreover have "''unknown'' \<notin> set demo_header" by code_simp
  then have "(rows ! 1) ''unknown'' = None"
    using cell [of "''unknown''"] distinct(2) by (metis nth_mem option.exhaust)
  moreover obtain first row where "rows = [first, row]"
    using rows(2) by (metis (no_types, lifting) One_nat_def Suc_1 Suc_length_conv length_0_conv)
  moreover have "demo_header ! 0 = ''volume_id''" "demo_header ! 9 = ''avg_io_size''" "demo_cells ! 0 = ''v1''" "demo_cells ! 9 = ''5''"
    by code_simp+
  ultimately show ?thesis using files rows(1) by auto
qed

section \<open>Pagination and fan-out\<close>

text \<open>C7: No alert is dropped: against a server that serves the active alerts in pages of the requested
  size, \<open>collectActiveAlerts\<close> returns all of them, in order, however many there are.\<close>

theorem alerts_complete:
  assumes "pageSize > 0"
    and "\<And>start. start \<ge> 0 \<Longrightarrow> get pageSize start [(''state'', ''eq.ACTIVE'')] =
      Inr (Some (take (nat pageSize) (drop (nat start) served)))"
  shows "collectActiveAlerts get pageSize = Some (Inr served)"
  unfolding collectActiveAlerts_def
  by (rule page_loop_served) (use assms in \<open>simp_all add: serves_def\<close>)

theorem alerts_complete_witness:
  "collectActiveAlerts (\<lambda>ps start q. Inr (Some (take (nat ps) (drop (nat start)
     [demo_alert ''Major'', demo_alert ''Minor'', demo_alert ''Major''])))) 2 =
   Some (Inr [demo_alert ''Major'', demo_alert ''Minor'', demo_alert ''Major''])"
  by (rule alerts_complete) simp_all

text \<open>C11: The results are those of every schedule of the goroutines. The value of \<open>parallelSamples\<close> is the
  concatenation of the slots, in item order, of the runs that end, and it blocks exactly when no run ends; and a
  cycle publishes the snapshot of what the goroutines of the arrays have left in their slots, in whatever
  order they run and finish.\<close>

theorem fan_out_schedules:
  "(parallelSamples items limit fn = Some ss \<longleftrightarrow>
      (\<exists>s. (fan_step limit fn items)\<^sup>*\<^sup>* (fan_start [] items) s \<and> fan_done items s \<and> concat (Per s) = ss)) \<and>
    (collectAll \<rho> ops now clients = Some (snap, clients') \<longleftrightarrow>
      (\<exists>s rs. (fan_step (- 1) (collectArray ops now) clients)\<^sup>*\<^sup>* (fan_start None clients) s \<and> fan_done clients s \<and>
        those (Per s) = Some rs \<and> snap = BuildSnapshot \<rho> (map (Some \<circ> fst) rs) \<and> clients' = map snd rs))"
proof -
  have p: "parallelSamples items limit fn = map_option concat (fan_out limit fn items)"
    by (simp add: parallelSamples_def fan_out_def)
  have c: "collectAll \<rho> ops now clients = Some (snap, clients') \<longleftrightarrow>
      (\<exists>slots rs. fan_out (- 1) (collectArray ops now) clients = Some slots \<and> those slots = Some rs \<and>
        snap = BuildSnapshot \<rho> (map (Some \<circ> fst) rs) \<and> clients' = map snd rs)"
    by (auto simp: collectAll_def bind_eq_Some_conv)
  show ?thesis unfolding p c
    using fan_out_runs [of limit fn items _ "[]"] fan_out_runs [of "- 1" "collectArray ops now" clients _ None]
    by (auto simp: map_option_eq_Some)
qed

text \<open>C21: The fan-out is bounded and finishes: with a limit of at least one, no schedule ever has more
  goroutines running than the limit or starts an item twice, a run that is not finished can go on, and
  every run takes at most two steps per item, exactly that many when it is finished.\<close>

theorem fan_out_bounded:
  assumes "(fan_step limit fn items ^^ k) (fan_start blank items) s" and "limit \<ge> 1"
  shows "int (length (Running s)) \<le> limit \<and> distinct (Running s) \<and> set (Running s) \<subseteq> {..<length items} \<and>
    k \<le> 2 * length items \<and> (fan_done items s \<longleftrightarrow> k = 2 * length items) \<and>
    (fan_done items s \<or> (\<exists>t. fan_step limit fn items s t))"
proof -
  have inv: "fan_inv limit fn items s"
    using assms(1) by (intro fan_inv_reachable) (rule relpowp_imp_rtranclp)
  from fan_left_run [OF assms(1)] have "2 * length items = k + fan_left items s"
    by (simp add: fan_left_start)
  moreover have "fan_done items s \<or> (\<exists>t. fan_step limit fn items s t)"
    using fan_progress [OF _ inv] assms(2) by fastforce
  ultimately show ?thesis using fan_left_done [OF inv] inv assms(2) by (auto simp: fan_inv_def)
qed

theorem fan_out_bounded_witness:
  "\<exists>s t. (fan_step 1 dec [3 :: int, 4] ^^ 1) (fan_start [] [3 :: int, 4]) s \<and> Running s = [0] \<and>
     int (length (Running s)) \<le> 1 \<and> \<not> fan_done [3 :: int, 4] s \<and> fan_step 1 dec [3 :: int, 4] s t"
proof -
  let ?s = "\<lparr>Next = 1, Running = [0], Per = [[], []]\<rparr> :: string fan"
  have "fan_step 1 dec [3 :: int, 4] (fan_start [] [3 :: int, 4]) ?s"
    using fan_step.launch [of "fan_start [] [3, 4]" "[3 :: int, 4]" 1 dec] by (simp add: fan_start_def admits_def)
  then have r: "(fan_step 1 dec [3 :: int, 4] ^^ 1) (fan_start [] [3 :: int, 4]) ?s" by auto
  have "\<not> fan_done [3 :: int, 4] ?s" by (simp add: fan_done_def)
  with fan_out_bounded [OF r] obtain t where "fan_step 1 dec [3 :: int, 4] ?s t" by auto
  with fan_out_bounded [OF r] r \<open>\<not> fan_done [3 :: int, 4] ?s\<close> show ?thesis by (intro exI [of _ ?s] exI [of _ t]) simp
qed

section \<open>Publication\<close>

text \<open>C16: The snapshot loses no sample and shows none twice: its metric names are distinct, they are
  the names of the collected samples, and reading it name by name gives the collected samples.\<close>

theorem snapshot_partition:
  assumes "range_order \<rho>"
  shows "distinct (MetricNames (BuildSnapshot \<rho> arrays)) \<and>
    set (MetricNames (BuildSnapshot \<rho> arrays)) = Name ` set (collected arrays) \<and>
    mset (concat (map (SamplesByName (BuildSnapshot \<rho> arrays)) (MetricNames (BuildSnapshot \<rho> arrays)))) =
      mset (collected arrays)"
  using MetricNames_Build [OF assms, of arrays] snapshot_complete [OF assms, of arrays] by simp

theorem snapshot_partition_witness:
  "let arrays = [None, Some ((down ''a'' 5)\<lparr>Samples := deriveBulkVolumePerf ''a'' demo_topo [csv_row demo_header demo_cells]\<rparr>)]
   in length (MetricNames (BuildSnapshot rev arrays)) = 8 \<and> distinct (MetricNames (BuildSnapshot rev arrays))"
proof -
  have "let arrays = [None, Some ((down ''a'' 5)\<lparr>Samples := deriveBulkVolumePerf ''a'' demo_topo [csv_row demo_header demo_cells]\<rparr>)]
    in length (MetricNames (BuildSnapshot rev arrays)) = 8"
    by code_simp
  with snapshot_partition [OF range_order_rev] show ?thesis by (simp add: Let_def)
qed

text \<open>C5: A scrape never contains one series twice, whatever has happened to the server before it:
  the metric name and the label values of the metrics of \<open>Collect\<close> are distinct.\<close>

theorem scrape_no_duplicates:
  assumes "config_ok cfg" and "list_all action_ok actions"
    and "run_actions actions (NewServer (NewSafeConfig cfg res) path) = Some s"
    and "range_order \<rho>" and "Collect \<rho> accepts (StoreOf s) = Some ms"
  shows "distinct (map (\<lambda>m. (MetricName m, LabelValues m)) ms)"
proof -
  have "server_ok (NewServer (NewSafeConfig cfg res) path)"
    using assms(1) by (intro server_ok_New) (simp add: NewSafeConfig_def)
  from run_actions_ok [OF this assms(2,3)] have "store_ok (StoreOf s)" by (simp add: server_ok_def)
  from scrape_distinct [OF this assms(4,5)] show ?thesis by (simp add: series_def [abs_def])
qed

theorem scrape_no_duplicates_witness:
  "\<exists>s ms. run_actions [Boot demo_world] demo_server = Some s \<and> Collect rev (\<lambda>n ls vs. True) (StoreOf s) = Some ms \<and>
     distinct (map (\<lambda>m. (MetricName m, LabelValues m)) ms)"
proof -
  have "case run_actions [Boot demo_world] demo_server of None \<Rightarrow> False
    | Some s \<Rightarrow> Collect rev (\<lambda>n ls vs. True) (StoreOf s) \<noteq> None"
    by code_simp
  then obtain s ms where s: "run_actions [Boot demo_world] demo_server = Some s"
    "Collect rev (\<lambda>n ls vs. True) (StoreOf s) = Some ms"
    by (auto split: option.splits)
  from scrape_no_duplicates [OF demo_config_ok(1) _ s(1) [unfolded demo_server_def] range_order_rev s(2)]
  have "distinct (map (\<lambda>m. (MetricName m, LabelValues m)) ms)" by (simp add: demo_world_ok)
  with s show ?thesis by blast
qed

text \<open>C14: A scrape shows the snapshot: every metric of \<open>Collect\<close> that is not a health metric is a sample
  of the published snapshot under the same name, with the same value and the same label pairs.\<close>

theorem scrape_faithful:
  assumes "config_ok cfg" and "list_all action_ok actions"
    and "run_actions actions (NewServer (NewSafeConfig cfg res) path) = Some s"
    and "range_order \<rho>" and "Collect \<rho> accepts (StoreOf s) = Some ms"
    and "m \<in> set ms" and "MetricName m \<notin> {up_name, last_scrape_name, bulk_api_name}"
  shows "\<exists>x \<in> set (SamplesByName (LoadSnapshot (StoreOf s)) (MetricName m)). MetricValue m = Value x \<and>
    zip (LabelNames m) (LabelValues m) = map (\<lambda>l. (LName l, LValue l)) (Labels x)"
proof -
  have "server_ok (NewServer (NewSafeConfig cfg res) path)"
    using assms(1) by (intro server_ok_New) (simp add: NewSafeConfig_def)
  from run_actions_ok [OF this assms(2,3)] have "store_ok (StoreOf s)" by (simp add: server_ok_def)
  with scrape_from_sample [OF _ assms(4,5,6)] assms(7) show ?thesis by (simp add: is_health_def)
qed

theorem scrape_faithful_witness:
  "\<exists>s ms m. run_actions [Boot demo_world] demo_server = Some s \<and> Collect rev (\<lambda>n ls vs. True) (StoreOf s) = Some ms \<and>
     m \<in> set ms \<and> MetricName m = ''powerstore_drive_state'' \<and>
     SamplesByName (LoadSnapshot (StoreOf s)) ''powerstore_drive_state'' \<noteq> []"
proof -
  have "case run_actions [Boot demo_world] demo_server of None \<Rightarrow> False
    | Some s \<Rightarrow> (case Collect rev (\<lambda>n ls vs. True) (StoreOf s) of None \<Rightarrow> False
        | Some ms \<Rightarrow> list_ex (\<lambda>m. MetricName m = ''powerstore_drive_state'') ms)"
    by code_simp
  then obtain s ms m where s: "run_actions [Boot demo_world] demo_server = Some s"
    "Collect rev (\<lambda>n ls vs. True) (StoreOf s) = Some ms" and m: "m \<in> set ms" "MetricName m = ''powerstore_drive_state''"
    by (auto simp: list_ex_iff split: option.splits)
  have "MetricName m \<notin> {up_name, last_scrape_name, bulk_api_name}"
    by (simp add: m(2) up_name_def last_scrape_name_def bulk_api_name_def)
  from scrape_faithful [OF demo_config_ok(1) _ s(1) [unfolded demo_server_def] range_order_rev s(2) m(1) this] m(2)
  have "SamplesByName (LoadSnapshot (StoreOf s)) ''powerstore_drive_state'' \<noteq> []"
    by (auto simp: demo_world_ok)
  with s m show ?thesis by blast
qed

text \<open>C29: The duplicate filter of \<open>Collect\<close> does what it is for: on samples of one name whose label values
  contain no NUL, it emits exactly the first sample of each label tuple, in order.\<close>

theorem first_of_each_tuple:
  assumes "list_all clean ss" and "\<And>s. s \<in> set ss \<Longrightarrow> length (Labels s) = k"
  shows "emit_samples accepts name ls [] ss =
    map (sample_metric name ls) (filter (\<lambda>s. accepts name ls (sampleLabelValues s)) (keep_first sampleLabelValues ss))"
  by (rule emit_samples_spec) (use assms in simp_all)

theorem first_of_each_tuple_witness:
  "let s = Sample ''n'' [Label ''array'' ''a''] one64; t = Sample ''n'' [Label ''array'' ''b''] zero64
   in emit_samples (\<lambda>n ls vs. True) ''n'' [''array''] [] [s, t, s\<lparr>Value := zero64\<rparr>] =
     [sample_metric ''n'' [''array''] s, sample_metric ''n'' [''array''] t]"
  unfolding Let_def
  by (subst first_of_each_tuple [where k = 1]) (auto simp: clean_def NUL_def sampleLabelValues_def)

text \<open>C28: For every array of the published snapshot a scrape has exactly these health metrics: \<open>powerstore_up\<close> with
  its state, \<open>powerstore_array_bulk_api\<close> with the detected capability, and the time of the
  collection exactly when it is up and has one.\<close>

theorem health_complete:
  assumes "config_ok cfg" and "list_all action_ok actions"
    and "run_actions actions (NewServer (NewSafeConfig cfg res) path) = Some s"
    and "range_order \<rho>" and "Collect \<rho> accepts (StoreOf s) = Some ms"
    and "amap_get (PerArray (LoadSnapshot (StoreOf s))) a = Some as"
  shows "(\<forall>m. m \<in> set ms \<and> MetricName m = up_name \<and> LabelValues m = [a] \<longleftrightarrow>
      m = \<lparr>MetricName = up_name, LabelNames = [''array''], LabelValues = [a], MetricValue = b2f (Up as)\<rparr>) \<and>
    (\<forall>m. m \<in> set ms \<and> MetricName m = bulk_api_name \<and> LabelValues m = [a] \<longleftrightarrow>
      m = \<lparr>MetricName = bulk_api_name, LabelNames = [''array''], LabelValues = [a], MetricValue = b2f (IsBulkCapable as)\<rparr>) \<and>
    (\<forall>m. m \<in> set ms \<and> MetricName m = last_scrape_name \<and> LabelValues m = [a] \<longleftrightarrow>
      (\<exists>t. Up as \<and> LastScrape as = Some t \<and>
        m = \<lparr>MetricName = last_scrape_name, LabelNames = [''array''], LabelValues = [a], MetricValue = of_int64 t\<rparr>))"
proof -
  have "server_ok (NewServer (NewSafeConfig cfg res) path)"
    using assms(1) by (intro server_ok_New) (simp add: NewSafeConfig_def)
  from run_actions_ok [OF this assms(2,3)] have "store_ok (StoreOf s)" by (simp add: server_ok_def)
  from health_exact [OF this assms(4,5,6)] show ?thesis by blast
qed

theorem health_complete_witness:
  "\<exists>s ms. run_actions [Boot demo_world] demo_server = Some s \<and> Collect rev (\<lambda>n ls vs. True) (StoreOf s) = Some ms \<and>
     \<lparr>MetricName = up_name, LabelNames = [''array''], LabelValues = [''b''], MetricValue = zero64\<rparr> \<in> set ms \<and>
     \<lparr>MetricName = last_scrape_name, LabelNames = [''array''], LabelValues = [''a''], MetricValue = of_int64 1000\<rparr> \<in> set ms \<and>
     (\<forall>m \<in> set ms. MetricName m = last_scrape_name \<longrightarrow> LabelValues m \<noteq> [''b''])"
proof -
  have "case run_actions [Boot demo_world] demo_server of None \<Rightarrow> False
    | Some s \<Rightarrow> Collect rev (\<lambda>n ls vs. True) (StoreOf s) \<noteq> None \<and>
        (case amap_get (PerArray (LoadSnapshot (StoreOf s))) ''b'' of None \<Rightarrow> False | Some as \<Rightarrow> \<not> Up as) \<and>
        (case amap_get (PerArray (LoadSnapshot (StoreOf s))) ''a'' of None \<Rightarrow> False
         | Some as \<Rightarrow> LastScrape as = Some 1000 \<and> Up as)"
    by code_simp
  then obtain s ms as bs where s: "run_actions [Boot demo_world] demo_server = Some s"
    "Collect rev (\<lambda>n ls vs. True) (StoreOf s) = Some ms"
    and bs: "amap_get (PerArray (LoadSnapshot (StoreOf s))) ''b'' = Some bs" "\<not> Up bs"
    and as: "amap_get (PerArray (LoadSnapshot (StoreOf s))) ''a'' = Some as" "LastScrape as = Some 1000" "Up as"
    by (auto split: option.splits)
  have ok: "list_all action_ok [Boot demo_world]" by (simp add: demo_world_ok)
  note health = health_complete [OF demo_config_ok(1) ok s(1) [unfolded demo_server_def] range_order_rev s(2)]
  from health [OF bs(1)] bs(2)
  have "\<lparr>MetricName = up_name, LabelNames = [''array''], LabelValues = [''b''], MetricValue = zero64\<rparr> \<in> set ms"
    "\<forall>m \<in> set ms. MetricName m = last_scrape_name \<longrightarrow> LabelValues m \<noteq> [''b'']"
    by (simp_all add: b2f_def) blast+
  moreover from health [OF as(1)] as(2,3)
  have "\<lparr>MetricName = last_scrape_name, LabelNames = [''array''], LabelValues = [''a''], MetricValue = of_int64 1000\<rparr> \<in> set ms"
    by simp blast
  ultimately show ?thesis using s by blast
qed

text \<open>C30: Instruments are registered once: \<open>EnsureInstruments\<close> keeps what is registered, adds only names
  of the snapshot, never a second time; a failed call leaves some name of the snapshot whose
  registration the library refused, and after a success a further call changes nothing.\<close>

theorem instruments_once:
  assumes "distinct (registered e)" and "EnsureInstruments gauge st e = (e', r)"
  shows "distinct (registered e') \<and> set (registered e) \<subseteq> set (registered e') \<and>
    set (registered e') \<subseteq> set (registered e) \<union> set (MetricNames (LoadSnapshot st)) \<and>
    (case r of
       Some err \<Rightarrow> \<exists>n \<in> set (MetricNames (LoadSnapshot st)) - set (registered e'). gauge n = Some err
     | None \<Rightarrow> set (MetricNames (LoadSnapshot st)) \<subseteq> set (registered e') \<and>
         EnsureInstruments gauge' st e' = (e', None))"
proof -
  let ?ns = "MetricNames (LoadSnapshot st)"
  have e': "registered e' = fst (ensure_loop gauge (registered e) ?ns)" and r: "r = snd (ensure_loop gauge (registered e) ?ns)"
    using EnsureInstruments_fst [of gauge st e] assms(2) by simp_all
  obtain more where "registered e' = registered e @ more" "set more \<subseteq> set ?ns"
    using ensure_loop_prefix [of gauge "registered e" ?ns] e' by metis
  moreover have "distinct (registered e')" using ensure_loop_distinct [OF assms(1)] e' by simp
  moreover have "\<exists>n \<in> set ?ns - set (registered e'). gauge n = Some err" if "r = Some err" for err
    using ensure_loop_error [of gauge "registered e" ?ns err] that e' r by simp
  moreover have "set ?ns \<subseteq> set (registered e')" if "r = None"
    using ensure_loop_success [of gauge "registered e" ?ns] that e' r by simp
  moreover have "EnsureInstruments gauge' st e' = (e', None)" if "r = None"
    using EnsureInstruments_idem [of gauge st e gauge'] that assms(2) by simp
  ultimately show ?thesis by (cases r) auto
qed

theorem instruments_once_witness:
  "let st = StoreSnapshot (BuildSnapshot rev [Some ((down ''a'' 5)\<lparr>Samples := [Sample ''n'' [] one64]\<rparr>)]) NewSnapshotStore
   in registered (fst (EnsureInstruments (\<lambda>n. None) st (newOTLPExporter 1 ''dev''))) = [''n''] \<and>
     EnsureInstruments (\<lambda>n. Some (Msg n)) st (fst (EnsureInstruments (\<lambda>n. None) st (newOTLPExporter 1 ''dev''))) =
       (fst (EnsureInstruments (\<lambda>n. None) st (newOTLPExporter 1 ''dev'')), None)"
proof -
  let ?st = "StoreSnapshot (BuildSnapshot rev [Some ((down ''a'' 5)\<lparr>Samples := [Sample ''n'' [] one64]\<rparr>)]) NewSnapshotStore"
  obtain e' r where e: "EnsureInstruments (\<lambda>n. None) ?st (newOTLPExporter 1 ''dev'') = (e', r)" by force
  have "registered (fst (EnsureInstruments (\<lambda>n. None) ?st (newOTLPExporter 1 ''dev''))) = [''n'']"
    "snd (EnsureInstruments (\<lambda>n. None) ?st (newOTLPExporter 1 ''dev'')) = None"
    by code_simp+
  with e instruments_once [OF _ e, of "\<lambda>n. Some (Msg n)"] show ?thesis
    by (simp add: newOTLPExporter_def)
qed

text \<open>C17: The push path shows the snapshot too: once the instruments cover the snapshot's names, an export
  observes every collected sample exactly once, with its name, value and attributes.\<close>

theorem export_complete:
  assumes "range_order \<rho>" and "LoadSnapshot st = BuildSnapshot \<rho> arrays" and "distinct (registered e)"
    and "EnsureInstruments gauge st e = (e', None)"
  shows "mset (concat (map (\<lambda>(n, obs). map (\<lambda>(v, attrs). (n, v, attrs)) obs) (observe st e'))) =
    mset (map (\<lambda>s. (Name s, Value s, map (\<lambda>l. (LName l, LValue l)) (Labels s))) (collected arrays))"
proof -
  have "distinct (registered e')" "set (MetricNames (LoadSnapshot st)) \<subseteq> set (registered e')"
    using ensure_loop_distinct [OF assms(3), of gauge "MetricNames (LoadSnapshot st)"]
      ensure_loop_success [of gauge "registered e" "MetricNames (LoadSnapshot st)"]
      EnsureInstruments_fst [of gauge st e] assms(4) by simp_all
  from observe_samples [OF assms(1,2) this] show ?thesis by (simp add: attrsFor_def)
qed

theorem export_complete_witness:
  "let st = StoreSnapshot (BuildSnapshot rev [Some ((down ''a'' 5)\<lparr>Samples := [Sample ''n'' [] one64]\<rparr>)]) NewSnapshotStore;
       e = fst (EnsureInstruments (\<lambda>n. None) st (newOTLPExporter 1 ''dev''))
   in mset (concat (map (\<lambda>(n, obs). map (\<lambda>(v, attrs). (n, v, attrs)) obs) (observe st e))) = {#(''n'', one64, [])#}"
proof -
  let ?arrays = "[Some ((down ''a'' 5)\<lparr>Samples := [Sample ''n'' [] one64]\<rparr>)]"
  let ?st = "StoreSnapshot (BuildSnapshot rev ?arrays) NewSnapshotStore"
  obtain e' r where e: "EnsureInstruments (\<lambda>n. None) ?st (newOTLPExporter 1 ''dev'') = (e', r)" by force
  have "snd (EnsureInstruments (\<lambda>n. None) ?st (newOTLPExporter 1 ''dev'')) = None" by code_simp
  with e have r: "r = None" by simp
  have "distinct (registered (newOTLPExporter 1 ''dev''))" by (simp add: newOTLPExporter_def)
  from export_complete [OF range_order_rev snap_store.load_publish this e [unfolded r]] show ?thesis
    unfolding Let_def e fst_conv by (simp add: collected_def)
qed

section \<open>The server\<close>

text \<open>C2: After any sequence of completed starts, cycles, reloads and stops, one after another, the server's
  configuration is valid, the collector polls exactly the server's clients, one per array name, and each of
  them has a fan-out cap of at least one. None of the operations overlaps another here: what
  overlapping reloads break is C36.\<close>

theorem server_invariant:
  assumes "config_ok cfg" and "list_all action_ok actions"
    and "run_actions actions (NewServer (NewSafeConfig cfg res) path) = Some s"
  shows "config_ok (GetConfig (SafeCfg s)) \<and> distinct (map ClientName (ServerClients s)) \<and>
    list_all (\<lambda>c. maxConcurrency c \<ge> 1) (ServerClients s) \<and>
    (case ServerCollector s of None \<Rightarrow> \<not> LoopStarted s | Some coll \<Rightarrow> Clients coll = ServerClients s)"
proof -
  have "server_ok (NewServer (NewSafeConfig cfg res) path)"
    using assms(1) by (intro server_ok_New) (simp add: NewSafeConfig_def)
  from run_actions_ok [OF this assms(2,3)] show ?thesis
    by (auto simp: server_ok_def GetConfig_def client_ok_def list_all_iff split: option.split)
qed

theorem server_invariant_witness:
  "\<exists>s. run_actions [Boot demo_world, Reload demo_world ''a c'', Stop] demo_server = Some s \<and>
     config_ok (GetConfig (SafeCfg s))"
proof -
  have "run_actions [Boot demo_world, Reload demo_world ''a c'', Stop] demo_server \<noteq> None" by code_simp
  then obtain s where s: "run_actions [Boot demo_world, Reload demo_world ''a c'', Stop] demo_server = Some s"
    by blast
  have "list_all action_ok [Boot demo_world, Reload demo_world ''a c'', Stop]" by (simp add: demo_world_ok)
  from server_invariant [OF demo_config_ok(1) this s [unfolded demo_server_def]] s show ?thesis by blast
qed

text \<open>C24: After the start the snapshot has an entry for exactly the configured arrays whose client could
  be built (whose login succeeded), and the collector polls one client for each of them.\<close>

theorem start_covers_fleet:
  assumes "startCollection w cfg s = Some (s', None)"
  shows "set (amap_keys (PerArray (LoadSnapshot (StoreOf s')))) = ArrayName ` {a \<in> set (Arrays cfg). login_ok w a} \<and>
    map ClientName (ServerClients s') = map ArrayName (filter (login_ok w) (Arrays cfg)) \<and>
    (\<exists>coll. ServerCollector s' = Some coll \<and> Clients coll = ServerClients s')"
  using started_fleet [OF assms] by simp

theorem start_covers_fleet_witness:
  "\<exists>s. startCollection demo_world (demo_config [''a'', ''b'']) demo_server = Some (s, None) \<and>
     map ClientName (ServerClients s) = [''a'', ''b'']"
proof -
  have "case startCollection demo_world (demo_config [''a'', ''b'']) demo_server of
    None \<Rightarrow> False | Some (s, r) \<Rightarrow> r = None" by code_simp
  then obtain s where s: "startCollection demo_world (demo_config [''a'', ''b'']) demo_server = Some (s, None)"
    by (auto split: option.splits)
  show ?thesis
    by (rule exI [of _ s], rule conjI, rule s,
        rule start_covers_fleet [OF s, THEN conjunct2, THEN conjunct1, unfolded demo_logins])
qed

text \<open>C25: A reload that reports an error leaves collection as it was: clients, collector, store and
  exporter are untouched; if the new file could not be loaded, resolved or validated, so is
  the configuration.\<close>

theorem failed_reload:
  assumes "ReloadConfig w path s = (s', Some e)"
  shows "ServerClients s' = ServerClients s \<and> ServerCollector s' = ServerCollector s \<and> StoreOf s' = StoreOf s \<and>
    OtlpOf s' = OtlpOf s \<and> LoopStarted s' = LoopStarted s \<and>
    (case load_config (w_files w) (SafeCfg s) path of Inl _ \<Rightarrow> s' = s | Inr cfg \<Rightarrow> GetConfig (SafeCfg s') = cfg)"
proof (cases rule: ReloadConfig_cases [of w s path])
  case fail
  with assms show ?thesis by simp
qed (use assms in \<open>auto simp: GetConfig_def\<close>)

theorem failed_reload_witness:
  "ReloadConfig demo_world [] demo_server =
    (demo_server, Some (Wrap ''config validation failed'' (Msg ''array[0]: name is required'')))"
proof -
  have load: "load_config (w_files demo_world) (SafeCfg demo_server) [] =
      Inl (Wrap ''config validation failed'' (Msg ''array[0]: name is required''))"
    by (simp add: load_config_def demo_world_def demo_files_def demo_server_def NewServer_def NewSafeConfig_def, code_simp)
  obtain s' r where r: "ReloadConfig demo_world [] demo_server = (s', r)" by force
  have e: "r = Some (Wrap ''config validation failed'' (Msg ''array[0]: name is required''))"
    using r load by (cases rule: ReloadConfig_cases [of demo_world demo_server "[]"]) auto
  with r failed_reload [OF r [unfolded e]] load show ?thesis by simp
qed

text \<open>C9: A successful reload installs the new file: the configuration is the loaded and valid one, and if
  the array names changed, server and collector have one client for each array of the new
  configuration whose login succeeds.\<close>

theorem successful_reload:
  assumes "ReloadConfig w path s = (s', None)"
  shows "\<exists>cfg. load_config (w_files w) (SafeCfg s) path = Inr cfg \<and> GetConfig (SafeCfg s') = cfg \<and> config_ok cfg \<and>
    (if ArrayName ` set (Arrays (GetConfig (SafeCfg s))) = ArrayName ` set (Arrays cfg)
     then ServerClients s' = ServerClients s \<and> ServerCollector s' = ServerCollector s
     else map ClientName (ServerClients s') = map ArrayName (filter (login_ok w) (Arrays cfg)) \<and>
       map_option Clients (ServerCollector s') = map_option (\<lambda>_. ServerClients s') (ServerCollector s))"
proof (cases rule: ReloadConfig_cases [of w s path])
  case (same cfg)
  with assms load_config_ok [OF same(1)] show ?thesis by (auto simp: GetConfig_def)
next
  case (rebuilt cfg cs)
  with assms load_config_ok [OF rebuilt(1)] buildClients_names [OF rebuilt(3)] show ?thesis
    by (auto simp: GetConfig_def SetClients_def option.map_comp comp_def)
qed (use assms in auto)

theorem successful_reload_witness:
  "\<exists>s. ReloadConfig demo_world ''a c'' demo_server = (s, None) \<and> map ClientName (ServerClients s) = [''a'', ''c'']"
proof -
  have "snd (ReloadConfig demo_world ''a c'' demo_server) = None" by code_simp
  then obtain s where s: "ReloadConfig demo_world ''a c'' demo_server = (s, None)"
    by (cases "ReloadConfig demo_world ''a c'' demo_server") auto
  from successful_reload [OF s] obtain cfg
    where "load_config (w_files demo_world) (SafeCfg demo_server) ''a c'' = Inr cfg"
      and new: "if ArrayName ` set (Arrays (GetConfig (SafeCfg demo_server))) = ArrayName ` set (Arrays cfg)
        then ServerClients s = ServerClients demo_server \<and> ServerCollector s = ServerCollector demo_server
        else map ClientName (ServerClients s) = map ArrayName (filter (login_ok demo_world) (Arrays cfg)) \<and>
          map_option Clients (ServerCollector s) = map_option (\<lambda>_. ServerClients s) (ServerCollector demo_server)"
    by blast
  then have cfg: "cfg = demo_config [''a'', ''c'']" using demo_load by simp
  show ?thesis
    by (rule exI [of _ s], rule conjI, rule s,
        rule new [unfolded cfg if_not_P [OF demo_names_differ] demo_logins, THEN conjunct1])
qed

text \<open>C37: A failed rebuild is forgotten: when the logins of the new arrays fail, the reload reports an error
  but the new configuration stays installed, so reloading the same file again succeeds without
  building any client, even if every login would now work.\<close>

theorem failed_rebuild_forgotten:
  assumes "load_config (w_files w) (SafeCfg s) path = Inr cfg"
    and "ArrayName ` set (Arrays (GetConfig (SafeCfg s))) \<noteq> ArrayName ` set (Arrays cfg)"
    and "\<And>a. a \<in> set (Arrays cfg) \<Longrightarrow> \<not> login_ok w a"
    and "w_files w' = w_files w"
  shows "snd (ReloadConfig w path s) \<noteq> None \<and>
    snd (ReloadConfig w' path (fst (ReloadConfig w path s))) = None \<and>
    ServerClients (fst (ReloadConfig w' path (fst (ReloadConfig w path s)))) = ServerClients s"
proof (cases rule: ReloadConfig_cases [of w s path])
  case (stuck cfg' e)
  let ?s1 = "s\<lparr>SafeCfg := (SafeCfg s)\<lparr>C := cfg'\<rparr>\<rparr>"
  from stuck(1) assms(4) have load: "load_config (w_files w') (SafeCfg ?s1) path = Inr cfg'" by simp
  have "ReloadConfig w' path ?s1 = (?s1, None)"
    by (cases rule: ReloadConfig_cases [of w' ?s1 path]) (use load in auto)
  with stuck(4) show ?thesis by simp
next
  case (rebuilt cfg' cs)
  with assms(1,3) buildClients_fails [of w cfg] show ?thesis by auto
qed (use assms in \<open>auto simp: GetConfig_def\<close>)

theorem failed_rebuild_forgotten_witness:
  "ServerClients (fst (ReloadConfig demo_world ''a c''
    (fst (ReloadConfig (demo_world\<lparr>w_login := \<lambda>e u p i. Some (Msg ''401'')\<rparr>) ''a c'' demo_server)))) = []"
proof -
  let ?w = "demo_world\<lparr>w_login := \<lambda>e u p i. Some (Msg ''401'')\<rparr>"
  have load: "load_config (w_files ?w) (SafeCfg demo_server) ''a c'' = Inr (demo_config [''a'', ''c''])"
    using demo_load by simp
  have "\<not> login_ok ?w a" for a by (simp add: login_ok_def)
  with failed_rebuild_forgotten [OF load demo_names_differ, of demo_world] show ?thesis
    by (simp add: demo_server_sel)
qed

section \<open>Interleavings\<close>

text \<open>C22: The operations of the server refine the interleaving machine: a start that builds a client, followed by
  any cycles and reloads (of any files, with the same logins), is a serial run of the machine that cuts
  the start-up and \<open>ReloadConfig\<close> at their lock sections.\<close>

theorem history_refines_races:
  assumes "config_ok cfg" and "list_all action_ok (Boot w # acts)" and "list_all (keeps_logins w) acts"
    and "\<exists>a \<in> set (Arrays cfg). login_ok w a"
    and "run_actions (Boot w # acts) (NewServer (NewSafeConfig cfg res) path) = Some s"
  shows "(serial_step (build_names w))\<^sup>*\<^sup>* (race_start cfg) (race_view BootDone s)"
proof -
  have new: "server_ok (NewServer (NewSafeConfig cfg res) path)"
    using assms(1) by (intro server_ok_New) (simp add: NewSafeConfig_def)
  from assms(5) obtain s1 where b: "act (Boot w) (NewServer (NewSafeConfig cfg res) path) = Some s1"
    and r: "run_actions acts s1 = Some s"
    by (auto simp: bind_eq_Some_conv)
  then have "startBackground w cfg (NewServer (NewSafeConfig cfg res) path) = Some s1"
    by (simp add: NewServer_def NewSafeConfig_def)
  note boot = boot_is_run [OF this assms(4)]
  have "server_ok s1" by (rule act_ok [OF new _ b]) (use assms(2) in simp)
  from boot(1) history_is_run [OF r assms(3) _ this boot(2)] assms(2) show ?thesis
    by (auto intro: rtranclp_trans)
qed

theorem history_refines_races_witness:
  "\<exists>s. run_actions [Boot demo_world, Cycle demo_world, Reload demo_world ''a c''] demo_server = Some s \<and>
     (serial_step (build_names demo_world))\<^sup>*\<^sup>* (race_start (demo_config [''a'', ''b''])) (race_view BootDone s)"
proof -
  have "run_actions [Boot demo_world, Cycle demo_world, Reload demo_world ''a c''] demo_server \<noteq> None" by code_simp
  then obtain s where s: "run_actions [Boot demo_world, Cycle demo_world, Reload demo_world ''a c''] demo_server = Some s"
    by blast
  have "demo_array ''a'' \<in> set (Arrays (demo_config [''a'', ''b'']))" by (simp add: demo_config_def)
  then have "\<exists>a \<in> set (Arrays (demo_config [''a'', ''b''])). login_ok demo_world a" using demo_login_ok by blast
  from history_refines_races [OF demo_config_ok(1) _ _ this s [unfolded demo_server_def]] s
  show ?thesis by (simp add: demo_world_ok)
qed

text \<open>C20: When reloads start after the start-up and one at a time, the pool follows the configuration: at
  rest, the collector polls the server's pool, whose names are the array names of the current
  configuration (for a world in which every valid configuration can be built).\<close>

theorem serial_reloads_consistent:
  assumes "builds build nm" and "config_ok cfg" and "(serial_step build)\<^sup>*\<^sup>* (race_start cfg) s" and "quiet s"
  shows "RColl s = Some (RPool s) \<and> nm ` set (RPool s) = array_names (RCfg s)"
  using serial_quiet [OF serial_inv_reachable [OF assms(3,1,2)] assms(4)] .

theorem serial_reloads_consistent_witness:
  "\<exists>s. (serial_step name_pool)\<^sup>*\<^sup>* (race_start (demo_config [''a'', ''b''])) s \<and> quiet s \<and> RColl s = Some (RPool s)"
proof -
  have b: "builds name_pool (\<lambda>n. n)" by (simp add: builds_def name_pool_def array_names_def)
  obtain s where "(serial_step name_pool)\<^sup>*\<^sup>* (race_start (demo_config [''a'', ''b''])) s" "quiet s"
    using boots_quiet by blast
  with serial_reloads_consistent [OF b demo_config_ok(1) this] show ?thesis by blast
qed

text \<open>C34: A reload shows at the second cycle at the latest: whatever cycles run after the pool was swapped,
  readers see the arrays of the new pool once a cycle that started after the swap has published; before
  that they see those of the cycle that was in progress once it has published, else the old ones.\<close>

theorem reload_visible:
  assumes "cycle_run (SwapPool new # es) s = Some t" and "\<not> list_ex swaps es"
  shows "set (amap_keys (PerArray (LoadSnapshot (CycStore t)))) =
    (if list_ex publishes (dropWhile (\<lambda>e. e \<noteq> TakePool) es) then ClientName ` set new
     else if list_ex publishes es then late_names s
     else set (amap_keys (PerArray (LoadSnapshot (CycStore s)))))"
  using swapped_run [OF _ assms(2), where s = s and t = t and f = "InFlight s"] assms(1)
  by (simp add: shown_def pool_names_def)

theorem reload_visible_witness:
  "\<exists>t. cycle_run [SwapPool [demo_client ''c''], Publish demo_world, TakePool, Publish demo_world] demo_cycle = Some t \<and>
     set (amap_keys (PerArray (LoadSnapshot (CycStore t)))) = {''c''}"
proof -
  let ?es = "[Publish demo_world, TakePool, Publish demo_world]"
  have "cycle_run (SwapPool [demo_client ''c''] # ?es) demo_cycle \<noteq> None" by code_simp
  then obtain t where t: "cycle_run (SwapPool [demo_client ''c''] # ?es) demo_cycle = Some t" by blast
  from reload_visible [OF t] t show ?thesis by (auto simp: demo_client_def)
qed

section \<open>Configuration\<close>

text \<open>C8: Validation decides the specification of a good configuration: \<open>Validate\<close> fills in the defaults
  and reports no error exactly when the filled configuration has a port in range, parsable durations, at
  least one array, complete arrays with distinct names and a fan-out cap that is not negative, usable
  OpenTelemetry endpoints, and a sampling rate in range when tracing is enabled.\<close>

theorem validate_decides:
  "fst (Validate c) = SetDefaults c \<and> (snd (Validate c) = None \<longleftrightarrow> config_ok (SetDefaults c)) \<and>
    SetDefaults (SetDefaults c) = SetDefaults c"
  by (simp add: Validate_fst Validate_ok SetDefaults_idem)

text \<open>C10: References are expanded as documented: on a text of literals, \<open>${VAR}\<close> and \<open>${VAR:-default}\<close> pieces,
  expansion puts the value of each piece in its place, the default for an unset or empty variable; it
  fails exactly when a variable without a default is unset, and names all of those in order.\<close>

theorem expansion_of_pieces:
  assumes "list_all piece_ok ps"
  shows "ExpandEnv env (concat (map render ps)) =
    (let missing = concat (map (unset env) ps)
     in if missing = [] then Inr (concat (map (piece_value env) ps))
        else Inl (Msg (''environment variable(s) referenced in config but not set: '' @ join '', '' missing)))"
  by (rule ExpandEnv_pieces) (rule assms)

theorem expansion_of_pieces_witness:
  "ExpandEnv [''HOST'' \<mapsto> ''h1''] ''https://${HOST}:${PORT:-443}/api'' = Inr ''https://h1:443/api''"
proof -
  let ?ps = "[Lit ''https://'', Var ''HOST'', Lit '':'', VarOr ''PORT'' ''443'', Lit ''/api'']"
  have "list_all piece_ok ?ps" by code_simp
  from expansion_of_pieces [OF this, of "[''HOST'' \<mapsto> ''h1'']"] show ?thesis by simp
qed

text \<open>C26: Resolving the secrets changes nothing but the secrets and leaves no referenced credential empty: every
  array keeps its name, password file, interval and concurrency, the rest of the configuration is
  unchanged, and an endpoint, user name or password written as a reference is not empty.\<close>

theorem secrets_resolved:
  assumes "ResolveSecrets env read_file cfg = Inr cfg'"
  shows "cfg' = cfg\<lparr>Arrays := Arrays cfg'\<rparr> \<and>
    list_all2 (\<lambda>a b. same_but_secrets a b \<and> credentials_filled a b) (Arrays cfg) (Arrays cfg')"
  by (rule ResolveSecrets_filled) (rule assms)

theorem secrets_resolved_witness:
  "\<exists>cfg'. ResolveSecrets [''PW'' \<mapsto> ''secret''] (\<lambda>f. Inl (Msg f))
      ((demo_config [])\<lparr>Arrays := [(demo_array ''a'')\<lparr>Password := ''${PW}''\<rparr>]\<rparr>) = Inr cfg' \<and>
    list_all (\<lambda>b. Password b \<noteq> []) (Arrays cfg')"
proof -
  let ?cfg = "(demo_config [])\<lparr>Arrays := [(demo_array ''a'')\<lparr>Password := ''${PW}''\<rparr>]\<rparr>"
  have "case ResolveSecrets [''PW'' \<mapsto> ''secret''] (\<lambda>f. Inl (Msg f)) ?cfg of Inl _ \<Rightarrow> False | Inr _ \<Rightarrow> True"
    by code_simp
  then obtain cfg' where c: "ResolveSecrets [''PW'' \<mapsto> ''secret''] (\<lambda>f. Inl (Msg f)) ?cfg = Inr cfg'"
    by (auto split: sum.splits)
  have "refs ''${PW}'' \<noteq> []" by code_simp
  with secrets_resolved [OF c] c show ?thesis
    by (auto simp: credentials_filled_def list_all2_Cons1)
qed

text \<open>C40: A password file switches off the TLS reference: for an array whose \<open>insecureSkipVerify\<close> is
  \<open>${VAR}\<close> and \<open>VAR\<close> a boolean, the resolved flag is the variable's value, except when the password
  comes from a file; then the flag keeps the value it had before.\<close>

theorem tls_reference_skipped:
  assumes "resolve_array env read_file a = Inr b" and "raw (InsecureSkipVerify a) = render (Var n)" and "var_name n"
    and "env n = Some v" and "ParseBool (TrimSpace v) = Some f" and "TrimSpace v \<noteq> []"
  shows "val (InsecureSkipVerify b) =
    (if Password a = [] \<and> PasswordFile a \<noteq> [] then val (InsecureSkipVerify a) else f)"
  by (rule resolve_array_tls) (rule assms)+

theorem tls_reference_skipped_witness:
  "\<exists>b. resolve_array [''SKIP'' \<mapsto> ''true''] (\<lambda>f. Inr ''pw'')
      ((demo_array ''a'')\<lparr>Password := [], PasswordFile := ''/run/pw'', InsecureSkipVerify := \<lparr>raw = ''${SKIP}'', val = False\<rparr>\<rparr>) = Inr b \<and>
    \<not> val (InsecureSkipVerify b)"
proof -
  let ?a = "(demo_array ''a'')\<lparr>Password := [], PasswordFile := ''/run/pw'', InsecureSkipVerify := \<lparr>raw = ''${SKIP}'', val = False\<rparr>\<rparr>"
  have "case resolve_array [''SKIP'' \<mapsto> ''true''] (\<lambda>f. Inr ''pw'') ?a of Inl _ \<Rightarrow> False | Inr _ \<Rightarrow> True"
    by code_simp
  then obtain b where b: "resolve_array [''SKIP'' \<mapsto> ''true''] (\<lambda>f. Inr ''pw'') ?a = Inr b"
    by (auto split: sum.splits)
  have "var_name ''SKIP''" "ParseBool (TrimSpace ''true'') = Some True" "TrimSpace ''true'' \<noteq> []" by code_simp+
  from tls_reference_skipped [OF b _ this(1) _ this(2,3)] have "\<not> val (InsecureSkipVerify b)" by simp
  with b show ?thesis by blast
qed

section \<open>Derived metrics\<close>

text \<open>C31: The bulk path is chosen by the version: on a dotted version the check is the comparison with 4.1 in
  the order of versions, so 4.10 and 10.0 qualify and 4.0 and 3.6 do not.\<close>

theorem bulk_from_4_1:
  assumes "0 \<le> a" "a < 2 ^ 63" "0 \<le> b" "b < 2 ^ 63" and "rest = [] \<or> hd rest = CHR ''.''"
  shows "bulkCapableFromVersion (dec a @ ''.'' @ dec b @ rest) \<longleftrightarrow> Version 4 1 \<le> Version a b"
  by (rule bulkCapable_iff) (rule assms)+

theorem bulk_from_4_1_witness:
  "bulkCapableFromVersion ''4.10.0.0'' \<and> \<not> bulkCapableFromVersion ''3.6''"
proof -
  have "dec 4 @ ''.'' @ dec 10 @ ''.0.0'' = ''4.10.0.0''" "dec 3 @ ''.'' @ dec 6 @ [] = ''3.6''" by code_simp+
  moreover have "bulkCapableFromVersion (dec 4 @ ''.'' @ dec 10 @ ''.0.0'')"
    by (subst bulk_from_4_1) (simp_all add: less_eq_version_def)
  moreover have "\<not> bulkCapableFromVersion (dec 3 @ ''.'' @ dec 6 @ [])"
    by (subst bulk_from_4_1) (simp_all add: less_eq_version_def)
  ultimately show ?thesis by (simp only: simp_thms)
qed

text \<open>C23: The labels of a volume are the inventory's, on both paths: when volume, appliance and group ids are unique
  and both sides place the volume in one group only, every sample that the responses or the rows of the
  bulk table give for it carries the volume's name (the id where the inventory has an empty name) and the names of its appliance
  and its group, with their ids. The id of its appliance is not empty.\<close>

theorem volume_labels_resolved:
  assumes "distinct (map VolumeID vols)" "distinct (map ApplianceID as)" "distinct (map GroupID vgs)"
    and "v \<in> set vols" and "a \<in> set as" "ApplianceID a \<noteq> []" "VolumeApplianceID v = ApplianceID a"
    and "g \<in> set vgs" "only_group vols vgs (VolumeID v) (GroupID g)"
    and "s \<in> set (deriveVolumePerf \<rho> array (NewTopology cl as vols vgs nas fs fc eth) resp) \<union>
      set (deriveBulkVolumePerf array (NewTopology cl as vols vgs nas fs fc eth) rows)"
    and "Label ''volume_id'' (VolumeID v) \<in> set (Labels s)"
  shows "Labels s = volumeLabels array (ClusterRecordID cl) (if VolumeName v = [] then VolumeID v else VolumeName v)
    (VolumeID v) (ApplianceID a) (ApplianceName a) (GroupName g) (GroupID g)"
  by (rule volume_labels) (rule assms)+

theorem volume_labels_resolved_witness:
  "(\<exists>s \<in> set (deriveVolumePerf (\<lambda>ks. ks) ''a'' demo_inventory [demo_perf ''v1'']).
      Labels s = volumeLabels ''a'' ''C1'' ''vol'' ''v1'' ''A1'' ''app'' ''grp'' ''g1'') \<and>
   (\<exists>s \<in> set (deriveBulkVolumePerf ''a'' demo_inventory [csv_row demo_header demo_cells]).
      Labels s = volumeLabels ''a'' ''C1'' ''vol'' ''v1'' ''A1'' ''app'' ''grp'' ''g1'')"
proof -
  let ?a = "\<lparr>ApplianceID = ''A1'', ApplianceName = ''app'', ServiceTag = ''tag''\<rparr>"
  let ?g = "VolumeGroup ''g1'' ''grp'' []"
  let ?perf = "deriveVolumePerf (\<lambda>ks. ks) ''a'' demo_inventory [demo_perf ''v1'']"
  let ?bulk = "deriveBulkVolumePerf ''a'' demo_inventory [csv_row demo_header demo_cells]"
  have "case ?perf of [] \<Rightarrow> False | s # _ \<Rightarrow> List.member (Labels s) (Label ''volume_id'' ''v1'')" by code_simp
  then obtain s where s: "s \<in> set ?perf" "Label ''volume_id'' ''v1'' \<in> set (Labels s)" by (cases ?perf) auto
  have "case ?bulk of [] \<Rightarrow> False | s # _ \<Rightarrow> List.member (Labels s) (Label ''volume_id'' ''v1'')" by code_simp
  then obtain s' where s': "s' \<in> set ?bulk" "Label ''volume_id'' ''v1'' \<in> set (Labels s')" by (cases ?bulk) auto
  have "only_group [demo_volume] [?g] ''v1'' ''g1''" by (auto simp: only_group_def memberships_def demo_volume_def)
  then have "Labels t = volumeLabels ''a'' ''C1'' ''vol'' ''v1'' ''A1'' ''app'' ''grp'' ''g1''"
    if "t \<in> set ?perf \<union> set ?bulk" "Label ''volume_id'' ''v1'' \<in> set (Labels t)" for t
    using that volume_labels_resolved [of "[demo_volume]" "[?a]" "[?g]" demo_volume "?a" "?g" t "\<lambda>ks. ks" "''a''"
      "\<lparr>ClusterRecordID = ''C1''\<rparr>" "[]" "[]" "[]" "[]" "[demo_perf ''v1'']" "[csv_row demo_header demo_cells]"]
    by (simp add: demo_inventory_def demo_volume_def)
  with s s' show ?thesis by blast
qed

text \<open>C27: The alert metric counts exactly the active alerts: one series for each known severity and for each
  other severity of an active alert, none twice, each with the number of active alerts of it, whatever
  the order in which Go ranges over the counts.\<close>

theorem alerts_counted:
  assumes "range_order \<rho>"
  shows "\<exists>sevs. deriveAlerts \<rho> array topo = map (alert_sample array topo) sevs \<and> distinct sevs \<and>
    set sevs = set knownAlertSeverities \<union> {sev. \<exists>a \<in> set (Alerts topo). active sev a}"
  by (rule deriveAlerts_severities) (rule assms)

theorem alerts_counted_witness:
  "\<exists>sevs. deriveAlerts rev ''a'' demo_topo = map (alert_sample ''a'' demo_topo) sevs \<and> ''Critical'' \<in> set sevs"
  using alerts_counted [OF range_order_rev, of "''a''" demo_topo] by (auto simp: knownAlertSeverities_def)

text \<open>C39: A cell of the bulk archive is exported correctly rounded: if the first column of the list that has
  a value holds a decimal in the normal range, \<open>csvFloat\<close> differs from the written number by at most half a
  unit in the last place, a factor of \<open>2^-53\<close>.\<close>

theorem csv_cell_accurate:
  assumes "list_all is_digit ds" "list_all is_digit fs" "ds \<noteq> []" and "normal_range (decimal_value ds fs)"
    and "\<And>j. j \<in> set before \<Longrightarrow> row j = None \<or> row j = Some []" and "row k = Some (decimal ds fs)"
  shows "\<bar>real_of (csvFloat row (before @ k # keys)) - decimal_value ds fs\<bar> \<le> decimal_value ds fs / 2 ^ 53"
  by (rule csvFloat_decimal [where before = before and row = row, OF assms])

theorem csv_cell_accurate_witness:
  "\<bar>real_of (csvFloat [''read_iops'' \<mapsto> ''12.3''] ([''avg_read_iops''] @ ''read_iops'' # [])) - 123 / 10\<bar> \<le> 123 / 10 / 2 ^ 53"
proof -
  have d: "list_all is_digit ''12''" "list_all is_digit ''3''" "''12'' \<noteq> []"
    and n: "digits_val (''12'' @ ''3'') = 123" and c: "decimal ''12'' ''3'' = ''12.3''"
    by code_simp+
  from n have v: "decimal_value ''12'' ''3'' = 123 / 10" by (simp add: decimal_value_def)
  have "(2 :: real) powi - 1022 \<le> 2 powi 0" "(2 :: real) powi 4 \<le> 2 powi 1023" by (rule powi_le, simp)+
  then have "normal_range (decimal_value ''12'' ''3'')"
    unfolding normal_range_def v by (auto simp: powi_nat [of 4] intro: order_trans)
  from csv_cell_accurate [OF d this, of "[''avg_read_iops'']" "[''read_iops'' \<mapsto> ''12.3'']" "''read_iops''" "[]"]
  show ?thesis unfolding v c by simp
qed

text \<open>C32: \<open>--trace\<close> only observes, and tells no secret: against an array whose responses can be read and closed,
  the download of the bulk archive gives the same result with and without the tracing transport; what a
  request logs is independent of its credentials and headers, and a login logs nothing.\<close>

theorem trace_only_observes:
  assumes "\<And>req resp. tls_transport http (EpInsecure ep) req = Inr resp \<Longrightarrow>
    (\<exists>b. Body resp = Inr b) \<and> CloseError resp = None"
  shows "downloadBulkArchive http (ep\<lparr>EpTrace := t\<rparr>) = downloadBulkArchive http ep \<and>
    snd (RoundTrip a (\<lambda>_. r) (req\<lparr>ReqAuth := auth, ReqHeaders := hs\<rparr>)) = snd (RoundTrip a (\<lambda>_. r) req) \<and>
    (hasSuffix (URLPath (ReqURL req)) ''/login_session'' \<longrightarrow> snd (RoundTrip a (\<lambda>_. r) req) = [])"
proof (intro conjI impI)
  show "downloadBulkArchive http (ep\<lparr>EpTrace := t\<rparr>) = downloadBulkArchive http ep"
    by (rule download_untraced) (rule assms)
qed (rule RoundTrip_credentials, rule RoundTrip_login)

theorem trace_only_observes_witness:
  "downloadBulkArchive bulk_http ((client_endpoint (demo_client ''a''))\<lparr>EpTrace := True\<rparr>) = Inr demo_tar"
proof -
  have "downloadBulkArchive bulk_http (client_endpoint (demo_client ''a'')) = Inr demo_tar"
    by (simp add: downloadBulkArchive_def bulkEnable_def bulkDownload_def bulk_http_def demo_http_def
        bulk_client_def client_endpoint_def demo_client_def)
  moreover have "(\<exists>b. Body resp = Inr b) \<and> CloseError resp = None"
    if "tls_transport bulk_http (EpInsecure (client_endpoint (demo_client ''a''))) req = Inr resp" for req resp
    using that by (auto simp: bulk_http_def demo_http_def)
  note trace_only_observes [of bulk_http "client_endpoint (demo_client ''a'')", OF this, THEN conjunct1]
  ultimately show ?thesis by simp
qed

section \<open>The process\<close>

text \<open>C18: The file watcher follows the file: the server after any sequence of watcher items is the one after
  as many reload actions as there are events that write or create the configuration file (the event's base name
  is that of the path, and its operations contain a write or a creation) before a
  channel closes, each in the world of its moment, and whether or not the reloads before it failed.\<close>

theorem watcher_follows_file:
  assumes "WatchConfigFile lib path = Inr (dir, configName)"
  shows "\<exists>s'. fst (run_watcher lib (server_reload ws) path items (n, s)) = (n + config_writes path items, s') \<and>
    run_actions (map (\<lambda>i. Reload (ws i) path) [n..<n + config_writes path items]) s = Some s'"
  using assms reloads_are_actions [where ws = ws and path = path and k = "config_writes path items" and n = n and s = s]
    changes_config_writes [OF assms, of items]
  by (simp add: run_watcher_def watch_loop_state)

theorem watcher_follows_file_witness:
  "\<exists>s'. run_actions [Reload demo_world ''a c'', Reload demo_world ''a c''] demo_server = Some s' \<and>
     fst (run_watcher (h_watch demo_host) (server_reload (\<lambda>_. demo_world)) ''a c''
       [FsEvent \<lparr>EventName = ''./other'', EventOps = [OpWrite]\<rparr>, FsEvent \<lparr>EventName = ''./a c'', EventOps = [OpRename, OpCreate]\<rparr>,
        WatchError (Msg ''overflow''), FsEvent \<lparr>EventName = ''./a c'', EventOps = [OpChmod]\<rparr>,
        FsEvent \<lparr>EventName = ''./a c'', EventOps = [OpWrite]\<rparr>, EventsClosed] (0, demo_server)) = (2, s')"
proof -
  let ?items = "[FsEvent \<lparr>EventName = ''./other'', EventOps = [OpWrite]\<rparr>, FsEvent \<lparr>EventName = ''./a c'', EventOps = [OpRename, OpCreate]\<rparr>,
    WatchError (Msg ''overflow''), FsEvent \<lparr>EventName = ''./a c'', EventOps = [OpChmod]\<rparr>,
    FsEvent \<lparr>EventName = ''./a c'', EventOps = [OpWrite]\<rparr>, EventsClosed]"
  have w: "WatchConfigFile (h_watch demo_host) ''a c'' = Inr (''.'', ''a c'')" by code_simp
  have "path_base ''./other'' = ''other''" "path_base ''./a c'' = ''a c''" "path_base ''a c'' = ''a c''" by code_simp+
  then have "config_writes ''a c'' ?items = 2" by (simp add: config_writes_def)
  moreover have "[0..<0 + 2::nat] = [0, 1]" by (simp add: upt_conv_Cons)
  ultimately show ?thesis using watcher_follows_file [OF w, of "\<lambda>_. demo_world" ?items 0 demo_server] by auto
qed

text \<open>C19: No SIGHUP is lost: after a signal, once the handler has emptied its channel, at least one reload has
  run that started after the signal; several signals may share one, and there are never more
  reloads than signals.\<close>

theorem signal_not_lost:
  assumes "\<not> HupPending (fold (hup_step reload path) evs (hup_step reload path Signal h))"
  shows "\<exists>k. 1 \<le> k \<and> k \<le> Suc (length (filter ((=) Signal) evs)) \<and>
    HupState (fold (hup_step reload path) evs (hup_step reload path Signal h)) = (reloaded reload path ^^ k) (HupState h)"
proof -
  have "HupPending (hup_step reload path Signal h)" "HupState (hup_step reload path Signal h) = HupState h"
    by (simp_all add: hup_step_def)
  with hup_run [of evs "hup_step reload path Signal h" reload path] assms obtain k where
    "0 < k" "k \<le> length (filter ((=) Signal) evs) + 1"
    "HupState (fold (hup_step reload path) evs (hup_step reload path Signal h)) = (reloaded reload path ^^ k) (HupState h)"
    by auto
  then show ?thesis by (intro exI [of _ k]) simp
qed

theorem signal_not_lost_witness:
  "\<exists>k \<ge> 1. HupState (fold (hup_step (\<lambda>p n. (Suc n, None)) ''c'') [Signal, Take, Take]
      (hup_step (\<lambda>p n. (Suc n, None)) ''c'' Signal \<lparr>HupPending = False, HupState = 0, HupLog = []\<rparr>)) =
    (reloaded (\<lambda>p n. (Suc n, None)) ''c'' ^^ k) 0"
proof -
  have "\<not> HupPending (fold (hup_step (\<lambda>p n. (Suc n, None)) ''c'') [Signal, Take, Take]
      (hup_step (\<lambda>p n. (Suc n, None)) ''c'' Signal \<lparr>HupPending = False, HupState = 0, HupLog = []\<rparr>))"
    by (simp add: hup_step_def)
  from signal_not_lost [OF this] show ?thesis by auto
qed

text \<open>C33: The exit status: an invalid configuration ends with one. \<open>--once\<close> ends with one if no array could be
  logged in to, otherwise with zero, and the snapshot has an entry for exactly the arrays that could (when
  their paged resources are finite). A serving process that could start, with a positive interval, whose
  listener and stop have run to the end, ends with zero whatever start-up, ticks and reloads have happened
  before, unless the listener's late error is sent on the closed channel: then it has crashed (C35 says
  when that is). A process stopped by its failed listener always ends with zero.\<close>

theorem exit_status:
  assumes "execute (rootCmd (w_version w)) args = Inr (Some f)" and "listen_step\<^sup>*\<^sup>* listen_start l"
  shows "(validateConfig (run_env h env f) (w_files w) (FlagConfig f) = Inl e \<longrightarrow>
      run_command execute h w env args es l = ExitStatus 1 None) \<and>
    (validateConfig (run_env h env f) (w_files w) (FlagConfig f) = Inr cfg \<longrightarrow> FlagOnce f \<longrightarrow> finite_fleet w cfg \<longrightarrow>
      (if \<exists>a \<in> set (Arrays cfg). login_ok w a
       then \<exists>s. run_command execute h w env args es l = ExitStatus 0 (Some s) \<and>
         set (amap_keys (PerArray (LoadSnapshot (StoreOf s)))) = ArrayName ` {a \<in> set (Arrays cfg). login_ok w a}
       else \<exists>s. run_command execute h w env args es l = ExitStatus 1 (Some s))) \<and>
    (validateConfig (run_env h env f) (w_files w) (FlagConfig f) = Inr cfg \<longrightarrow> \<not> FlagOnce f \<longrightarrow>
      (\<forall>c. h_register h c = None) \<longrightarrow> mux_routes (h_pattern_ok h) (URI (Server cfg)) \<noteq> None \<longrightarrow>
      0 < GetCollectionInterval cfg \<longrightarrow> MainAt l = Ended \<longrightarrow>
      (if SendPanic l then run_command execute h w env args es l = Crashed
       else \<exists>s. run_command execute h w env args es l = ExitStatus 0 (Some s)) \<and>
      (\<forall>err. StoppedBy l = Some (ServerError err) \<longrightarrow> (\<exists>s. run_command execute h w env args es l = ExitStatus 0 (Some s))))"
proof -
  have main: "run_command execute h w env args es l = run_main h w env f es l"
    using assms(1) by (simp add: run_command_def)
  show ?thesis unfolding main
  proof (intro conjI impI)
    assume "validateConfig (run_env h env f) (w_files w) (FlagConfig f) = Inl e"
    then show "run_main h w env f es l = ExitStatus 1 None" by (simp add: run_main_eq)
  next
    assume cfg: "validateConfig (run_env h env f) (w_files w) (FlagConfig f) = Inr cfg" and "\<not> FlagOnce f"
      "\<forall>c. h_register h c = None" "mux_routes (h_pattern_ok h) (URI (Server cfg)) \<noteq> None"
      "0 < GetCollectionInterval cfg" and ended: "MainAt l = Ended"
    from ended_stopped [OF assms(2) ended] have "StoppedBy l \<noteq> None" by blast
    note serving = run_serving [OF \<open>\<not> FlagOnce f\<close> cfg \<open>\<forall>c. h_register h c = None\<close> \<open>mux_routes _ _ \<noteq> None\<close>
        \<open>0 < GetCollectionInterval cfg\<close> ended this, of es]
    then show "if SendPanic l then run_main h w env f es l = Crashed
      else \<exists>s. run_main h w env f es l = ExitStatus 0 (Some s)" .
    show "\<forall>err. StoppedBy l = Some (ServerError err) \<longrightarrow> (\<exists>s. run_main h w env f es l = ExitStatus 0 (Some s))"
      using serving error_stop_safe [OF assms(2)] by auto
  qed (rule run_once, assumption+)
qed

theorem exit_status_witness:
  "\<exists>s t l. run_command (\<lambda>c args. Inr (Some (demo_flags True))) demo_host demo_world Map.empty [] [] listen_start =
       ExitStatus 0 (Some s) \<and>
     StoppedBy l = Some (ServerError (Wrap ''HTTP server error'' (Msg ''bind''))) \<and>
     run_command (\<lambda>c args. Inr (Some (demo_flags False))) demo_host demo_world Map.empty []
       [Ticked demo_world, StartedUp, Ticked demo_world, Reloaded demo_world] l = ExitStatus 0 (Some t)"
proof -
  let ?cmd = "\<lambda>once c args. Inr (Some (demo_flags once))"
  let ?es = "[Ticked demo_world, StartedUp, Ticked demo_world, Reloaded demo_world]"
  have once: "FlagOnce (demo_flags True)" "\<not> FlagOnce (demo_flags False)" by (simp_all add: demo_flags_def)
  obtain c1 where c1: "validateConfig (run_env demo_host Map.empty (demo_flags True)) (w_files demo_world)
      (FlagConfig (demo_flags True)) = Inr c1" "Arrays c1 \<noteq> []"
    using demo_run_config [of True] by (elim exE conjE)
  obtain c0 where c0: "validateConfig (run_env demo_host Map.empty (demo_flags False)) (w_files demo_world)
      (FlagConfig (demo_flags False)) = Inr c0" "0 < GetCollectionInterval c0"
      "mux_routes (h_pattern_ok demo_host) (URI (Server c0)) \<noteq> None"
    using demo_run_config [of False] by (elim exE conjE)
  have some: "\<exists>a \<in> set (Arrays c1). login_ok demo_world a" using c1(2) by (auto simp: demo_login_ok neq_Nil_conv)
  have reg: "\<forall>c. h_register demo_host c = None" by (simp add: demo_host_def)
  obtain l where l: "listen_step\<^sup>*\<^sup>* listen_start l" "MainAt l = Ended"
    "StoppedBy l = Some (ServerError (Wrap ''HTTP server error'' (Msg ''bind'')))"
    using failure_ends by blast
  note serving = exit_status [of "?cmd False" demo_world "[]" "demo_flags False" l, OF refl l(1),
      THEN conjunct2, THEN conjunct2, rule_format, OF c0(1) once(2) _ c0(3,2) l(2), THEN conjunct2, rule_format, OF _ l(3), of ?es]
  obtain t where t: "run_command (?cmd False) demo_host demo_world Map.empty [] ?es l = ExitStatus 0 (Some t)"
    using serving reg by blast
  note single = exit_status [of "?cmd True" demo_world "[]" "demo_flags True" listen_start, OF refl rtranclp.rtrancl_refl,
      THEN conjunct2, THEN conjunct1, rule_format, OF c1(1) once(1) demo_fleet_finite, of "[]"]
  obtain s where "run_command (?cmd True) demo_host demo_world Map.empty [] [] listen_start = ExitStatus 0 (Some s)"
    using single some by (simp only: if_True simp_thms) blast
  with t l(3) show ?thesis by blast
qed

text \<open>C38: Two accepted configurations crash the exporter. A URI that is one of the fixed paths crashes the start:
  \<open>http.ServeMux\<close> panics on the second registration of \<open>/health\<close>, \<open>/livez\<close> or \<open>/readyz\<close>. An interval that is
  not positive, with one array that can be logged in to, ends every run in which the start-up ends before the
  stop in the panic of the ticker (the paged resources of the arrays being finite, so that the first
  collection returns), whatever else has happened.\<close>

theorem accepted_config_crashes:
  assumes "config_ok (GetConfig (SafeCfg s))" and "\<not> w_once w"
  shows "(URI (Server (GetConfig (SafeCfg s))) \<in> {''/health'', ''/livez'', ''/readyz''} \<longrightarrow>
      (\<forall>c. h_register h c = None) \<longrightarrow> Start h w s = StartPanic) \<and>
    ((\<exists>d \<le> 0. ParseDuration (CollInterval (Collection (GetConfig (SafeCfg s)))) = Some d) \<longrightarrow>
      (\<exists>a \<in> set (Arrays (GetConfig (SafeCfg s))). login_ok w a) \<longrightarrow> finite_fleet w (GetConfig (SafeCfg s)) \<longrightarrow>
      StartedUp \<in> set es \<longrightarrow> serve h w path es l s = Crashed)"
  using Start_reserved_uri [OF _ assms(2)] serve_zero_interval [OF _ _ _ _ assms(2,1)] by blast

theorem accepted_config_crashes_witness:
  "Start demo_host demo_world (serve_config health_config) = StartPanic \<and>
   serve demo_host demo_world ''a c'' [Reloaded demo_world, StartedUp] listen_start (serve_config zero_config) = Crashed"
proof -
  have once: "\<not> w_once demo_world" by (simp add: demo_world_def)
  have ok: "config_ok (GetConfig (SafeCfg (serve_config health_config)))" "config_ok (GetConfig (SafeCfg (serve_config zero_config)))"
    using demo_config_accepted by simp_all
  have "URI (Server (GetConfig (SafeCfg (serve_config health_config)))) \<in> {''/health'', ''/livez'', ''/readyz''}"
    "\<forall>c. h_register demo_host c = None"
    by (simp_all add: health_config_def demo_host_def)
  with accepted_config_crashes [OF ok(1) once, of demo_host] have 1: "Start demo_host demo_world (serve_config health_config) = StartPanic"
    by (simp only: simp_thms)
  have "ParseDuration (CollInterval (Collection (GetConfig (SafeCfg (serve_config zero_config))))) = Some 0" by code_simp
  moreover have "demo_array ''a'' \<in> set (Arrays (GetConfig (SafeCfg (serve_config zero_config))))"
    by (simp add: zero_config_def demo_config_def)
  moreover have "StartedUp \<in> set [Reloaded demo_world, StartedUp]" by simp
  ultimately show ?thesis
    using accepted_config_crashes [OF ok(2) once, THEN conjunct2] demo_login_ok demo_fleet_finite 1 by blast
qed

text \<open>C35: The end of the listener: a fatal error of the HTTP server reaches the command if it still waits, and what stops
  the command with an error is that error. The send can meet the channel after \<open>Shutdown\<close> has closed
  it, which panics; this happens only when a signal stopped the command.\<close>

theorem listener_errors:
  "(listen_step\<^sup>*\<^sup>* listen_start s \<longrightarrow>
      (Listening s = ListenerDone \<and> MainAt s = Waiting \<longrightarrow> (\<exists>e. ErrChan s = Some [e] \<and> listen_error_of e)) \<and>
      (StoppedBy s = Some (ServerError e) \<longrightarrow> listen_error_of e) \<and>
      (SendPanic s \<longrightarrow> (\<exists>sig. StoppedBy s = Some (StopSignal sig)))) \<and>
    (\<exists>s. listen_step\<^sup>*\<^sup>* listen_start s \<and> SendPanic s)"
proof (intro conjI impI)
  assume inv: "listen_step\<^sup>*\<^sup>* listen_start s"
  then have inv: "listen_inv s" by (rule listen_inv_reachable)
  show "\<exists>e. ErrChan s = Some [e] \<and> listen_error_of e" if "Listening s = ListenerDone \<and> MainAt s = Waiting"
    using inv that by (auto simp: listen_inv_def)
  show "listen_error_of e" if "StoppedBy s = Some (ServerError e)"
    using inv that by (simp add: listen_inv_def)
  show "\<exists>sig. StoppedBy s = Some (StopSignal sig)" if "SendPanic s"
    using inv that by (cases "StoppedBy s" rule: option.exhaust; cases "the (StoppedBy s)") (auto simp: listen_inv_def)
next
  show "\<exists>s. listen_step\<^sup>*\<^sup>* listen_start s \<and> SendPanic s" using send_after_close by blast
qed

theorem listener_errors_witness:
  "\<exists>s sig. listen_step\<^sup>*\<^sup>* listen_start s \<and> SendPanic s \<and> StoppedBy s = Some (StopSignal sig)"
proof -
  from listener_errors [THEN conjunct2] obtain s where s: "listen_step\<^sup>*\<^sup>* listen_start s" "SendPanic s" by blast
  with listener_errors [of s, THEN conjunct1] show ?thesis by blast
qed

text \<open>C36: Overlapping operations lose a reload, for valid configurations, in three ways. A reload during the start-up is
  installed and finishes successfully, yet the server polls the arrays of the old configuration. The SIGHUP
  handler and the file watcher reload at the same time, both succeed, and at the end the configuration and
  the server's pool are the ones of the second, while the collector polls the arrays of the first. And a
  second reload that restores the old file while the first is under way compares it with the old names, finds
  no change, and leaves the pool of the first under the restored configuration.\<close>

theorem overlapping_reloads_disagree:
  assumes "config_ok a" "config_ok b" "config_ok c" and "array_names a \<noteq> array_names b" "array_names a \<noteq> array_names c"
  shows "(\<exists>s. (race_step name_pool)\<^sup>*\<^sup>* (race_start a) s \<and> quiet s \<and> RCfg s = b \<and>
      RPool s = map ArrayName (Arrays a) \<and> RColl s = Some (map ArrayName (Arrays a))) \<and>
    (\<exists>s. (race_step name_pool)\<^sup>*\<^sup>* (race_start a) s \<and> quiet s \<and> RCfg s = c \<and>
      RPool s = map ArrayName (Arrays c) \<and> RColl s = Some (map ArrayName (Arrays b))) \<and>
    (\<exists>s. (race_step name_pool)\<^sup>*\<^sup>* (race_start a) s \<and> quiet s \<and> RCfg s = a \<and>
      RPool s = map ArrayName (Arrays b) \<and> RColl s = Some (map ArrayName (Arrays b)))"
  using reload_lost [OF assms(1,2,4)] reloads_overlap [OF assms] stale_comparison [OF assms(1,2,4)] by blast

theorem overlapping_reloads_disagree_witness:
  "(\<exists>s. (race_step name_pool)\<^sup>*\<^sup>* (race_start (demo_config [''a'', ''b''])) s \<and> quiet s \<and>
     RCfg s = demo_config [''a'', ''c''] \<and> RColl s = Some [''a'', ''b'']) \<and>
   (\<exists>s. (race_step name_pool)\<^sup>*\<^sup>* (race_start (demo_config [''a'', ''b''])) s \<and> quiet s \<and>
     RPool s = [''c''] \<and> RColl s = Some [''a'', ''c''])"
proof -
  have "''b'' \<in> set [''a'', ''b'']" "''b'' \<notin> set [''a'', ''c'']" "''b'' \<notin> set [''c'']" by simp_all
  then have "array_names (demo_config [''a'', ''b'']) \<noteq> array_names (demo_config [''a'', ''c''])"
    "array_names (demo_config [''a'', ''b'']) \<noteq> array_names (demo_config [''c''])"
    unfolding array_names_def demo_name_set by metis+
  note all = overlapping_reloads_disagree [OF demo_config_ok demo_config_accepted(3) this, unfolded demo_array_names]
  show ?thesis using all [THEN conjunct1] all [THEN conjunct2, THEN conjunct1]
    by (elim exE conjE) (intro conjI exI, assumption+)
qed

end
